theory Spec2Isabelle
  imports Complex_Main
begin

section \<open>JavaScript strings\<close>

text \<open>
  Strings are lists of 8-bit characters, read as the code units U+0000 to U+00FF.
  The built-ins of the language that the editor service calls are written out on that
  alphabet: \<open>trim\<close>, \<open>toLowerCase\<close>, \<open>toUpperCase\<close>, \<open>startsWith\<close>,
  \<open>substring(0, n)\<close>.
\<close>

definition BACKTICK :: char where
  "BACKTICK = CHR 0x60"

definition DQUOTE :: char where
  "DQUOTE = CHR 0x22"

definition BACKSLASH :: char where
  "BACKSLASH = CHR 0x5C"

definition NEWLINE :: char where
  "NEWLINE = CHR 0x0A"

definition isWhiteSpace :: "char \<Rightarrow> bool" where
  \<comment> \<open>WhiteSpace and LineTerminator of ECMAScript below U+0100: TAB, LF, VT, FF, CR, SP, NBSP.\<close>
  "isWhiteSpace c \<longleftrightarrow>
     c = CHR 0x09 \<or> c = CHR 0x0A \<or> c = CHR 0x0B \<or> c = CHR 0x0C \<or> c = CHR 0x0D
     \<or> c = CHR 0x20 \<or> c = CHR 0xA0"

definition trimStart :: "string \<Rightarrow> string" where
  "trimStart s = dropWhile isWhiteSpace s"

definition trimEnd :: "string \<Rightarrow> string" where
  "trimEnd s = rev (dropWhile isWhiteSpace (rev s))"

definition trim :: "string \<Rightarrow> string" where
  "trim s = trimEnd (trimStart s)"

definition lowerChar :: "char \<Rightarrow> char" where
  \<comment> \<open>A to Z, and the Latin-1 capitals U+00C0 to U+00DE without the multiplication sign.\<close>
  "lowerChar c =
     (let n = (of_char c :: nat)
      in if (65 \<le> n \<and> n \<le> 90) \<or> (192 \<le> n \<and> n \<le> 222 \<and> n \<noteq> 215)
         then char_of (n + 32) else c)"

definition upperChar :: "char \<Rightarrow> char" where
  \<comment> \<open>a to z, and U+00E0 to U+00FE without the division sign. The three letters whose
      capital lies outside the alphabet (U+00B5, U+00DF, U+00FF) are kept: the service
      only looks the result up in tables whose keys are ASCII capitals and underscores,
      and no such key contains SS, so the lookup is the same.\<close>
  "upperChar c =
     (let n = (of_char c :: nat)
      in if (97 \<le> n \<and> n \<le> 122) \<or> (224 \<le> n \<and> n \<le> 254 \<and> n \<noteq> 247)
         then char_of (n - 32) else c)"

definition toLowerCase :: "string \<Rightarrow> string" where
  "toLowerCase s = map lowerChar s"

definition toUpperCase :: "string \<Rightarrow> string" where
  "toUpperCase s = map upperChar s"

definition startsWith :: "string \<Rightarrow> string \<Rightarrow> bool" where
  "startsWith s p \<longleftrightarrow> take (length p) s = p"

definition endsWith :: "string \<Rightarrow> string \<Rightarrow> bool" where
  "endsWith s p \<longleftrightarrow> length p \<le> length s \<and> drop (length s - length p) s = p"

definition substring0 :: "nat \<Rightarrow> string \<Rightarrow> string" where
  \<comment> \<open>\<open>s.substring(0, n)\<close>\<close>
  "substring0 n s = take n s"

subsection \<open>Numbers in text\<close>

definition digitChar :: "nat \<Rightarrow> char" where
  "digitChar d = char_of (48 + d mod 10)"

fun showNatFuel :: "nat \<Rightarrow> nat \<Rightarrow> string" where
  "showNatFuel 0 n = []"
| "showNatFuel (Suc k) n =
     (if n < 10 then [digitChar n] else showNatFuel k (n div 10) @ [digitChar (n mod 10)])"

definition showNat :: "nat \<Rightarrow> string" where
  \<comment> \<open>The decimal digits of a natural number, as a template literal prints a length or
      a count. A number has at most \<open>n + 1\<close> digits.\<close>
  "showNat n = showNatFuel (Suc n) n"

definition toFixed2 :: "rat \<Rightarrow> string" where
  \<comment> \<open>\<open>x.toFixed(2)\<close> for \<open>0 \<le> x\<close>: the integer \<open>n\<close> nearest to \<open>100 x\<close>, the
      larger one on a tie, printed with two decimals.\<close>
  "toFixed2 x =
     (let n = nat \<lfloor>x * 100 + 1 / 2\<rfloor>
      in showNat (n div 100) @ ''.'' @ [digitChar (n div 10 mod 10), digitChar (n mod 10)])"

fun fractionDigits :: "nat \<Rightarrow> rat \<Rightarrow> string" where
  "fractionDigits 0 x = []"
| "fractionDigits (Suc k) x =
     (if x = 0 then []
      else (let d = nat \<lfloor>x * 10\<rfloor> in digitChar d # fractionDigits k (x * 10 - of_nat d)))"

definition showDecimal :: "rat \<Rightarrow> string" where
  \<comment> \<open>The digits of a number that is not negative and has a short decimal expansion,
      such as 0.8: what a template literal prints for it. The examples use it for
      \<open>numberToString\<close>.\<close>
  "showDecimal x =
     (let i = nat \<lfloor>x\<rfloor>; f = x - of_nat i
      in if f = 0 then showNat i else showNat i @ ''.'' @ fractionDigits 17 f)"

section \<open>JSON.parse\<close>

text \<open>
  The JSON grammar of ECMA-404, as \<open>JSON.parse\<close> reads it. Numbers are exact rationals
  (the rounding of a decimal literal to binary64 is not modelled). A later duplicate of
  an object key wins. The result \<open>PBeyond\<close> stands for "outside this model", so that
  nothing is claimed about it: a \<open>\u\<close> escape of a code unit above U+00FF. The recursion
  of the parser runs on a budget; \<open>PFuel\<close> says that the budget ran out, which the budget
  of \<open>jsonParse\<close> excludes (\<open>jsonParse_budget\<close>).
\<close>

datatype json =
    JNull
  | JBool bool
  | JNum rat
  | JStr string
  | JArr "json list"
  | JObj "(string \<times> json) list"

datatype 'a pres = PErr | PBeyond | PFuel | POk 'a string

datatype jres = JErr | JBeyond | JFuel | JOk json

definition isJsonWs :: "char \<Rightarrow> bool" where
  "isJsonWs c \<longleftrightarrow> c = CHR 0x20 \<or> c = CHR 0x09 \<or> c = CHR 0x0A \<or> c = CHR 0x0D"

definition skipWs :: "string \<Rightarrow> string" where
  "skipWs s = dropWhile isJsonWs s"

definition isDigit :: "char \<Rightarrow> bool" where
  "isDigit c \<longleftrightarrow> 48 \<le> (of_char c :: nat) \<and> (of_char c :: nat) \<le> 57"

definition digitVal :: "char \<Rightarrow> nat" where
  "digitVal c = (of_char c :: nat) - 48"

definition natOfDigits :: "string \<Rightarrow> nat" where
  "natOfDigits ds = foldl (\<lambda>a c. 10 * a + digitVal c) 0 ds"

definition hexVal :: "char \<Rightarrow> nat option" where
  "hexVal c =
     (let n = (of_char c :: nat)
      in if 48 \<le> n \<and> n \<le> 57 then Some (n - 48)
         else if 65 \<le> n \<and> n \<le> 70 then Some (n - 55)
         else if 97 \<le> n \<and> n \<le> 102 then Some (n - 87)
         else None)"

definition hex4 :: "char \<Rightarrow> char \<Rightarrow> char \<Rightarrow> char \<Rightarrow> nat option" where
  "hex4 a b c d =
     (case (hexVal a, hexVal b, hexVal c, hexVal d) of
        (Some w, Some x, Some y, Some z) \<Rightarrow> Some (((w * 16 + x) * 16 + y) * 16 + z)
      | _ \<Rightarrow> None)"

definition parseIntPart :: "string \<Rightarrow> (nat \<times> string) option" where
  \<comment> \<open>\<open>0\<close>, or a digit from 1 to 9 followed by digits\<close>
  "parseIntPart s =
     (case s of
        [] \<Rightarrow> None
      | c # cs \<Rightarrow>
          if c = CHR ''0'' then Some (0, cs)
          else if isDigit c then Some (natOfDigits (takeWhile isDigit s), dropWhile isDigit s)
          else None)"

definition parseFraction :: "string \<Rightarrow> (rat \<times> string) option" where
  \<comment> \<open>an optional \<open>.\<close> with at least one digit\<close>
  "parseFraction s =
     (case s of
        c # cs \<Rightarrow>
          if c = CHR ''.'' then
            (let ds = takeWhile isDigit cs
             in if ds = [] then None
                else Some (of_nat (natOfDigits ds) / 10 ^ length ds, dropWhile isDigit cs))
          else Some (0, s)
      | [] \<Rightarrow> Some (0, s))"

definition parseExponent :: "string \<Rightarrow> (rat \<times> string) option" where
  \<comment> \<open>an optional \<open>e\<close> or \<open>E\<close>, a sign, at least one digit; the result is the factor\<close>
  "parseExponent s =
     (case s of
        c # cs \<Rightarrow>
          if c = CHR ''e'' \<or> c = CHR ''E'' then
            (let (neg, r) =
                   (case cs of
                      d # ds \<Rightarrow>
                        if d = CHR ''-'' then (True, ds)
                        else if d = CHR ''+'' then (False, ds) else (False, cs)
                    | [] \<Rightarrow> (False, cs));
                 ds = takeWhile isDigit r
             in if ds = [] then None
                else Some (if neg then 1 / 10 ^ natOfDigits ds else 10 ^ natOfDigits ds,
                           dropWhile isDigit r))
          else Some (1, s)
      | [] \<Rightarrow> Some (1, s))"

definition parseNumber :: "string \<Rightarrow> rat pres" where
  "parseNumber s =
     (let (neg, s1) = (case s of c # cs \<Rightarrow> if c = CHR ''-'' then (True, cs) else (False, s)
                              | [] \<Rightarrow> (False, s))
      in case parseIntPart s1 of
           None \<Rightarrow> PErr
         | Some (i, s2) \<Rightarrow>
             (case parseFraction s2 of
                None \<Rightarrow> PErr
              | Some (f, s3) \<Rightarrow>
                  (case parseExponent s3 of
                     None \<Rightarrow> PErr
                   | Some (e, s4) \<Rightarrow>
                       POk ((if neg then - 1 else 1) * (of_nat i + f) * e) s4)))"

fun parseStringBody :: "string \<Rightarrow> string \<Rightarrow> string pres" where
  "parseStringBody [] acc = PErr"
| "parseStringBody (c # cs) acc =
     (if c = DQUOTE then POk (rev acc) cs
      else if c = BACKSLASH then
        (case cs of
           [] \<Rightarrow> PErr
         | e # r \<Rightarrow>
             if e = DQUOTE then parseStringBody r (DQUOTE # acc)
             else if e = BACKSLASH then parseStringBody r (BACKSLASH # acc)
             else if e = CHR ''/'' then parseStringBody r (CHR ''/'' # acc)
             else if e = CHR ''b'' then parseStringBody r (CHR 0x08 # acc)
             else if e = CHR ''f'' then parseStringBody r (CHR 0x0C # acc)
             else if e = CHR ''n'' then parseStringBody r (CHR 0x0A # acc)
             else if e = CHR ''r'' then parseStringBody r (CHR 0x0D # acc)
             else if e = CHR ''t'' then parseStringBody r (CHR 0x09 # acc)
             else if e = CHR ''u'' then
               (case r of
                  h1 # h2 # h3 # h4 # r' \<Rightarrow>
                    (case hex4 h1 h2 h3 h4 of
                       None \<Rightarrow> PErr
                     | Some n \<Rightarrow>
                         if n < 256 then parseStringBody r' (char_of n # acc) else PBeyond)
                | _ \<Rightarrow> PErr)
             else PErr)
      else if (of_char c :: nat) < 32 then PErr
      else parseStringBody cs (c # acc))"

definition parseLiteral :: "string \<Rightarrow> json \<Rightarrow> string \<Rightarrow> json pres" where
  "parseLiteral lit v s = (if take (length lit) s = lit then POk v (drop (length lit) s) else PErr)"

fun parseValue :: "nat \<Rightarrow> string \<Rightarrow> json pres"
  and parseElements :: "nat \<Rightarrow> string \<Rightarrow> json list \<Rightarrow> json pres"
  and parseMembers :: "nat \<Rightarrow> string \<Rightarrow> (string \<times> json) list \<Rightarrow> json pres"
where
  "parseValue 0 s = PFuel"
| "parseValue (Suc n) s =
     (case skipWs s of
        [] \<Rightarrow> PErr
      | c # cs \<Rightarrow>
          if c = CHR ''{'' then
            (case skipWs cs of
               [] \<Rightarrow> PErr
             | d # r \<Rightarrow> if d = CHR ''}'' then POk (JObj []) r else parseMembers n cs [])
          else if c = CHR ''['' then
            (case skipWs cs of
               [] \<Rightarrow> PErr
             | d # r \<Rightarrow> if d = CHR '']'' then POk (JArr []) r else parseElements n cs [])
          else if c = DQUOTE then
            (case parseStringBody cs [] of
               POk str r \<Rightarrow> POk (JStr str) r
             | PErr \<Rightarrow> PErr
             | PBeyond \<Rightarrow> PBeyond
             | PFuel \<Rightarrow> PFuel)
          else if c = CHR ''t'' then parseLiteral ''true'' (JBool True) (c # cs)
          else if c = CHR ''f'' then parseLiteral ''false'' (JBool False) (c # cs)
          else if c = CHR ''n'' then parseLiteral ''null'' JNull (c # cs)
          else if c = CHR ''-'' \<or> isDigit c then
            (case parseNumber (c # cs) of
               POk x r \<Rightarrow> POk (JNum x) r
             | PErr \<Rightarrow> PErr
             | PBeyond \<Rightarrow> PBeyond
             | PFuel \<Rightarrow> PFuel)
          else PErr)"
| "parseElements 0 s acc = PFuel"
| "parseElements (Suc n) s acc =
     (case parseValue n s of
        POk v r \<Rightarrow>
          (case skipWs r of
             [] \<Rightarrow> PErr
           | d # r' \<Rightarrow>
               if d = CHR '','' then parseElements n r' (v # acc)
               else if d = CHR '']'' then POk (JArr (rev (v # acc))) r'
               else PErr)
      | PErr \<Rightarrow> PErr
      | PBeyond \<Rightarrow> PBeyond
      | PFuel \<Rightarrow> PFuel)"
| "parseMembers 0 s acc = PFuel"
| "parseMembers (Suc n) s acc =
     (case skipWs s of
        [] \<Rightarrow> PErr
      | q # cs \<Rightarrow>
          if q = DQUOTE then
            (case parseStringBody cs [] of
               POk k r \<Rightarrow>
                 (case skipWs r of
                    [] \<Rightarrow> PErr
                  | col # r1 \<Rightarrow>
                      if col = CHR '':'' then
                        (case parseValue n r1 of
                           POk v r2 \<Rightarrow>
                             (case skipWs r2 of
                                [] \<Rightarrow> PErr
                              | d # r3 \<Rightarrow>
                                  if d = CHR '','' then parseMembers n r3 ((k, v) # acc)
                                  else if d = CHR ''}'' then POk (JObj (rev ((k, v) # acc))) r3
                                  else PErr)
                         | PErr \<Rightarrow> PErr
                         | PBeyond \<Rightarrow> PBeyond
                         | PFuel \<Rightarrow> PFuel)
                      else PErr)
             | PErr \<Rightarrow> PErr
             | PBeyond \<Rightarrow> PBeyond
             | PFuel \<Rightarrow> PFuel)
          else PErr)"

definition jsonParse :: "string \<Rightarrow> jres" where
  \<comment> \<open>One value, then only white space. Every call of the parser consumes a character
      at least every second level, so twice the length is budget enough.\<close>
  "jsonParse s =
     (case parseValue (2 * length s + 2) s of
        POk v r \<Rightarrow> if skipWs r = [] then JOk v else JErr
      | PErr \<Rightarrow> JErr
      | PBeyond \<Rightarrow> JBeyond
      | PFuel \<Rightarrow> JFuel)"

definition jsGet :: "(string \<times> json) list \<Rightarrow> string \<Rightarrow> json option" where
  \<comment> \<open>property read on a parsed object: the last member of that name, or undefined\<close>
  "jsGet kvs k = map_of (rev kvs) k"

definition falsy :: "json \<Rightarrow> bool" where
  \<comment> \<open>the values that \<open>||\<close> replaces by its right operand\<close>
  "falsy j \<longleftrightarrow> j = JNull \<or> j = JBool False \<or> j = JNum 0 \<or> j = JStr []"

section \<open>The editor's response\<close>

text \<open>
  \<open>EditorResponse\<close> as the service declares it. Field names carry the prefix \<open>er_\<close>,
  since several structures of the service share the names \<open>decision\<close> and \<open>reason\<close>.
  An entity reference is one of the three variants of the declared union; an index is a
  JavaScript number, so a rational.
\<close>

datatype decision = PUBLISH | SKIP

datatype entity_ref =
    MatchedIndex rat
  | EntityId string
  | Create string string

record rel_spec =
  fromEntityIndex :: rat
  toEntityIndex :: rat
  rs_type :: string
  rs_description :: "string option"

record EditorResponse =
  er_decision :: decision
  er_reason :: string
  er_confidence :: rat
  er_category :: "string option"
  er_entities :: "entity_ref list"
  er_relationships :: "rel_spec list"
  er_cardSummary :: string

text \<open>
  \<open>parseEditorResponse\<close> returns \<open>null\<close> or an object. The object is built from
  whatever JSON values the reply holds, without a check of their types. The typed model
  covers the objects that fit the declared interface (\<open>ParseOk\<close>); an object that does
  not fit it, or a reply outside the JSON model, is \<open>ParseUntyped\<close>, and nothing is
  claimed about its processing.
\<close>

datatype parse_result = ParseNull | ParseUntyped | ParseOk EditorResponse

definition FENCE :: string where
  "FENCE = [BACKTICK, BACKTICK, BACKTICK]"

definition stripFenceStart :: "string \<Rightarrow> string" where
  \<comment> \<open>\<open>.replace(/^```(?:json)?\n?/, '')\<close>\<close>
  "stripFenceStart s =
     (if startsWith s FENCE then
        (let r1 = drop 3 s;
             r2 = (if startsWith r1 ''json'' then drop 4 r1 else r1)
         in if startsWith r2 [NEWLINE] then drop 1 r2 else r2)
      else s)"

definition stripFenceEnd :: "string \<Rightarrow> string" where
  \<comment> \<open>\<open>.replace(/\n?```$/, '')\<close>: the fence must end the text\<close>
  "stripFenceEnd s =
     (if endsWith s FENCE then
        (let r = take (length s - 3) s
         in if endsWith r [NEWLINE] then take (length r - 1) r else r)
      else s)"

definition stripFences :: "string \<Rightarrow> string" where
  "stripFences s = (if startsWith s FENCE then stripFenceEnd (stripFenceStart s) else s)"

definition extractJson :: "string \<Rightarrow> string option" where
  \<comment> \<open>\<open>.match(/\{[\s\S]*\}/)\<close>: from the first opening brace to the last closing
      brace behind it\<close>
  "extractJson s =
     (case dropWhile (\<lambda>c. c \<noteq> CHR ''{'') s of
        [] \<Rightarrow> None
      | b # r \<Rightarrow>
          if CHR ''}'' \<in> set r
          then Some (b # rev (dropWhile (\<lambda>c. c \<noteq> CHR ''}'') (rev r)))
          else None)"

definition decodeText :: "string \<Rightarrow> json option \<Rightarrow> string option" where
  \<comment> \<open>\<open>parsed.field || dflt\<close>, for a field declared a string\<close>
  "decodeText dflt v =
     (case v of
        None \<Rightarrow> Some dflt
      | Some j \<Rightarrow>
          if falsy j then Some dflt
          else (case j of JStr s \<Rightarrow> Some s | _ \<Rightarrow> None))"

definition decodeConfidence :: "json option \<Rightarrow> rat option" where
  \<comment> \<open>\<open>Math.min(1, Math.max(0, parsed.confidence || 0))\<close>\<close>
  "decodeConfidence v =
     (case v of
        None \<Rightarrow> Some 0
      | Some j \<Rightarrow>
          if falsy j then Some 0
          else (case j of JNum x \<Rightarrow> Some (min 1 (max 0 x)) | _ \<Rightarrow> None))"

definition decodeCategory :: "json option \<Rightarrow> string option option" where
  \<comment> \<open>\<open>parsed.category\<close>; \<open>null\<close> behaves as a missing field under \<open>?.\<close>\<close>
  "decodeCategory v =
     (case v of
        None \<Rightarrow> Some None
      | Some JNull \<Rightarrow> Some None
      | Some (JStr s) \<Rightarrow> Some (Some s)
      | Some _ \<Rightarrow> None)"

definition decodeEntityRef :: "json \<Rightarrow> entity_ref option" where
  \<comment> \<open>the variant that the chain of \<open>in\<close> tests selects, in its order\<close>
  "decodeEntityRef j =
     (case j of
        JObj kvs \<Rightarrow>
          (case jsGet kvs ''matchedIndex'' of
             Some v \<Rightarrow> (case v of JNum i \<Rightarrow> Some (MatchedIndex i) | _ \<Rightarrow> None)
           | None \<Rightarrow>
               (case jsGet kvs ''entityId'' of
                  Some v \<Rightarrow> (case v of JStr s \<Rightarrow> Some (EntityId s) | _ \<Rightarrow> None)
                | None \<Rightarrow>
                    (case jsGet kvs ''create'' of
                       Some (JObj c) \<Rightarrow>
                         (case (jsGet c ''name'', jsGet c ''type'') of
                            (Some (JStr n), Some (JStr t)) \<Rightarrow> Some (Create n t)
                          | _ \<Rightarrow> None)
                     | _ \<Rightarrow> None)))
      | _ \<Rightarrow> None)"

definition decodeRelSpec :: "json \<Rightarrow> rel_spec option" where
  "decodeRelSpec j =
     (case j of
        JObj kvs \<Rightarrow>
          (case (jsGet kvs ''fromEntityIndex'', jsGet kvs ''toEntityIndex'', jsGet kvs ''type'') of
             (Some (JNum f), Some (JNum t), Some (JStr ty)) \<Rightarrow>
               (case jsGet kvs ''description'' of
                  None \<Rightarrow>
                    Some \<lparr>fromEntityIndex = f, toEntityIndex = t, rs_type = ty,
                          rs_description = None\<rparr>
                | Some (JStr d) \<Rightarrow>
                    Some \<lparr>fromEntityIndex = f, toEntityIndex = t, rs_type = ty,
                          rs_description = Some d\<rparr>
                | Some _ \<Rightarrow> None)
           | _ \<Rightarrow> None)
      | _ \<Rightarrow> None)"

fun allSome :: "'a option list \<Rightarrow> 'a list option" where
  "allSome [] = Some []"
| "allSome (None # xs) = None"
| "allSome (Some x # xs) = (case allSome xs of None \<Rightarrow> None | Some ys \<Rightarrow> Some (x # ys))"

definition decodeArray :: "(json \<Rightarrow> 'a option) \<Rightarrow> json option \<Rightarrow> 'a list option" where
  \<comment> \<open>\<open>parsed.field || []\<close>, for a field declared an array\<close>
  "decodeArray f v =
     (case v of
        None \<Rightarrow> Some []
      | Some j \<Rightarrow>
          if falsy j then Some []
          else (case j of JArr xs \<Rightarrow> allSome (map f xs) | _ \<Rightarrow> None))"

definition buildResponse :: "decision \<Rightarrow> (string \<times> json) list \<Rightarrow> parse_result" where
  "buildResponse d kvs =
     (case (decodeText ''No reason provided'' (jsGet kvs ''reason''),
            decodeConfidence (jsGet kvs ''confidence''),
            decodeCategory (jsGet kvs ''category''),
            decodeArray decodeEntityRef (jsGet kvs ''entities''),
            decodeArray decodeRelSpec (jsGet kvs ''relationships''),
            decodeText [] (jsGet kvs ''cardSummary'')) of
        (Some r, Some c, Some cat, Some es, Some rs, Some cs) \<Rightarrow>
          ParseOk \<lparr>er_decision = d, er_reason = r, er_confidence = c, er_category = cat,
                   er_entities = es, er_relationships = rs, er_cardSummary = cs\<rparr>
      | _ \<Rightarrow> ParseUntyped)"

definition validateParsed :: "json \<Rightarrow> parse_result" where
  \<comment> \<open>\<open>if (!parsed.decision || !['PUBLISH', 'SKIP'].includes(parsed.decision)) return null\<close>\<close>
  "validateParsed parsed =
     (case parsed of
        JObj kvs \<Rightarrow>
          (case jsGet kvs ''decision'' of
             Some (JStr d) \<Rightarrow>
               if d = ''PUBLISH'' then buildResponse PUBLISH kvs
               else if d = ''SKIP'' then buildResponse SKIP kvs
               else ParseNull
           | _ \<Rightarrow> ParseNull)
      | _ \<Rightarrow> ParseNull)"

definition parseEditorResponse :: "string \<Rightarrow> parse_result" where
  "parseEditorResponse content =
     (case extractJson (stripFences (trim content)) of
        None \<Rightarrow> ParseNull
      | Some m \<Rightarrow>
          (case jsonParse m of
             JErr \<Rightarrow> ParseNull
           | JBeyond \<Rightarrow> ParseUntyped
           | JFuel \<Rightarrow> ParseUntyped
           | JOk parsed \<Rightarrow> validateParsed parsed))"

section \<open>Records of the ledger\<close>

text \<open>
  The structures of the shared types that the editor reads and writes. Every field
  carries a prefix naming its structure (\<open>it_\<close> for \<open>IntakeItem\<close>, \<open>ent_\<close> for
  \<open>Entity\<close>, and so on), since the structures share field names. Fields that the editor
  only passes into the prompt text (\<open>suggestedRelationships\<close>, \<open>suggestedSources\<close>, the
  feed data) are left out.
\<close>

datatype entity_type =
  CORPORATION | AGENCY | PERSON | INDIVIDUAL_PUBLIC_OFFICIAL | NONPROFIT | VENDOR

datatype relationship_type =
    OWNS | CONTROLS | SUBSIDIARY_OF | PARENT_OF | AFFILIATED | CONTRACTOR_TO
  | REGULATED_BY | LOBBIED_BY | ACQUIRED | DIVESTED | JV_PARTNER | BOARD_INTERLOCK
  | OTHER

datatype pub_status = DRAFT | PUBLISHED | RETRACTED

datatype intake_status = NEW | REVIEWED | PROMOTED | REJECTED

datatype extraction_status = ExPENDING | ExCOMPLETED | ExFAILED | ExSKIPPED

datatype editor_status = PENDING | APPROVED | SKIPPED

record Entity =
  ent_entityId :: string
  ent_name :: string
  ent_type :: entity_type
  ent_aliases :: "string list"

record Source =
  src_sourceId :: string
  src_title :: string
  src_url :: string
  src_docType :: string
  src_publisher :: string
  src_excerpt :: "string option"
  src_snapshot :: bool

record Card =
  card_cardId :: string
  card_title :: string
  card_claim :: string
  card_summary :: string
  card_category :: string
  card_entityIds :: "string list"
  card_eventDate :: string
  card_sourceRefs :: "string list"
  card_evidenceStrength :: string
  card_tags :: "string list"
  card_status :: pub_status

record Relationship =
  rel_relationshipId :: string
  rel_fromEntityId :: string
  rel_toEntityId :: string
  rel_type :: relationship_type
  rel_status :: pub_status
  rel_description :: "string option"
  rel_sourceRefs :: "string list"
  rel_createdBy :: string

record EditorDecision =
  ed_decision :: decision
  ed_reason :: string
  ed_confidence :: rat
  ed_decidedAt :: string
  ed_runId :: string

record SuggestedEntity =
  se_extractedName :: string
  se_confidence :: rat
  se_matchedEntityId :: "string option"

record IntakeItem =
  it_intakeId :: string
  it_canonicalUrl :: string
  it_title :: string
  it_publishedAt :: string
  it_publisher :: string
  it_summary :: "string option"
  it_status :: intake_status
  it_suggestedTags :: "string list option"
  it_extractedSummary :: "string option"
  it_suggestedEntities :: "SuggestedEntity list option"
  it_extractionStatus :: "extraction_status option"
  it_promotedSourceId :: "string option"
  it_promotedCardId :: "string option"
  it_editorStatus :: "editor_status option"
  it_editorDecision :: "EditorDecision option"
  it_reviewedAt :: "string option"
  it_reviewedBy :: "string option"

text \<open>A stored intake item: the item and the keys of the status index.\<close>

record IntakeRow =
  row_item :: IntakeItem
  row_GSI1PK :: string
  row_GSI1SK :: string

record AuditEvent =
  au_action :: string
  au_targetType :: string
  au_targetId :: string
  au_userId :: string
  au_cardId :: string
  au_sourceId :: string
  au_entityIds :: "string list"
  au_relationshipIds :: "string list"
  au_confidence :: rat
  au_runId :: string
  au_automated :: bool

text \<open>The result of one item: \<open>'PUBLISH' | 'SKIP' | 'ERROR'\<close>.\<close>

datatype item_decision = Decided decision | ERROR

record EditorItemResult =
  res_intakeId :: string
  res_decision :: item_decision
  res_reason :: string
  res_cardId :: "string option"
  res_entityIds :: "string list option"
  res_relationshipIds :: "string list option"

record EditorRunSummary =
  sum_runId :: string
  sum_startedAt :: string
  sum_completedAt :: string
  sum_processed :: nat
  sum_published :: nat
  sum_skipped :: nat
  sum_errors :: nat
  sum_dryRun :: bool
  sum_results :: "EditorItemResult list"

record matched_entity =
  me_entityId :: string
  me_name :: string
  me_type :: entity_type

section \<open>The state of the process and its surroundings\<close>

text \<open>
  The tables, the log of the editor and the order of the store operations. The order
  is kept in \<open>w_oplog\<close>: one entry per write, and one for the fetch of the duplicate
  window.
\<close>

datatype log_level = LDebug | LInfo | LWarn | LError

datatype store_op =
    DuplicateCheck
  | WriteEntity string
  | WriteSource string
  | WriteSnapshot string
  | WriteCard string
  | WriteRelationship string
  | PublishCard string
  | PublishRelationship string
  | WriteIntake string
  | WriteAudit string

record world =
  w_entities :: "Entity list"
  w_sources :: "Source list"
  w_cards :: "Card list"
  w_relationships :: "Relationship list"
  w_intake :: "IntakeRow list"
  w_audit :: "AuditEvent list"
  w_logs :: "(log_level \<times> string) list"
  w_oplog :: "store_op list"
  w_nextId :: nat
  w_cachedEditorPrompt :: "string option"

text \<open>
  The prompt is the template with the item's fields and the matched entities
  substituted. Its text only reaches the language model, whose reply is arbitrary, so
  the prompt is kept as the three values it is rendered from.
\<close>

datatype prompt = Prompt string IntakeItem "matched_entity list"

record config =
  cfg_enabled :: bool
  cfg_dryRun :: bool
  cfg_maxItemsPerRun :: nat
  cfg_minConfidence :: rat
  cfg_promptTemplateKey :: string
  cfg_promptTemplateBucket :: string

text \<open>
  What lies outside the repository's sources and is taken as given: the language model,
  the clock, the object store holding the template, the rendering of a number in a
  template literal, the name matching of the Entity Directory, the category vocabulary
  of the shared types, and the outcome of the operations that the editor itself guards
  with \<open>try\<close>. \<open>untypedOutcome\<close> stands for the processing of a reply that does not fit
  the declared interface.
\<close>

record env =
  invokeClaudeExtraction :: "prompt \<Rightarrow> string + string"
  now :: string
  s3GetObject :: "string \<Rightarrow> string \<Rightarrow> string + string option"
  numberToString :: "rat \<Rightarrow> string"
  nameMatches :: "string \<Rightarrow> Entity \<Rightarrow> bool"
  validCategories :: "string list"
  getEntityRejects :: bool
  snapshotFails :: "string \<Rightarrow> string \<Rightarrow> bool"
  publishCardFails :: "world \<Rightarrow> string \<Rightarrow> bool"
  untypedOutcome :: "IntakeItem \<Rightarrow> string \<Rightarrow> bool \<Rightarrow> world \<Rightarrow> EditorItemResult \<times> world"

definition EDITOR_USER_ID :: string where
  "EDITOR_USER_ID = ''llm-editor''"

definition logMsg :: "log_level \<Rightarrow> string \<Rightarrow> world \<Rightarrow> world" where
  "logMsg lvl msg w = w\<lparr>w_logs := w_logs w @ [(lvl, msg)]\<rparr>"

definition recordOp :: "store_op \<Rightarrow> world \<Rightarrow> world" where
  "recordOp op w = w\<lparr>w_oplog := w_oplog w @ [op]\<rparr>"

definition ulid :: "world \<Rightarrow> string \<times> world" where
  \<comment> \<open>a fresh identifier: the model numbers them\<close>
  "ulid w = (''ID'' @ showNat (w_nextId w), w\<lparr>w_nextId := Suc (w_nextId w)\<rparr>)"

definition truthy :: "string option \<Rightarrow> bool" where
  \<comment> \<open>an optional string in a condition: present and not empty\<close>
  "truthy v \<longleftrightarrow> (case v of None \<Rightarrow> False | Some s \<Rightarrow> s \<noteq> [])"

section \<open>The Entity Directory, the Source Registry and the Claim Store\<close>

definition getEntity :: "env \<Rightarrow> string \<Rightarrow> world \<Rightarrow> string + Entity option" where
  \<comment> \<open>Modelled from the spec: \<open>getEntity\<close> of the entities service, which is not among
      the sources. The Entity Directory looks an entity up by its identifier. How a miss
      is reported is a parameter: as an absent value, which the by-id branch of
      \<open>processItem\<close> tests for, or as a rejection, which \<open>getMatchedEntities\<close> catches
      and the validation in \<open>createRelationship\<close> relies on.\<close>
  "getEntity e i w =
     (case find (\<lambda>x. ent_entityId x = i) (w_entities w) of
        Some x \<Rightarrow> Inr (Some x)
      | None \<Rightarrow> if getEntityRejects e then Inl (''Entity not found: '' @ i) else Inr None)"

definition findEntityByName :: "env \<Rightarrow> string \<Rightarrow> world \<Rightarrow> Entity option" where
  \<comment> \<open>Modelled from the spec: \<open>findEntityByName\<close> of the entities service. The
      directory matches names after normalisation; the matching relation is a parameter.\<close>
  "findEntityByName e n w = find (nameMatches e n) (w_entities w)"

definition createEntity :: "string \<Rightarrow> entity_type \<Rightarrow> world \<Rightarrow> Entity \<times> world" where
  \<comment> \<open>Modelled from the spec: \<open>createEntity\<close> of the entities service. A new entity with
      a fresh identifier and no aliases joins the directory.\<close>
  "createEntity n t w =
     (let (i, w1) = ulid w;
          x = \<lparr>ent_entityId = i, ent_name = n, ent_type = t, ent_aliases = []\<rparr>
      in (x, recordOp (WriteEntity i) (w1\<lparr>w_entities := w_entities w1 @ [x]\<rparr>)))"

definition createSource ::
  "string \<Rightarrow> string \<Rightarrow> string \<Rightarrow> string \<Rightarrow> string option \<Rightarrow> world \<Rightarrow> Source \<times> world" where
  \<comment> \<open>Modelled from the spec: \<open>createSource\<close> of the sources service. A new source
      record with a fresh identifier and no snapshot.\<close>
  "createSource t u d p x w =
     (let (i, w1) = ulid w;
          s = \<lparr>src_sourceId = i, src_title = t, src_url = u, src_docType = d,
               src_publisher = p, src_excerpt = x, src_snapshot = False\<rparr>
      in (s, recordOp (WriteSource i) (w1\<lparr>w_sources := w_sources w1 @ [s]\<rparr>)))"

definition captureHtmlSnapshot :: "env \<Rightarrow> string \<Rightarrow> string \<Rightarrow> world \<Rightarrow> (string + unit) \<times> world" where
  \<comment> \<open>Modelled from the spec: \<open>captureHtmlSnapshot\<close> of the sources service. The fetch
      of the page fails or succeeds as the surroundings decide; on success the source
      holds a snapshot.\<close>
  "captureHtmlSnapshot e i u w =
     (if snapshotFails e i u then (Inl (''Snapshot failed: '' @ u), w)
      else (Inr (),
            recordOp (WriteSnapshot i)
              (w\<lparr>w_sources :=
                   map (\<lambda>s. if src_sourceId s = i then s\<lparr>src_snapshot := True\<rparr> else s)
                     (w_sources w)\<rparr>)))"

definition createCard :: "Card \<Rightarrow> world \<Rightarrow> Card \<times> world" where
  \<comment> \<open>Modelled from the spec: \<open>createCard\<close> of the cards service. The card gets a fresh
      identifier and is stored in DRAFT, the most recent card first.\<close>
  "createCard c w =
     (let (i, w1) = ulid w;
          c' = c\<lparr>card_cardId := i, card_status := DRAFT\<rparr>
      in (c', recordOp (WriteCard i) (w1\<lparr>w_cards := c' # w_cards w1\<rparr>)))"

definition publishCard :: "env \<Rightarrow> string \<Rightarrow> world \<Rightarrow> (string + unit) \<times> world" where
  \<comment> \<open>Modelled from the spec: \<open>publishCard\<close> of the cards service. Whether the card
      may be published (its sources verified) is decided outside the sources given; on
      success the card is PUBLISHED.\<close>
  "publishCard e i w =
     (if publishCardFails e w i then (Inl (''Cannot publish card '' @ i), w)
      else (Inr (),
            recordOp (PublishCard i)
              (w\<lparr>w_cards :=
                   map (\<lambda>c. if card_cardId c = i then c\<lparr>card_status := PUBLISHED\<rparr> else c)
                     (w_cards w)\<rparr>)))"

definition listCards :: "nat \<Rightarrow> world \<Rightarrow> Card list" where
  \<comment> \<open>Modelled from the spec: \<open>listCards({ limit }, true)\<close> of the cards service, the
      bounded recent window of published cards.\<close>
  "listCards limit w = take limit (filter (\<lambda>c. card_status c = PUBLISHED) (w_cards w))"

definition logAuditEvent :: "AuditEvent \<Rightarrow> world \<Rightarrow> world" where
  \<comment> \<open>Modelled from the spec: \<open>logAuditEvent\<close> of the audit service appends the event.\<close>
  "logAuditEvent a w = recordOp (WriteAudit (au_targetId a)) (w\<lparr>w_audit := w_audit w @ [a]\<rparr>)"

section \<open>The relationships service\<close>

definition createRelationship ::
  "env \<Rightarrow> string \<Rightarrow> string \<Rightarrow> relationship_type \<Rightarrow> string option \<Rightarrow> string list \<Rightarrow>
   rat option \<Rightarrow> string \<Rightarrow> world \<Rightarrow> (string + Relationship) \<times> world" where
  \<comment> \<open>Both entities are looked up first; the relationship is stored in DRAFT. The two
      stored items (the relationship and its reverse lookup) are one entry of the table.\<close>
  "createRelationship e f t ty d refs pct u w =
     (case getEntity e f w of
        Inl err \<Rightarrow> (Inl err, w)
      | Inr _ \<Rightarrow>
          (case getEntity e t w of
             Inl err \<Rightarrow> (Inl err, w)
           | Inr _ \<Rightarrow>
               if (case pct of None \<Rightarrow> False | Some p \<Rightarrow> p < 0 \<or> p > 100)
               then (Inl ''ownershipPercentage must be between 0 and 100'', w)
               else
                 (let (i, w1) = ulid w;
                      r = \<lparr>rel_relationshipId = i, rel_fromEntityId = f, rel_toEntityId = t,
                           rel_type = ty, rel_status = DRAFT, rel_description = d,
                           rel_sourceRefs = refs, rel_createdBy = u\<rparr>
                  in (Inr r,
                      recordOp (WriteRelationship i)
                        (w1\<lparr>w_relationships := w_relationships w1 @ [r]\<rparr>)))))"

definition getRelationship :: "string \<Rightarrow> world \<Rightarrow> string + Relationship" where
  "getRelationship i w =
     (case find (\<lambda>r. rel_relationshipId r = i) (w_relationships w) of
        None \<Rightarrow> Inl (''Relationship not found: '' @ i)
      | Some r \<Rightarrow> Inr r)"

definition publishRelationship :: "string \<Rightarrow> string \<Rightarrow> world \<Rightarrow> (string + Relationship) \<times> world" where
  "publishRelationship i u w =
     (case getRelationship i w of
        Inl err \<Rightarrow> (Inl err, w)
      | Inr existing \<Rightarrow>
          if rel_status existing \<noteq> DRAFT
          then (Inl ''Only DRAFT relationships can be published'', w)
          else if rel_sourceRefs existing = []
          then (Inl ''At least one source reference is required to publish'', w)
          else
            (let updated = existing\<lparr>rel_status := PUBLISHED\<rparr>
             in (Inr updated,
                 recordOp (PublishRelationship i)
                   (w\<lparr>w_relationships :=
                        map (\<lambda>r. if rel_relationshipId r = i then updated else r)
                          (w_relationships w)\<rparr>))))"

section \<open>The editor service\<close>

subsection \<open>Matched entities and the prompt\<close>

fun getMatchedEntitiesLoop ::
  "env \<Rightarrow> world \<Rightarrow> SuggestedEntity list \<Rightarrow> matched_entity list \<Rightarrow> string list \<Rightarrow> matched_entity list"
where
  "getMatchedEntitiesLoop e w [] matched seenIds = matched"
| "getMatchedEntitiesLoop e w (suggestion # rest) matched seenIds =
     (let byId =
            (if truthy (se_matchedEntityId suggestion)
             then (case getEntity e (the (se_matchedEntityId suggestion)) w of
                     Inl err \<Rightarrow> None
                   | Inr x \<Rightarrow> x)
             else None);
          entity =
            (if byId = None \<and> se_extractedName suggestion \<noteq> []
             then findEntityByName e (se_extractedName suggestion) w
             else byId)
      in case entity of
           None \<Rightarrow> getMatchedEntitiesLoop e w rest matched seenIds
         | Some x \<Rightarrow>
             if ent_entityId x \<in> set seenIds
             then getMatchedEntitiesLoop e w rest matched seenIds
             else getMatchedEntitiesLoop e w rest
                    (matched @ [\<lparr>me_entityId = ent_entityId x, me_name = ent_name x,
                                 me_type = ent_type x\<rparr>])
                    (ent_entityId x # seenIds))"

definition getMatchedEntities :: "env \<Rightarrow> SuggestedEntity list \<Rightarrow> world \<Rightarrow> matched_entity list" where
  "getMatchedEntities e suggestions w = getMatchedEntitiesLoop e w suggestions [] []"

definition suggestionsOf :: "IntakeItem \<Rightarrow> SuggestedEntity list" where
  \<comment> \<open>\<open>item.suggestedEntities || []\<close>\<close>
  "suggestionsOf item = (case it_suggestedEntities item of None \<Rightarrow> [] | Some xs \<Rightarrow> xs)"

definition buildEditorPrompt :: "string \<Rightarrow> IntakeItem \<Rightarrow> matched_entity list \<Rightarrow> prompt" where
  "buildEditorPrompt template item matchedEntities = Prompt template item matchedEntities"

subsection \<open>Duplicate detection\<close>

definition normalizeTitle :: "string \<Rightarrow> string" where
  \<comment> \<open>\<open>title.toLowerCase().trim()\<close>\<close>
  "normalizeTitle t = trim (toLowerCase t)"

fun findDuplicate :: "string \<Rightarrow> string list \<Rightarrow> Card list \<Rightarrow> string option" where
  \<comment> \<open>the loop of \<open>checkForDuplicate\<close>; the result is the message it logs on a hit\<close>
  "findDuplicate normalizedTitle entityIds [] = None"
| "findDuplicate normalizedTitle entityIds (c # rest) =
     (let cardTitle = normalizeTitle (card_title c)
      in if cardTitle = normalizedTitle then Some ''Found duplicate card by title''
         else if (\<exists>i \<in> set (card_entityIds c). i \<in> set entityIds)
                 \<and> substring0 50 cardTitle = substring0 50 normalizedTitle
         then Some ''Found duplicate card by entity+title prefix''
         else findDuplicate normalizedTitle entityIds rest)"

definition checkForDuplicate :: "string \<Rightarrow> string list \<Rightarrow> world \<Rightarrow> bool \<times> world" where
  "checkForDuplicate title entityIds w =
     (let recentCards = listCards 100 w;
          w1 = recordOp DuplicateCheck w
      in case findDuplicate (normalizeTitle title) entityIds recentCards of
           Some msg \<Rightarrow> (True, logMsg LInfo msg w1)
         | None \<Rightarrow> (False, w1))"

subsection \<open>Recording the editor's status on the intake item\<close>

definition scanItems :: "nat \<Rightarrow> (IntakeRow \<Rightarrow> bool) \<Rightarrow> world \<Rightarrow> IntakeRow list" where
  \<comment> \<open>Modelled from the spec: \<open>scanItems\<close> of the persistence layer, one page of a table
      scan. At most \<open>Limit\<close> stored items are read and the filter is applied to them
      afterwards, as the comment at the call records.\<close>
  "scanItems limit p w = filter p (take limit (w_intake w))"

definition putItem :: "IntakeRow \<Rightarrow> world \<Rightarrow> world" where
  \<comment> \<open>Modelled from the spec: \<open>putItem\<close> of the persistence layer, a keyed document
      store. The stored item of the same intake identifier is replaced, a new one is added.\<close>
  "putItem r w =
     recordOp (WriteIntake (it_intakeId (row_item r)))
       (w\<lparr>w_intake :=
            (if \<exists>x \<in> set (w_intake w). it_intakeId (row_item x) = it_intakeId (row_item r)
             then map (\<lambda>x. if it_intakeId (row_item x) = it_intakeId (row_item r) then r else x)
                    (w_intake w)
             else w_intake w @ [r])\<rparr>)"

definition showIntakeStatus :: "intake_status \<Rightarrow> string" where
  "showIntakeStatus s =
     (case s of NEW \<Rightarrow> ''NEW'' | REVIEWED \<Rightarrow> ''REVIEWED'' | PROMOTED \<Rightarrow> ''PROMOTED''
              | REJECTED \<Rightarrow> ''REJECTED'')"

definition updateIntakeEditorStatus ::
  "env \<Rightarrow> string \<Rightarrow> editor_status \<Rightarrow> EditorDecision \<Rightarrow> string option \<Rightarrow> string option \<Rightarrow>
   world \<Rightarrow> (string + unit) \<times> world" where
  "updateIntakeEditorStatus e intakeId editorStatus dec cardId sourceId w =
     (case scanItems 100 (\<lambda>r. it_intakeId (row_item r) = intakeId) w of
        [] \<Rightarrow> (Inl (''Intake item '' @ intakeId @ '' not found''), w)
      | existing # _ \<Rightarrow>
          (let item0 = row_item existing;
               item1 = item0\<lparr>it_editorStatus := Some editorStatus,
                             it_editorDecision := Some dec,
                             it_reviewedAt := Some (now e),
                             it_reviewedBy := Some EDITOR_USER_ID\<rparr>;
               item2 = (if editorStatus = APPROVED
                        then item1\<lparr>it_status := PROMOTED, it_promotedCardId := cardId,
                                    it_promotedSourceId := sourceId\<rparr>
                        else item1);
               updated = \<lparr>row_item = item2,
                          row_GSI1PK = (if editorStatus = APPROVED then ''STATUS#PROMOTED''
                                        else ''STATUS#'' @ showIntakeStatus (it_status item0)),
                          row_GSI1SK = ''TS#'' @ now e\<rparr>
           in (Inr (), putItem updated w)))"

subsection \<open>The confidence gate\<close>

definition belowThreshold :: "config \<Rightarrow> EditorResponse \<Rightarrow> bool" where
  "belowThreshold cfg er \<longleftrightarrow>
     er_decision er = PUBLISH \<and> er_confidence er < cfg_minConfidence cfg"

definition confidenceGate :: "config \<Rightarrow> env \<Rightarrow> EditorResponse \<Rightarrow> EditorResponse" where
  \<comment> \<open>the in-place rewrite of \<open>editorResponse\<close> under "Check confidence threshold"\<close>
  "confidenceGate cfg e er =
     (if belowThreshold cfg er
      then er\<lparr>er_decision := SKIP,
               er_reason := ''Confidence '' @ toFixed2 (er_confidence er)
                            @ '' below threshold '' @ numberToString e (cfg_minConfidence cfg)\<rparr>
      else er)"

definition mkDecision :: "env \<Rightarrow> string \<Rightarrow> EditorResponse \<Rightarrow> EditorDecision" where
  \<comment> \<open>the \<open>decision\<close> record; the gate keeps its decision and reason equal to the
      response's, so it is built from the response after the gate\<close>
  "mkDecision e runId er =
     \<lparr>ed_decision = er_decision er, ed_reason = er_reason er,
      ed_confidence = er_confidence er, ed_decidedAt = now e, ed_runId = runId\<rparr>"

subsection \<open>Entity resolution\<close>

definition entityTypeMap :: "(string \<times> entity_type) list" where
  "entityTypeMap =
     [(''CORPORATION'', CORPORATION),
      (''GOVERNMENT_AGENCY'', AGENCY),
      (''AGENCY'', AGENCY),
      (''INDIVIDUAL'', PERSON),
      (''PERSON'', PERSON),
      (''INDIVIDUAL_PUBLIC_OFFICIAL'', INDIVIDUAL_PUBLIC_OFFICIAL),
      (''NON_PROFIT'', NONPROFIT),
      (''NONPROFIT'', NONPROFIT),
      (''VENDOR'', VENDOR),
      (''POLITICAL_ENTITY'', AGENCY),
      (''OTHER'', CORPORATION)]"

definition mapEntityType :: "string \<Rightarrow> entity_type" where
  \<comment> \<open>\<open>typeMap[type.toUpperCase()] || 'CORPORATION'\<close>\<close>
  "mapEntityType t =
     (case map_of entityTypeMap (toUpperCase t) of Some x \<Rightarrow> x | None \<Rightarrow> CORPORATION)"

definition isInteger :: "rat \<Rightarrow> bool" where
  "isInteger x \<longleftrightarrow> of_int \<lfloor>x\<rfloor> = x"

definition arrayGet :: "'a list \<Rightarrow> rat \<Rightarrow> 'a option" where
  \<comment> \<open>\<open>xs[i]\<close> for a number \<open>i\<close>: the element when \<open>i\<close> is an integer within the
      bounds, \<open>undefined\<close> otherwise\<close>
  "arrayGet xs i =
     (if isInteger i \<and> 0 \<le> i \<and> i < of_nat (length xs) then Some (xs ! nat \<lfloor>i\<rfloor>) else None)"

definition resolveEntityRef ::
  "env \<Rightarrow> bool \<Rightarrow> matched_entity list \<Rightarrow> entity_ref \<Rightarrow> string list \<Rightarrow> world \<Rightarrow>
   (string + string list) \<times> world" where
  \<comment> \<open>one turn of the loop over \<open>editorResponse.entities\<close>\<close>
  "resolveEntityRef e dryRun matchedEntities entityRef resolved w =
     (case entityRef of
        MatchedIndex index \<Rightarrow>
          if 0 \<le> index \<and> index < of_nat (length matchedEntities) then
            (case arrayGet matchedEntities index of
               None \<Rightarrow> (Inl ''Cannot read properties of undefined (reading entityId)'', w)
             | Some matched \<Rightarrow>
                 (Inr (resolved @ [me_entityId matched]),
                  logMsg LDebug ''Using matched entity by index'' w))
          else (Inr resolved, logMsg LWarn ''Invalid matchedIndex, skipping'' w)
      | EntityId i \<Rightarrow>
          (case getEntity e i w of
             Inl err \<Rightarrow> (Inl err, w)
           | Inr (Some existingEntity) \<Rightarrow>
               (Inr (resolved @ [i]), logMsg LDebug ''Using existing entity by ID'' w)
           | Inr None \<Rightarrow>
               (Inr resolved, logMsg LWarn ''Entity ID not found in database, skipping'' w))
      | Create n t \<Rightarrow>
          if dryRun then (Inr resolved, w)
          else
            (case findEntityByName e n w of
               Some existingByName \<Rightarrow>
                 (Inr (resolved @ [ent_entityId existingByName]),
                  logMsg LInfo ''Found existing entity by name'' w)
             | None \<Rightarrow>
                 (let (entity, w1) = createEntity n (mapEntityType t) w
                  in (Inr (resolved @ [ent_entityId entity]),
                      logMsg LInfo ''Created new entity'' w1))))"

fun resolveEntities ::
  "env \<Rightarrow> bool \<Rightarrow> matched_entity list \<Rightarrow> entity_ref list \<Rightarrow> string list \<Rightarrow> world \<Rightarrow>
   (string + string list) \<times> world"
where
  "resolveEntities e dryRun matchedEntities [] resolved w = (Inr resolved, w)"
| "resolveEntities e dryRun matchedEntities (entityRef # rest) resolved w =
     (case resolveEntityRef e dryRun matchedEntities entityRef resolved w of
        (Inl err, w1) \<Rightarrow> (Inl err, w1)
      | (Inr resolved1, w1) \<Rightarrow> resolveEntities e dryRun matchedEntities rest resolved1 w1)"

subsection \<open>Publication\<close>

definition relTypeMap :: "(string \<times> relationship_type) list" where
  "relTypeMap =
     [(''OWNS'', OWNS),
      (''CONTROLS'', CONTROLS),
      (''SUBSIDIARY_OF'', SUBSIDIARY_OF),
      (''PARENT_OF'', PARENT_OF),
      (''AFFILIATED'', AFFILIATED),
      (''AFFILIATED_WITH'', AFFILIATED),
      (''CONTRACTOR_TO'', CONTRACTOR_TO),
      (''CONTRACTS_WITH'', CONTRACTOR_TO),
      (''REGULATED_BY'', REGULATED_BY),
      (''REGULATES'', REGULATED_BY),
      (''LOBBIED_BY'', LOBBIED_BY),
      (''LOBBIES'', LOBBIED_BY),
      (''ACQUIRED'', ACQUIRED),
      (''DIVESTED'', DIVESTED),
      (''JV_PARTNER'', JV_PARTNER),
      (''BOARD_INTERLOCK'', BOARD_INTERLOCK),
      (''FINED_BY'', REGULATED_BY),
      (''SUED_BY'', OTHER),
      (''SUED'', OTHER),
      (''SETTLED_WITH'', OTHER),
      (''INVESTIGATED_BY'', REGULATED_BY),
      (''OTHER'', OTHER)]"

definition mapRelType :: "string \<Rightarrow> relationship_type" where
  \<comment> \<open>\<open>relTypeMap[relSpec.type.toUpperCase()] || 'OTHER'\<close>\<close>
  "mapRelType t = (case map_of relTypeMap (toUpperCase t) of Some x \<Rightarrow> x | None \<Rightarrow> OTHER)"

definition cardCategory :: "env \<Rightarrow> string option \<Rightarrow> string" where
  \<comment> \<open>the category of the response in lower case when it is a recognised one, else \<open>other\<close>\<close>
  "cardCategory e c =
     (case c of
        None \<Rightarrow> ''other''
      | Some s \<Rightarrow>
          (let rawCategory = toLowerCase s
           in if rawCategory \<noteq> [] \<and> rawCategory \<in> set (validCategories e) then rawCategory
              else ''other''))"

definition cardSummaryOf :: "EditorResponse \<Rightarrow> IntakeItem \<Rightarrow> string" where
  \<comment> \<open>\<open>editorResponse.cardSummary || item.extractedSummary || item.summary || ''\<close>\<close>
  "cardSummaryOf er item =
     (if er_cardSummary er \<noteq> [] then er_cardSummary er
      else if truthy (it_extractedSummary item) then the (it_extractedSummary item)
      else if truthy (it_summary item) then the (it_summary item)
      else [])"

definition eventDateOf :: "IntakeItem \<Rightarrow> string" where
  \<comment> \<open>\<open>item.publishedAt.split('T')[0]\<close>\<close>
  "eventDateOf item = takeWhile (\<lambda>c. c \<noteq> CHR ''T'') (it_publishedAt item)"

fun createRelationships ::
  "env \<Rightarrow> string list \<Rightarrow> string \<Rightarrow> rel_spec list \<Rightarrow> string list \<Rightarrow> world \<Rightarrow> string list \<times> world"
where
  "createRelationships e resolved sourceId [] relationshipIds w = (relationshipIds, w)"
| "createRelationships e resolved sourceId (relSpec # rest) relationshipIds w =
     (case (arrayGet resolved (fromEntityIndex relSpec), arrayGet resolved (toEntityIndex relSpec)) of
        (Some fromEntityId, Some toEntityId) \<Rightarrow>
          if fromEntityId \<noteq> [] \<and> toEntityId \<noteq> [] then
            (case createRelationship e fromEntityId toEntityId (mapRelType (rs_type relSpec))
                    (rs_description relSpec) [sourceId] None EDITOR_USER_ID w of
               (Inl err, w1) \<Rightarrow>
                 createRelationships e resolved sourceId rest relationshipIds
                   (logMsg LWarn ''Failed to create relationship'' w1)
             | (Inr relationship, w1) \<Rightarrow>
                 createRelationships e resolved sourceId rest
                   (relationshipIds @ [rel_relationshipId relationship]) w1)
          else createRelationships e resolved sourceId rest relationshipIds w
      | _ \<Rightarrow> createRelationships e resolved sourceId rest relationshipIds w)"

fun publishRelationships :: "string list \<Rightarrow> world \<Rightarrow> world" where
  "publishRelationships [] w = w"
| "publishRelationships (relId # rest) w =
     (case publishRelationship relId EDITOR_USER_ID w of
        (Inl err, w1) \<Rightarrow> publishRelationships rest (logMsg LWarn ''Failed to publish relationship'' w1)
      | (Inr r, w1) \<Rightarrow> publishRelationships rest w1)"

definition publishRecords ::
  "env \<Rightarrow> IntakeItem \<Rightarrow> EditorResponse \<Rightarrow> string list \<Rightarrow> world \<Rightarrow>
   (Source \<times> Card \<times> string list) \<times> world" where
  \<comment> \<open>\<open>processItem\<close> from "Create source" to "Publish relationships": the source, the
      card and the identifiers of the relationships created\<close>
  "publishRecords e item er resolved w =
     (let (source, w1) =
            createSource (it_title item) (it_canonicalUrl item) ''HTML'' (it_publisher item)
              (it_summary item) w;
          w2 = (case captureHtmlSnapshot e (src_sourceId source) (it_canonicalUrl item) w1 of
                  (Inl err, w') \<Rightarrow>
                    logMsg LWarn ''Failed to capture HTML snapshot, continuing anyway'' w'
                | (Inr u, w') \<Rightarrow> w');
          (c, w3) =
            createCard
              \<lparr>card_cardId = [], card_title = it_title item, card_claim = it_title item,
               card_summary = cardSummaryOf er item,
               card_category = cardCategory e (er_category er),
               card_entityIds = resolved, card_eventDate = eventDateOf item,
               card_sourceRefs = [src_sourceId source], card_evidenceStrength = ''HIGH'',
               card_tags = (case it_suggestedTags item of None \<Rightarrow> [] | Some ts \<Rightarrow> ts),
               card_status = DRAFT\<rparr> w2;
          w4 = logMsg LInfo ''Created card from intake'' w3;
          (relationshipIds, w5) =
            createRelationships e resolved (src_sourceId source) (er_relationships er) [] w4;
          w6 = (case publishCard e (card_cardId c) w5 of
                  (Inl err, w') \<Rightarrow> logMsg LError ''Failed to publish card'' w'
                | (Inr u, w') \<Rightarrow> logMsg LInfo ''Published card'' w');
          w7 = publishRelationships relationshipIds w6
      in ((source, c, relationshipIds), w7))"

definition publishItem ::
  "env \<Rightarrow> IntakeItem \<Rightarrow> string \<Rightarrow> EditorResponse \<Rightarrow> EditorDecision \<Rightarrow> string list \<Rightarrow> world \<Rightarrow>
   (string + EditorItemResult) \<times> world" where
  \<comment> \<open>\<open>processItem\<close> from "Create source" to its last \<open>return\<close>\<close>
  "publishItem e item runId er dec resolved w =
     (let ((source, c, relationshipIds), w7) = publishRecords e item er resolved w
      in case updateIntakeEditorStatus e (it_intakeId item) APPROVED dec
                (Some (card_cardId c)) (Some (src_sourceId source)) w7 of
           (Inl err, w8) \<Rightarrow> (Inl err, w8)
         | (Inr u, w8) \<Rightarrow>
             (Inr \<lparr>res_intakeId = it_intakeId item, res_decision = Decided PUBLISH,
                   res_reason = er_reason er, res_cardId = Some (card_cardId c),
                   res_entityIds = Some resolved,
                   res_relationshipIds = Some relationshipIds\<rparr>,
              logAuditEvent
                \<lparr>au_action = ''PROMOTE_INTAKE'', au_targetType = ''intake'',
                 au_targetId = it_intakeId item, au_userId = EDITOR_USER_ID,
                 au_cardId = card_cardId c, au_sourceId = src_sourceId source,
                 au_entityIds = resolved, au_relationshipIds = relationshipIds,
                 au_confidence = er_confidence er, au_runId = runId,
                 au_automated = True\<rparr> w8))"

subsection \<open>processItem\<close>

definition skipItem ::
  "env \<Rightarrow> bool \<Rightarrow> string \<Rightarrow> EditorDecision \<Rightarrow> world \<Rightarrow> (string + EditorItemResult) \<times> world" where
  \<comment> \<open>the three exits with SKIP: the status is recorded unless the run is a dry run, and
      the result carries the reason of the recorded decision\<close>
  "skipItem e dryRun intakeId dec w =
     (case (if dryRun then (Inr (), w)
            else updateIntakeEditorStatus e intakeId SKIPPED dec None None w) of
        (Inl err, w1) \<Rightarrow> (Inl err, w1)
      | (Inr u, w1) \<Rightarrow>
          (Inr \<lparr>res_intakeId = intakeId, res_decision = Decided SKIP,
                res_reason = ed_reason dec, res_cardId = None, res_entityIds = None,
                res_relationshipIds = None\<rparr>, w1))"

definition dryRunResult :: "string \<Rightarrow> string list \<Rightarrow> EditorItemResult" where
  "dryRunResult intakeId resolved =
     \<lparr>res_intakeId = intakeId, res_decision = Decided PUBLISH,
      res_reason = ''[DRY RUN] Would publish with '' @ showNat (length resolved) @ '' entities'',
      res_cardId = None, res_entityIds = Some resolved, res_relationshipIds = None\<rparr>"

definition processResponse ::
  "config \<Rightarrow> env \<Rightarrow> IntakeItem \<Rightarrow> string \<Rightarrow> bool \<Rightarrow> matched_entity list \<Rightarrow> EditorResponse \<Rightarrow>
   world \<Rightarrow> (string + EditorItemResult) \<times> world" where
  \<comment> \<open>\<open>processItem\<close> from "Record the decision" on, for a parsed response\<close>
  "processResponse cfg e item runId dryRun matchedEntities parsed w0 =
     (let editorResponse = confidenceGate cfg e parsed;
          w = (if belowThreshold cfg parsed
               then logMsg LInfo ''Confidence below threshold, treating as SKIP'' w0 else w0);
          dec = mkDecision e runId editorResponse
      in if er_decision editorResponse = SKIP then skipItem e dryRun (it_intakeId item) dec w
         else
           (case resolveEntities e dryRun matchedEntities (er_entities editorResponse) [] w of
              (Inl err, w1) \<Rightarrow> (Inl err, w1)
            | (Inr resolved, w1) \<Rightarrow>
                if resolved = [] then
                  skipItem e dryRun (it_intakeId item)
                    (dec\<lparr>ed_decision := SKIP, ed_reason := ''No entities could be resolved''\<rparr>)
                    (logMsg LWarn ''No entities resolved, skipping item'' w1)
                else
                  (case checkForDuplicate (it_title item) resolved w1 of
                     (True, w2) \<Rightarrow>
                       skipItem e dryRun (it_intakeId item)
                         (dec\<lparr>ed_decision := SKIP, ed_reason := ''Duplicate card detected''\<rparr>) w2
                   | (False, w2) \<Rightarrow>
                       if dryRun then (Inr (dryRunResult (it_intakeId item) resolved), w2)
                       else publishItem e item runId editorResponse dec resolved w2)))"

definition parseFailureMessage :: "string \<Rightarrow> string" where
  \<comment> \<open>the warning that \<open>parseEditorResponse\<close> logs when it returns \<open>null\<close>\<close>
  "parseFailureMessage content =
     (case extractJson (stripFences (trim content)) of
        None \<Rightarrow> ''No JSON object found in editor response''
      | Some m \<Rightarrow>
          (case jsonParse m of
             JOk parsed \<Rightarrow> ''Invalid decision in editor response''
           | _ \<Rightarrow> ''Failed to parse editor response''))"

definition errorResult :: "string \<Rightarrow> string \<Rightarrow> EditorItemResult" where
  "errorResult intakeId msg =
     \<lparr>res_intakeId = intakeId, res_decision = ERROR, res_reason = msg, res_cardId = None,
      res_entityIds = None, res_relationshipIds = None\<rparr>"

definition llmReply :: "env \<Rightarrow> IntakeItem \<Rightarrow> string \<Rightarrow> world \<Rightarrow> string + string" where
  \<comment> \<open>the reply of the language model for an item: its text, or the error thrown\<close>
  "llmReply e item template w =
     invokeClaudeExtraction e
       (buildEditorPrompt template item (getMatchedEntities e (suggestionsOf item) w))"

definition intakeFound :: "world \<Rightarrow> string \<Rightarrow> bool" where
  \<comment> \<open>the scan of \<open>updateIntakeEditorStatus\<close> finds a stored item of this identifier\<close>
  "intakeFound w i \<longleftrightarrow> scanItems 100 (\<lambda>r. it_intakeId (row_item r) = i) w \<noteq> []"

definition processItemBody ::
  "config \<Rightarrow> env \<Rightarrow> IntakeItem \<Rightarrow> string \<Rightarrow> string \<Rightarrow> bool \<Rightarrow> world \<Rightarrow>
   (string + EditorItemResult) \<times> world" where
  \<comment> \<open>the \<open>try\<close> block of \<open>processItem\<close>; \<open>Inl\<close> is an exception that leaves it\<close>
  "processItemBody cfg e item template runId dryRun w =
     (let matchedEntities = getMatchedEntities e (suggestionsOf item) w;
          p = buildEditorPrompt template item matchedEntities
      in case invokeClaudeExtraction e p of
           Inl err \<Rightarrow> (Inl err, w)
         | Inr content \<Rightarrow>
             (let w1 = logMsg LDebug ''Editor Claude call completed'' w
              in case parseEditorResponse content of
                   ParseNull \<Rightarrow>
                     (Inr (errorResult (it_intakeId item) ''Failed to parse editor response''),
                      logMsg LWarn (parseFailureMessage content) w1)
                 | ParseUntyped \<Rightarrow>
                     (let (r, w2) = untypedOutcome e item content dryRun w1 in (Inr r, w2))
                 | ParseOk parsed \<Rightarrow>
                     processResponse cfg e item runId dryRun matchedEntities parsed w1))"

definition catchError ::
  "IntakeItem \<Rightarrow> (string + EditorItemResult) \<times> world \<Rightarrow> EditorItemResult \<times> world" where
  \<comment> \<open>the \<open>catch\<close> of \<open>processItem\<close>: an exception becomes the ERROR result\<close>
  "catchError item out =
     (case out of
        (Inl msg, w1) \<Rightarrow>
          (errorResult (it_intakeId item) msg, logMsg LError ''Error processing item'' w1)
      | (Inr r, w1) \<Rightarrow> (r, w1))"

definition processItem ::
  "config \<Rightarrow> env \<Rightarrow> IntakeItem \<Rightarrow> string \<Rightarrow> string \<Rightarrow> bool \<Rightarrow> world \<Rightarrow> EditorItemResult \<times> world"
where
  "processItem cfg e item template runId dryRun w =
     catchError item (processItemBody cfg e item template runId dryRun w)"

subsection \<open>Eligible items and the run\<close>

definition queryItems ::
  "string \<Rightarrow> (IntakeRow \<Rightarrow> bool) \<Rightarrow> nat \<Rightarrow> world \<Rightarrow> IntakeRow list" where
  \<comment> \<open>Modelled from the spec: \<open>queryItems\<close> of the persistence layer, one page of a
      query on the status index. The table is kept in the order of the index, most
      recent first; at most \<open>Limit\<close> items of the partition are read and the filter
      expression is applied to them afterwards.\<close>
  "queryItems pk flt limit w = filter flt (take limit (filter (\<lambda>r. row_GSI1PK r = pk) (w_intake w)))"

definition eligible :: "IntakeItem \<Rightarrow> bool" where
  \<comment> \<open>the filter that \<open>getEligibleItems\<close> applies to the rows of the query\<close>
  "eligible item \<longleftrightarrow>
     (truthy (it_extractedSummary item) \<or> truthy (it_summary item))
     \<and> (\<exists>s \<in> set (suggestionsOf item). se_confidence s \<ge> 1 / 2)"

definition getEligibleItems :: "nat \<Rightarrow> world \<Rightarrow> IntakeItem list" where
  "getEligibleItems limit w =
     map row_item
       (take limit
          (filter (\<lambda>r. eligible (row_item r))
             (queryItems ''STATUS#NEW''
                (\<lambda>r. it_extractionStatus (row_item r) = Some ExCOMPLETED
                      \<and> it_editorStatus (row_item r) = None)
                (limit * 2) w)))"

definition loadEditorPrompt :: "config \<Rightarrow> env \<Rightarrow> world \<Rightarrow> (string + string) \<times> world" where
  "loadEditorPrompt cfg e w =
     (if truthy (w_cachedEditorPrompt w) then (Inr (the (w_cachedEditorPrompt w)), w)
      else if cfg_promptTemplateBucket cfg = []
      then (Inl ''EXTRACTION_PROMPT_BUCKET environment variable is not set'', w)
      else
        (let w1 = logMsg LInfo ''Loading editor prompt template from S3'' w
         in case s3GetObject e (cfg_promptTemplateBucket cfg) (cfg_promptTemplateKey cfg) of
              Inl err \<Rightarrow> (Inl err, w1)
            | Inr body \<Rightarrow>
                if truthy body
                then (Inr (the body),
                      logMsg LInfo ''Successfully loaded editor prompt template from S3''
                        (w1\<lparr>w_cachedEditorPrompt := body\<rparr>))
                else (Inl (''Failed to load editor prompt from s3://''
                           @ cfg_promptTemplateBucket cfg @ ''/'' @ cfg_promptTemplateKey cfg),
                      w1)))"

record counters =
  cnt_results :: "EditorItemResult list"
  cnt_published :: nat
  cnt_skipped :: nat
  cnt_errors :: nat

definition count :: "EditorItemResult \<Rightarrow> counters \<Rightarrow> counters" where
  \<comment> \<open>\<open>results.push(result)\<close> and the \<open>switch\<close> on its decision\<close>
  "count r c =
     (let c1 = c\<lparr>cnt_results := cnt_results c @ [r]\<rparr>
      in case res_decision r of
           Decided PUBLISH \<Rightarrow> c1\<lparr>cnt_published := cnt_published c1 + 1\<rparr>
         | Decided SKIP \<Rightarrow> c1\<lparr>cnt_skipped := cnt_skipped c1 + 1\<rparr>
         | ERROR \<Rightarrow> c1\<lparr>cnt_errors := cnt_errors c1 + 1\<rparr>)"

fun runLoop ::
  "config \<Rightarrow> env \<Rightarrow> string \<Rightarrow> string \<Rightarrow> bool \<Rightarrow> IntakeItem list \<Rightarrow> counters \<Rightarrow> world \<Rightarrow>
   counters \<times> world"
where
  "runLoop cfg e template runId dryRun [] c w = (c, w)"
| "runLoop cfg e template runId dryRun (item # rest) c w =
     (let (r, w1) = processItem cfg e item template runId dryRun w
      in runLoop cfg e template runId dryRun rest (count r c)
           (logMsg LInfo ''Processed intake item'' w1))"

definition runEditor :: "config \<Rightarrow> env \<Rightarrow> world \<Rightarrow> (string + EditorRunSummary) \<times> world" where
  "runEditor cfg e w0 =
     (let (runId, w1) = ulid w0;
          startedAt = now e;
          dryRun = cfg_dryRun cfg;
          w2 = logMsg LInfo ''Starting editor run'' w1
      in if \<not> cfg_enabled cfg then
           (Inr \<lparr>sum_runId = runId, sum_startedAt = startedAt, sum_completedAt = now e,
                 sum_processed = 0, sum_published = 0, sum_skipped = 0, sum_errors = 0,
                 sum_dryRun = dryRun, sum_results = []\<rparr>,
            logMsg LInfo ''Editor is disabled, skipping run'' w2)
         else
           (case loadEditorPrompt cfg e w2 of
              (Inl err, w3) \<Rightarrow> (Inl err, w3)
            | (Inr template, w3) \<Rightarrow>
                (let items = getEligibleItems (cfg_maxItemsPerRun cfg) w3;
                     w4 = logMsg LInfo ''Found eligible items'' w3;
                     (c, w5) =
                       runLoop cfg e template runId dryRun items
                         \<lparr>cnt_results = [], cnt_published = 0, cnt_skipped = 0,
                          cnt_errors = 0\<rparr> w4
                 in (Inr \<lparr>sum_runId = runId, sum_startedAt = startedAt,
                          sum_completedAt = now e, sum_processed = length items,
                          sum_published = cnt_published c, sum_skipped = cnt_skipped c,
                          sum_errors = cnt_errors c, sum_dryRun = dryRun,
                          sum_results = cnt_results c\<rparr>,
                     logMsg LInfo ''Completed editor run'' w5))))"

subsection \<open>The scheduled handler\<close>

definition allFailed :: "EditorRunSummary \<Rightarrow> bool" where
  \<comment> \<open>\<open>summary.errors > 0 && summary.errors === summary.processed\<close>\<close>
  "allFailed summary \<longleftrightarrow> sum_errors summary > 0 \<and> sum_errors summary = sum_processed summary"

definition handler :: "config \<Rightarrow> env \<Rightarrow> world \<Rightarrow> (string + unit) \<times> world" where
  \<comment> \<open>\<open>Inl\<close>: the handler throws, and the invocation is marked as failed\<close>
  "handler cfg e w =
     (case runEditor cfg e (logMsg LInfo ''Starting intake editor run'' w) of
        (Inl err, w1) \<Rightarrow> (Inl err, logMsg LError ''Editor run failed'' w1)
      | (Inr summary, w1) \<Rightarrow>
          (let w2 = logMsg LInfo ''Completed intake editor run'' w1;
               w3 = foldl (\<lambda>v r. logMsg LDebug ''Item result'' v) w2 (sum_results summary)
           in if allFailed summary
              then (Inl (''All '' @ showNat (sum_errors summary) @ '' items failed processing''),
                    logMsg LError ''Editor run failed'' w3)
              else (Inr (), w3)))"

section \<open>Notions used in the statements\<close>

definition skipResult :: "string \<Rightarrow> string \<Rightarrow> EditorItemResult" where
  \<comment> \<open>the result \<open>{ intakeId, decision: 'SKIP', reason }\<close>\<close>
  "skipResult i r =
     \<lparr>res_intakeId = i, res_decision = Decided SKIP, res_reason = r, res_cardId = None,
      res_entityIds = None, res_relationshipIds = None\<rparr>"

definition resolution ::
  "env \<Rightarrow> bool \<Rightarrow> IntakeItem \<Rightarrow> EditorResponse \<Rightarrow> world \<Rightarrow> (string + string list) \<times> world" where
  \<comment> \<open>the entity resolution that \<open>processItem\<close> runs for a parsed response: the loop
      over its references, from the state in which the reply arrived\<close>
  "resolution e dryRun item er w =
     resolveEntities e dryRun (getMatchedEntities e (suggestionsOf item) w) (er_entities er) []
       (logMsg LDebug ''Editor Claude call completed'' w)"

definition duplicateFound :: "IntakeItem \<Rightarrow> string list \<Rightarrow> world \<Rightarrow> bool" where
  \<comment> \<open>the answer of \<open>checkForDuplicate\<close> for the item's title\<close>
  "duplicateFound item resolved w \<longleftrightarrow>
     findDuplicate (normalizeTitle (it_title item)) resolved (listCards 100 w) \<noteq> None"

definition isCreate :: "entity_ref \<Rightarrow> bool" where
  "isCreate r \<longleftrightarrow> (case r of Create n t \<Rightarrow> True | _ \<Rightarrow> False)"

definition isWriteEntity :: "store_op \<Rightarrow> bool" where
  "isWriteEntity op \<longleftrightarrow> (case op of WriteEntity i \<Rightarrow> True | _ \<Rightarrow> False)"

definition sameLedger :: "world \<Rightarrow> world \<Rightarrow> bool" where
  \<comment> \<open>no table differs: nothing was written\<close>
  "sameLedger w w' \<longleftrightarrow>
     w_entities w' = w_entities w \<and> w_sources w' = w_sources w \<and> w_cards w' = w_cards w
     \<and> w_relationships w' = w_relationships w \<and> w_intake w' = w_intake w
     \<and> w_audit w' = w_audit w"

definition noValidDecision :: "string \<Rightarrow> bool" where
  \<comment> \<open>The replies from which no valid decision can be extracted, in the words of the
      specification: no JSON object found, JSON that does not parse, no \<open>decision\<close>
      field, or a \<open>decision\<close> that is neither PUBLISH nor SKIP.\<close>
  "noValidDecision content \<longleftrightarrow>
     (case extractJson (stripFences (trim content)) of
        None \<Rightarrow> True
      | Some m \<Rightarrow>
          (case jsonParse m of
             JErr \<Rightarrow> True
           | JBeyond \<Rightarrow> False
           | JFuel \<Rightarrow> False
           | JOk parsed \<Rightarrow>
               (case parsed of
                  JObj kvs \<Rightarrow>
                    (case jsGet kvs ''decision'' of
                       None \<Rightarrow> True
                     | Some v \<Rightarrow> v \<noteq> JStr ''PUBLISH'' \<and> v \<noteq> JStr ''SKIP'')
                | _ \<Rightarrow> True)))"

definition errorCount :: "EditorItemResult list \<Rightarrow> nat" where
  "errorCount rs = length (filter (\<lambda>r. res_decision r = ERROR) rs)"

section \<open>Example data\<close>

text \<open>
  The scenario of the specification: the item "FTC Fines Acme Corp $5M", the default
  threshold 0.8, and replies of the language model as JSON text. The surroundings of the
  examples never fail, match names up to letter case and print numbers in decimal.
\<close>

definition exampleConfig :: config where
  "exampleConfig =
     \<lparr>cfg_enabled = True, cfg_dryRun = False, cfg_maxItemsPerRun = 20,
      cfg_minConfidence = 4 / 5, cfg_promptTemplateKey = ''prompts/editor-template.txt'',
      cfg_promptTemplateBucket = ''ledger-prompts''\<rparr>"

definition exampleEnv :: "string \<Rightarrow> env" where
  "exampleEnv reply =
     \<lparr>invokeClaudeExtraction = (\<lambda>p. Inr reply),
      now = ''2026-01-01T00:00:00.000Z'',
      s3GetObject = (\<lambda>b k. Inr (Some ''Review {{TITLE}}'')),
      numberToString = showDecimal,
      nameMatches = (\<lambda>n x. toLowerCase (ent_name x) = toLowerCase n),
      validCategories = [''consumer'', ''fraud'', ''labor'', ''other''],
      getEntityRejects = False,
      snapshotFails = (\<lambda>i u. False),
      publishCardFails = (\<lambda>w i. False),
      untypedOutcome = (\<lambda>item c d w. (errorResult (it_intakeId item) ''Untyped reply'', w))\<rparr>"

definition intakeItem :: "string \<Rightarrow> string \<Rightarrow> IntakeItem" where
  "intakeItem i t =
     \<lparr>it_intakeId = i, it_canonicalUrl = ''https://www.ftc.gov/news/1'', it_title = t,
      it_publishedAt = ''2026-01-01T10:00:00Z'', it_publisher = ''FTC'',
      it_summary = Some ''Press release'', it_status = NEW, it_suggestedTags = None,
      it_extractedSummary = Some ''The FTC fined Acme Corp.'',
      it_suggestedEntities =
        Some [\<lparr>se_extractedName = ''Acme Corp'', se_confidence = 9 / 10,
               se_matchedEntityId = None\<rparr>],
      it_extractionStatus = Some ExCOMPLETED, it_promotedSourceId = None,
      it_promotedCardId = None, it_editorStatus = None, it_editorDecision = None,
      it_reviewedAt = None, it_reviewedBy = None\<rparr>"

definition acmeItem :: IntakeItem where
  "acmeItem = intakeItem ''I1'' ''FTC Fines Acme Corp $5M''"

definition spacedItem :: IntakeItem where
  \<comment> \<open>the same title with two spaces after the first word\<close>
  "spacedItem = intakeItem ''I1'' ''FTC  Fines Acme Corp $5M''"

definition shoutedItem :: IntakeItem where
  \<comment> \<open>the same title in capitals, with white space around it\<close>
  "shoutedItem = intakeItem ''I1'' ''  FTC FINES ACME CORP $5M ''"

definition intakeRow :: "IntakeItem \<Rightarrow> IntakeRow" where
  "intakeRow item =
     \<lparr>row_item = item, row_GSI1PK = ''STATUS#NEW'', row_GSI1SK = ''TS#2026-01-01T10:05:00Z''\<rparr>"

definition emptyLedger :: world where
  "emptyLedger =
     \<lparr>w_entities = [], w_sources = [], w_cards = [], w_relationships = [], w_intake = [],
      w_audit = [], w_logs = [], w_oplog = [], w_nextId = 0, w_cachedEditorPrompt = None\<rparr>"

definition storedWorld :: "IntakeItem \<Rightarrow> world" where
  \<comment> \<open>the item is the only stored intake item\<close>
  "storedWorld item = emptyLedger\<lparr>w_intake := [intakeRow item]\<rparr>"

definition olderRow :: IntakeRow where
  \<comment> \<open>an intake item that was promoted earlier, outside the partition of new items\<close>
  "olderRow =
     \<lparr>row_item =
        \<lparr>it_intakeId = ''I0'', it_canonicalUrl = ''u'', it_title = ''t'', it_publishedAt = ''d'',
         it_publisher = ''p'', it_summary = None, it_status = PROMOTED, it_suggestedTags = None,
         it_extractedSummary = None, it_suggestedEntities = None,
         it_extractionStatus = Some ExCOMPLETED, it_promotedSourceId = None,
         it_promotedCardId = None, it_editorStatus = Some APPROVED, it_editorDecision = None,
         it_reviewedAt = None, it_reviewedBy = None\<rparr>,
      row_GSI1PK = ''STATUS#PROMOTED'', row_GSI1SK = ''TS#0''\<rparr>"

definition olderRows :: "IntakeRow list" where
  "olderRows = replicate 100 olderRow"

declare olderRows_def [code del]

definition crowdedWorld :: "IntakeItem \<Rightarrow> world" where
  \<comment> \<open>the item is stored behind a hundred older items\<close>
  "crowdedWorld item = emptyLedger\<lparr>w_intake := olderRows @ [intakeRow item]\<rparr>"

definition publishedCard :: Card where
  "publishedCard =
     \<lparr>card_cardId = ''C1'', card_title = ''FTC Fines Acme Corp $5M'',
      card_claim = ''FTC Fines Acme Corp $5M'', card_summary = ''The FTC fined Acme Corp.'',
      card_category = ''consumer'', card_entityIds = [''E9''], card_eventDate = ''2026-01-01'',
      card_sourceRefs = [''S1''], card_evidenceStrength = ''HIGH'', card_tags = [],
      card_status = PUBLISHED\<rparr>"

definition publishedWorld :: "IntakeItem \<Rightarrow> world" where
  \<comment> \<open>the item is stored, and a card of the title "FTC Fines Acme Corp $5M" is published\<close>
  "publishedWorld item = (storedWorld item)\<lparr>w_cards := [publishedCard]\<rparr>"

definition crowdedPublishedWorld :: "IntakeItem \<Rightarrow> world" where
  \<comment> \<open>the item is stored behind a hundred older items, and the card is published\<close>
  "crowdedPublishedWorld item = (crowdedWorld item)\<lparr>w_cards := [publishedCard]\<rparr>"

definition directoryWorld :: "IntakeItem \<Rightarrow> world" where
  \<comment> \<open>the item is stored, and the Entity Directory knows Acme Corp\<close>
  "directoryWorld item =
     (storedWorld item)\<lparr>w_entities := [\<lparr>ent_entityId = ''E1'', ent_name = ''Acme Corp'',
                                          ent_type = CORPORATION, ent_aliases = []\<rparr>]\<rparr>"

definition response :: "rat \<Rightarrow> entity_ref list \<Rightarrow> EditorResponse" where
  \<comment> \<open>what a reply with a PUBLISH decision, a confidence and entities parses to\<close>
  "response c es =
     \<lparr>er_decision = PUBLISH, er_reason = ''No reason provided'', er_confidence = c,
      er_category = None, er_entities = es, er_relationships = [], er_cardSummary = []\<rparr>"

definition createReply :: string where
  \<open>createReply =
     ''{"decision": "PUBLISH", "confidence": 0.95, "entities": [{"create": {"name": "Acme Corp", "type": "CORPORATION"}}]}''\<close>


definition edgeReply :: string where
  \<open>edgeReply = ''{"decision": "PUBLISH", "confidence": 0.8, "entities": [{"matchedIndex": 0}]}''\<close>



definition maybeReply :: string where
  \<open>maybeReply = ''{"decision": "MAYBE", "confidence": 0.9}''\<close>

definition skipObject :: string where
  \<open>skipObject = ''{"decision": "SKIP", "reason": "Routine notice"}''\<close>

definition trailingNote :: string where
  "trailingNote = '' Let me know if you need more.''"

definition schemaNote :: string where
  "schemaNote = '' I used the schema {decision, reason}.''"

definition finedReply :: string where
  \<open>finedReply =
     ''{"decision": "PUBLISH", "confidence": 0.95, "entities": [{"create": {"name": "Acme Corp", "type": "CORPORATION"}}, {"create": {"name": "FTC", "type": "AGENCY"}}], "relationships": [{"fromEntityIndex": 0, "toEntityIndex": 1, "type": "FINED_BY"}]}''\<close>

definition finedResponse :: EditorResponse where
  "finedResponse =
     (response (19 / 20) [Create ''Acme Corp'' ''CORPORATION'', Create ''FTC'' ''AGENCY''])
       \<lparr>er_relationships :=
          [\<lparr>fromEntityIndex = 0, toEntityIndex = 1, rs_type = ''FINED_BY'',
            rs_description = None\<rparr>]\<rparr>"

section \<open>Properties\<close>

subsection \<open>The budget of the JSON parser\<close>

text \<open>
  Every result of the parser leaves a shorter text, and the budget of \<open>jsonParse\<close>
  never runs out.
\<close>

lemma skipWs_Cons: "skipWs s = c # cs \<Longrightarrow> length cs < length s"
proof -
  assume a: "skipWs s = c # cs"
  have "length (skipWs s) \<le> length s" by (simp add: skipWs_def length_dropWhile_le)
  with a show ?thesis by simp
qed

lemma parseStringBody_step:
  "parseStringBody (c # cs) acc = x \<Longrightarrow>
     x = POk (rev acc) cs \<or> x = PErr \<or> x = PBeyond
     \<or> (\<exists>s' acc'. length s' \<le> length cs \<and> parseStringBody s' acc' = x)"
proof (cases "c = BACKSLASH")
  case False
  assume "parseStringBody (c # cs) acc = x"
  with False show ?thesis by (auto split: if_splits)
next
  case True
  assume p: "parseStringBody (c # cs) acc = x"
  show ?thesis
  proof (cases cs)
    case Nil
    with True p show ?thesis by (auto simp: BACKSLASH_def DQUOTE_def)
  next
    case (Cons e r)
    show ?thesis
    proof (cases "e = CHR ''u''")
      case False
      with True p Cons show ?thesis
        by (simp add: BACKSLASH_def DQUOTE_def split: if_splits) (metis le_SucI order_refl)+
    next
      case u: True
      show ?thesis
      proof (cases "\<exists>h1 h2 h3 h4 r'. r = h1 # h2 # h3 # h4 # r'")
        case False
        with True p Cons u have "x = PErr"
          by (auto simp: BACKSLASH_def DQUOTE_def split: list.splits)
        then show ?thesis by simp
      next
        case True
        then obtain h1 h2 h3 h4 r' where r: "r = h1 # h2 # h3 # h4 # r'" by blast
        have len: "length r' \<le> length cs" using Cons r by simp
        from \<open>c = BACKSLASH\<close> p Cons u r
        have "x = PErr \<or> x = PBeyond \<or> (\<exists>n :: nat. parseStringBody r' (char_of n # acc) = x)"
          by (auto simp: BACKSLASH_def DQUOTE_def split: option.splits if_splits)
        with len show ?thesis by blast
      qed
    qed
  qed
qed

lemma parseStringBody_shorter: "parseStringBody s acc = POk str r \<Longrightarrow> length r < length s"
proof (induction "length s" arbitrary: s acc rule: less_induct)
  case less
  show ?case
  proof (cases s)
    case Nil
    with less.prems show ?thesis by simp
  next
    case (Cons c cs)
    from parseStringBody_step [of c cs acc "POk str r"] less.prems Cons
    consider "r = cs"
      | s' acc' where "length s' \<le> length cs" "parseStringBody s' acc' = POk str r"
      by auto
    then show ?thesis
    proof cases
      case 1
      with Cons show ?thesis by simp
    next
      case 2
      with less.hyps [of s' acc'] Cons show ?thesis by simp
    qed
  qed
qed

lemma parseStringBody_budget: "parseStringBody s acc \<noteq> PFuel"
proof (induction "length s" arbitrary: s acc rule: less_induct)
  case less
  show ?case
  proof (cases s)
    case Nil
    then show ?thesis by simp
  next
    case (Cons c cs)
    show ?thesis
    proof
      assume f: "parseStringBody s acc = PFuel"
      with parseStringBody_step [of c cs acc PFuel] Cons
      obtain s' acc' where "length s' \<le> length cs" "parseStringBody s' acc' = PFuel"
        by auto
      with less.hyps [of s' acc'] Cons show False by simp
    qed
  qed
qed

lemma parseLiteral_shorter:
  "lit \<noteq> [] \<Longrightarrow> parseLiteral lit v s = POk x r \<Longrightarrow> length r < length s"
proof -
  assume ne: "lit \<noteq> []" and p: "parseLiteral lit v s = POk x r"
  then have t: "take (length lit) s = lit" and r: "r = drop (length lit) s"
    by (auto simp: parseLiteral_def split: if_splits)
  from arg_cong [OF t, of length] have "length lit \<le> length s" by simp
  with ne r show ?thesis by (cases lit) auto
qed

lemma parseLiteral_budget: "parseLiteral lit v s \<noteq> PFuel"
  by (simp add: parseLiteral_def)

lemma parseNumber_budget: "parseNumber s \<noteq> PFuel"
  by (simp add: parseNumber_def Let_def split: prod.splits option.splits)

lemma parseIntPart_shorter: "parseIntPart s = Some (i, r) \<Longrightarrow> length r < length s"
  by (cases s) (auto simp: parseIntPart_def length_dropWhile_le less_Suc_eq_le split: if_splits)

lemma parseFraction_shorter: "parseFraction s = Some (f, r) \<Longrightarrow> length r \<le> length s"
  by (cases s)
     (auto simp: parseFraction_def Let_def length_dropWhile_le le_SucI split: if_splits)

lemma parseExponent_shorter: "parseExponent s = Some (f, r) \<Longrightarrow> length r \<le> length s"
proof (cases s)
  case Nil
  assume "parseExponent s = Some (f, r)"
  with Nil show ?thesis by (simp add: parseExponent_def)
next
  case (Cons c cs)
  assume p: "parseExponent s = Some (f, r)"
  have d: "length (dropWhile isDigit t) \<le> length t" for t :: string
    by (rule length_dropWhile_le)
  show ?thesis
  proof (cases "c = CHR ''e'' \<or> c = CHR ''E''")
    case False
    with p Cons show ?thesis by (auto simp: parseExponent_def)
  next
    case True
    with p Cons obtain t where "r = dropWhile isDigit t" "length t \<le> length cs"
      by (auto simp: parseExponent_def Let_def split: prod.splits list.splits if_splits)
    with d [of t] Cons show ?thesis by simp
  qed
qed

lemma parseNumber_shorter: "parseNumber s = POk x r \<Longrightarrow> length r < length s"
proof -
  assume p: "parseNumber s = POk x r"
  obtain neg s1 where n: "(case s of c # cs \<Rightarrow> if c = CHR ''-'' then (True, cs) else (False, s)
                              | [] \<Rightarrow> (False, s)) = (neg, s1)"
    by (cases "(case s of c # cs \<Rightarrow> if c = CHR ''-'' then (True, cs) else (False, s)
                              | [] \<Rightarrow> (False, s))")
  then have l1: "length s1 \<le> length s" by (auto split: list.splits if_splits)
  from p n obtain i s2 f s3 e where
    "parseIntPart s1 = Some (i, s2)" "parseFraction s2 = Some (f, s3)"
    "parseExponent s3 = Some (e, r)"
    by (auto simp: parseNumber_def Let_def split: option.splits prod.splits)
  with parseIntPart_shorter [of s1 i s2] parseFraction_shorter [of s2 f s3]
    parseExponent_shorter [of s3 e r] l1
  show ?thesis by simp
qed

lemma parse_shorter:
  "parseValue n s = POk v r \<Longrightarrow> length r < length s"
  "parseElements n s ea = POk v r \<Longrightarrow> length r < length s"
  "parseMembers n s ma = POk v r \<Longrightarrow> length r < length s"
proof (induction n s and n s ea and n s ma arbitrary: v r and v r and v r
    rule: parseValue_parseElements_parseMembers.induct)
  case (1 s)
  then show ?case by simp
next
  case (2 n s)
  from "2.prems" obtain c cs where w: "skipWs s = c # cs"
    by (cases "skipWs s") auto
  note l = skipWs_Cons [OF w]
  consider (obj) "c = CHR ''{''" | (arr) "c \<noteq> CHR ''{''" "c = CHR ''[''"
    | (str) "c \<noteq> CHR ''{''" "c \<noteq> CHR ''[''" "c = DQUOTE"
    | (other) "c \<noteq> CHR ''{''" "c \<noteq> CHR ''[''" "c \<noteq> DQUOTE"
    by blast
  then show ?case
  proof cases
    case obj
    from "2.prems" w obj obtain d r0 where w2: "skipWs cs = d # r0"
      by (cases "skipWs cs") auto
    show ?thesis
    proof (cases "d = CHR ''}''")
      case True
      with "2.prems" w obj w2 have "r = r0" by simp
      with skipWs_Cons [OF w2] l show ?thesis by simp
    next
      case False
      with "2.prems" w obj w2 have "parseMembers n cs [] = POk v r" by simp
      from "2.IH"(1) [OF w obj w2 False this] l show ?thesis by simp
    qed
  next
    case arr
    from "2.prems" w arr obtain d r0 where w2: "skipWs cs = d # r0"
      by (cases "skipWs cs") auto
    show ?thesis
    proof (cases "d = CHR '']''")
      case True
      with "2.prems" w arr w2 have "r = r0" by simp
      with skipWs_Cons [OF w2] l show ?thesis by simp
    next
      case False
      with "2.prems" w arr w2 have "parseElements n cs [] = POk v r" by simp
      from "2.IH"(2) [OF w arr w2 False this] l show ?thesis by simp
    qed
  next
    case str
    with "2.prems" w obtain x where "parseStringBody cs [] = POk x r"
      by (auto split: pres.splits)
    from parseStringBody_shorter [OF this] l show ?thesis by simp
  next
    case other
    with "2.prems" w
    have "(\<exists>lit x. lit \<noteq> [] \<and> parseLiteral lit x (c # cs) = POk v r)
          \<or> (\<exists>x. parseNumber (c # cs) = POk x r)"
      by (auto split: if_splits pres.splits)
    then have "length r < length (c # cs)"
      using parseLiteral_shorter parseNumber_shorter by blast
    with l show ?thesis by simp
  qed
next
  case (3 s acc)
  then show ?case by simp
next
  case (4 n s acc)
  from "4.prems" obtain x r0 where p: "parseValue n s = POk x r0"
    by (auto split: pres.splits)
  note l = "4.IH"(1) [OF p]
  from "4.prems" p obtain d r1 where w: "skipWs r0 = d # r1"
    by (cases "skipWs r0") auto
  note l1 = skipWs_Cons [OF w]
  show ?case
  proof (cases "d = CHR '',''")
    case True
    with "4.prems" p w have "parseElements n r1 (x # acc) = POk v r" by simp
    from "4.IH"(2) [OF p w True this] l l1 show ?thesis by simp
  next
    case False
    with "4.prems" p w have "r = r1" by (simp split: if_splits)
    with l l1 show ?thesis by simp
  qed
next
  case (5 s acc)
  then show ?case by simp
next
  case (6 n s acc)
  from "6.prems" obtain q cs where w: "skipWs s = q # cs"
    by (cases "skipWs s") auto
  from "6.prems" w have q: "q = DQUOTE" by (auto split: if_splits)
  from "6.prems" w q obtain k r0 where k: "parseStringBody cs [] = POk k r0"
    by (auto split: pres.splits)
  from "6.prems" w q k obtain col r1 where w1: "skipWs r0 = col # r1"
    by (cases "skipWs r0") auto
  from "6.prems" w q k w1 have col: "col = CHR '':''" by (auto split: if_splits)
  from "6.prems" w q k w1 col obtain x r2 where p: "parseValue n r1 = POk x r2"
    by (auto split: pres.splits)
  from "6.prems" w q k w1 col p obtain d r3 where w3: "skipWs r2 = d # r3"
    by (cases "skipWs r2") auto
  note l = skipWs_Cons [OF w] parseStringBody_shorter [OF k] skipWs_Cons [OF w1]
    "6.IH"(1) [OF w q k w1 col p] skipWs_Cons [OF w3]
  show ?case
  proof (cases "d = CHR '',''")
    case True
    with "6.prems" w q k w1 col p w3 have "parseMembers n r3 ((k, x) # acc) = POk v r" by simp
    from "6.IH"(2) [OF w q k w1 col p w3 True this] l show ?thesis by simp
  next
    case False
    with "6.prems" w q k w1 col p w3 have "r = r3" by (simp split: if_splits)
    with l show ?thesis by simp
  qed
qed

lemma parse_budget:
  "2 * length s + 1 \<le> n \<Longrightarrow> parseValue n s \<noteq> PFuel"
  "2 * length s + 2 \<le> n \<Longrightarrow> parseElements n s ea \<noteq> PFuel"
  "2 * length s + 1 \<le> n \<Longrightarrow> parseMembers n s ma \<noteq> PFuel"
proof (induction n s and n s ea and n s ma
    rule: parseValue_parseElements_parseMembers.induct)
  case (1 s)
  then show ?case by simp
next
  case (2 n s)
  show ?case
  proof
    assume f: "parseValue (Suc n) s = PFuel"
    then obtain c cs where w: "skipWs s = c # cs"
      by (cases "skipWs s") auto
    note l = skipWs_Cons [OF w]
    consider (obj) "c = CHR ''{''" | (arr) "c \<noteq> CHR ''{''" "c = CHR ''[''"
      | (other) "c \<noteq> CHR ''{''" "c \<noteq> CHR ''[''"
      by blast
    then show False
    proof cases
      case obj
      from f w obj obtain d r0 where w2: "skipWs cs = d # r0"
        by (cases "skipWs cs") auto
      from f w obj w2 have d: "d \<noteq> CHR ''}''" by auto
      with f w obj w2 have "parseMembers n cs [] = PFuel" by simp
      moreover from l "2.prems" have "2 * length cs + 1 \<le> n" by simp
      ultimately show False using "2.IH"(1) [OF w obj w2 d] by simp
    next
      case arr
      from f w arr obtain d r0 where w2: "skipWs cs = d # r0"
        by (cases "skipWs cs") auto
      from f w arr w2 have d: "d \<noteq> CHR '']''" by auto
      with f w arr w2 have "parseElements n cs [] = PFuel" by simp
      moreover from l "2.prems" have "2 * length cs + 2 \<le> n" by simp
      ultimately show False using "2.IH"(2) [OF w arr w2 d] by simp
    next
      case other
      with f w show False
        using parseStringBody_budget [of cs "[]"] parseNumber_budget [of "c # cs"]
        by (auto simp: parseLiteral_def split: if_splits pres.splits)
    qed
  qed
next
  case (3 s acc)
  then show ?case by simp
next
  case (4 n s acc)
  from "4.prems" have b: "2 * length s + 1 \<le> n" by simp
  note v = "4.IH"(1) [OF b]
  show ?case
  proof
    assume f: "parseElements (Suc n) s acc = PFuel"
    with v obtain x r0 where p: "parseValue n s = POk x r0"
      by (auto split: pres.splits)
    from f p obtain d r1 where w: "skipWs r0 = d # r1"
      by (cases "skipWs r0") auto
    from f p w have d: "d = CHR '',''" by (auto split: if_splits)
    with f p w have "parseElements n r1 (x # acc) = PFuel" by simp
    moreover from parse_shorter(1) [OF p] skipWs_Cons [OF w] b
    have "2 * length r1 + 2 \<le> n" by simp
    ultimately show False using "4.IH"(2) [OF p w d] by simp
  qed
next
  case (5 s acc)
  then show ?case by simp
next
  case (6 n s acc)
  from "6.prems" have b: "2 * length s \<le> n" by simp
  show ?case
  proof
    assume f: "parseMembers (Suc n) s acc = PFuel"
    then obtain q cs where w: "skipWs s = q # cs"
      by (cases "skipWs s") auto
    from f w have q: "q = DQUOTE" by (auto split: if_splits)
    from f w q obtain k r0 where k: "parseStringBody cs [] = POk k r0"
      using parseStringBody_budget [of cs "[]"] by (auto split: pres.splits)
    from f w q k obtain col r1 where w1: "skipWs r0 = col # r1"
      by (cases "skipWs r0") auto
    from f w q k w1 have col: "col = CHR '':''" by (auto split: if_splits)
    note l = skipWs_Cons [OF w] parseStringBody_shorter [OF k] skipWs_Cons [OF w1]
    from l b have b1: "2 * length r1 + 1 \<le> n" by simp
    note v = "6.IH"(1) [OF w q k w1 col b1]
    with f w q k w1 col obtain x r2 where p: "parseValue n r1 = POk x r2"
      by (auto split: pres.splits)
    from f w q k w1 col p obtain d r3 where w3: "skipWs r2 = d # r3"
      by (cases "skipWs r2") auto
    from f w q k w1 col p w3 have d: "d = CHR '',''" by (auto split: if_splits)
    with f w q k w1 col p w3 have "parseMembers n r3 ((k, x) # acc) = PFuel" by simp
    moreover from l parse_shorter(1) [OF p] skipWs_Cons [OF w3] b
    have "2 * length r3 + 1 \<le> n" by simp
    ultimately show False using "6.IH"(2) [OF w q k w1 col p w3 d] by simp
  qed
qed

lemma jsonParse_budget: "jsonParse s \<noteq> JFuel"
  using parse_budget(1) [of s "2 * length s + 2"]
  by (simp add: jsonParse_def split: pres.splits)

subsection \<open>The log and the operation log\<close>

lemma logMsg_fields [simp]:
  "w_entities (logMsg l m w) = w_entities w"
  "w_sources (logMsg l m w) = w_sources w"
  "w_cards (logMsg l m w) = w_cards w"
  "w_relationships (logMsg l m w) = w_relationships w"
  "w_intake (logMsg l m w) = w_intake w"
  "w_audit (logMsg l m w) = w_audit w"
  "w_oplog (logMsg l m w) = w_oplog w"
  "w_nextId (logMsg l m w) = w_nextId w"
  "w_cachedEditorPrompt (logMsg l m w) = w_cachedEditorPrompt w"
  "w_logs (logMsg l m w) = w_logs w @ [(l, m)]"
  by (simp_all add: logMsg_def)

lemma recordOp_fields [simp]:
  "w_entities (recordOp op w) = w_entities w"
  "w_sources (recordOp op w) = w_sources w"
  "w_cards (recordOp op w) = w_cards w"
  "w_relationships (recordOp op w) = w_relationships w"
  "w_intake (recordOp op w) = w_intake w"
  "w_audit (recordOp op w) = w_audit w"
  "w_logs (recordOp op w) = w_logs w"
  "w_nextId (recordOp op w) = w_nextId w"
  "w_cachedEditorPrompt (recordOp op w) = w_cachedEditorPrompt w"
  "w_oplog (recordOp op w) = w_oplog w @ [op]"
  by (simp_all add: recordOp_def)

lemma getEntity_cong: "w_entities w' = w_entities w \<Longrightarrow> getEntity e i w' = getEntity e i w"
  by (simp add: getEntity_def)

lemma findEntityByName_cong:
  "w_entities w' = w_entities w \<Longrightarrow> findEntityByName e n w' = findEntityByName e n w"
  by (simp add: findEntityByName_def)

lemma scanItems_cong: "w_intake w' = w_intake w \<Longrightarrow> scanItems n p w' = scanItems n p w"
  by (simp add: scanItems_def)

lemma intakeFound_cong: "w_intake w' = w_intake w \<Longrightarrow> intakeFound w' i = intakeFound w i"
  by (simp add: intakeFound_def scanItems_def)

lemma listCards_cong: "w_cards w' = w_cards w \<Longrightarrow> listCards n w' = listCards n w"
  by (simp add: listCards_def)

subsection \<open>Recording a SKIP\<close>

lemma updateIntakeEditorStatus_found:
  "intakeFound w i \<Longrightarrow> fst (updateIntakeEditorStatus e i st d c s w) = Inr ()"
  by (auto simp: intakeFound_def updateIntakeEditorStatus_def Let_def split: list.splits)

lemma updateIntakeEditorStatus_not_found:
  "\<not> intakeFound w i \<Longrightarrow>
     updateIntakeEditorStatus e i st d c s w = (Inl (''Intake item '' @ i @ '' not found''), w)"
  by (auto simp: intakeFound_def updateIntakeEditorStatus_def Let_def split: list.splits)

lemma updateIntakeEditorStatus_frame:
  "updateIntakeEditorStatus e i st d c s w = (r, w') \<Longrightarrow>
     w_entities w' = w_entities w \<and> w_sources w' = w_sources w \<and> w_cards w' = w_cards w
     \<and> w_relationships w' = w_relationships w \<and> w_audit w' = w_audit w"
  by (auto simp: updateIntakeEditorStatus_def putItem_def Let_def split: list.splits)

lemma skipItem_recorded:
  "dryRun \<or> intakeFound w i \<Longrightarrow> fst (skipItem e dryRun i d w) = Inr (skipResult i (ed_reason d))"
  using updateIntakeEditorStatus_found [of w i e SKIPPED d None None]
  by (auto simp: skipItem_def skipResult_def split: prod.splits sum.splits)

lemma skipItem_not_recorded:
  "\<not> dryRun \<Longrightarrow> \<not> intakeFound w i \<Longrightarrow>
     skipItem e dryRun i d w = (Inl (''Intake item '' @ i @ '' not found''), w)"
  by (simp add: skipItem_def updateIntakeEditorStatus_not_found)


lemma skipItem_frame:
  "skipItem e dryRun i d w = (r, w') \<Longrightarrow>
     w_entities w' = w_entities w \<and> w_sources w' = w_sources w \<and> w_cards w' = w_cards w
     \<and> w_relationships w' = w_relationships w \<and> w_audit w' = w_audit w"
  using updateIntakeEditorStatus_frame [of e i SKIPPED d None None w]
  by (auto simp: skipItem_def split: prod.splits sum.splits if_splits)

lemma skipItem_dry: "skipItem e True i d w = (Inr (skipResult i (ed_reason d)), w)"
  by (simp add: skipItem_def skipResult_def)

subsection \<open>From processItem to the parsed response\<close>

lemma processItemBody_parsed:
  "llmReply e item template w = Inr content \<Longrightarrow> parseEditorResponse content = ParseOk er \<Longrightarrow>
     processItemBody cfg e item template runId dryRun w =
       processResponse cfg e item runId dryRun (getMatchedEntities e (suggestionsOf item) w) er
         (logMsg LDebug ''Editor Claude call completed'' w)"
  by (simp add: processItemBody_def llmReply_def Let_def)

lemma processItem_ok:
  "processItemBody cfg e item template runId dryRun w = (Inr r, w') \<Longrightarrow>
     processItem cfg e item template runId dryRun w = (r, w')"
  by (simp add: processItem_def catchError_def)

lemma processItem_thrown:
  "processItemBody cfg e item template runId dryRun w = (Inl msg, w') \<Longrightarrow>
     processItem cfg e item template runId dryRun w =
       (errorResult (it_intakeId item) msg, logMsg LError ''Error processing item'' w')"
  by (simp add: processItem_def catchError_def)

subsection \<open>The confidence gate\<close>


lemma confidenceGate_passes:
  "\<not> belowThreshold cfg er \<Longrightarrow> confidenceGate cfg e er = er"
  by (simp add: confidenceGate_def)

subsection \<open>Entity resolution\<close>

lemma resolveEntityRef_frame:
  "resolveEntityRef e dryRun m r acc w = (res, w') \<Longrightarrow>
     w_sources w' = w_sources w \<and> w_cards w' = w_cards w
     \<and> w_relationships w' = w_relationships w \<and> w_intake w' = w_intake w
     \<and> w_audit w' = w_audit w \<and> w_cachedEditorPrompt w' = w_cachedEditorPrompt w"
  by (cases r)
     (auto simp: resolveEntityRef_def createEntity_def ulid_def Let_def
           split: if_splits option.splits sum.splits prod.splits)

lemma resolveEntities_frame:
  "resolveEntities e dryRun m rs acc w = (res, w') \<Longrightarrow>
     w_sources w' = w_sources w \<and> w_cards w' = w_cards w
     \<and> w_relationships w' = w_relationships w \<and> w_intake w' = w_intake w
     \<and> w_audit w' = w_audit w \<and> w_cachedEditorPrompt w' = w_cachedEditorPrompt w"
proof (induction rs arbitrary: acc w)
  case Nil
  then show ?case by simp
next
  case (Cons r rs)
  obtain x w1 where s: "resolveEntityRef e dryRun m r acc w = (x, w1)"
    by (cases "resolveEntityRef e dryRun m r acc w")
  note f = resolveEntityRef_frame [OF s]
  show ?case
  proof (cases x)
    case (Inl err)
    with Cons.prems s f show ?thesis by simp
  next
    case (Inr acc1)
    with Cons.prems s have "resolveEntities e dryRun m rs acc1 w1 = (res, w')" by simp
    from Cons.IH [OF this] f show ?thesis by simp
  qed
qed

lemma resolveEntityRef_dry:
  "resolveEntityRef e True m r acc w = (res, w') \<Longrightarrow>
     w_entities w' = w_entities w \<and> w_oplog w' = w_oplog w \<and> w_nextId w' = w_nextId w"
  by (cases r)
     (auto simp: resolveEntityRef_def split: if_splits option.splits sum.splits)

lemma resolveEntities_dry:
  "resolveEntities e True m rs acc w = (res, w') \<Longrightarrow>
     w_entities w' = w_entities w \<and> w_oplog w' = w_oplog w \<and> w_nextId w' = w_nextId w"
proof (induction rs arbitrary: acc w)
  case Nil
  then show ?case by simp
next
  case (Cons r rs)
  obtain x w1 where s: "resolveEntityRef e True m r acc w = (x, w1)"
    by (cases "resolveEntityRef e True m r acc w")
  note f = resolveEntityRef_dry [OF s]
  show ?case
  proof (cases x)
    case (Inl err)
    with Cons.prems s f show ?thesis by simp
  next
    case (Inr acc1)
    with Cons.prems s have "resolveEntities e True m rs acc1 w1 = (res, w')" by simp
    from Cons.IH [OF this] f show ?thesis by simp
  qed
qed

lemma resolveEntityRef_oplog:
  "resolveEntityRef e dryRun m r acc w = (res, w') \<Longrightarrow>
     \<exists>ops. w_oplog w' = w_oplog w @ ops \<and> list_all isWriteEntity ops"
  by (cases r)
     (auto simp: resolveEntityRef_def createEntity_def ulid_def Let_def isWriteEntity_def
           split: if_splits option.splits sum.splits prod.splits)

lemma resolveEntities_oplog:
  "resolveEntities e dryRun m rs acc w = (res, w') \<Longrightarrow>
     \<exists>ops. w_oplog w' = w_oplog w @ ops \<and> list_all isWriteEntity ops"
proof (induction rs arbitrary: acc w)
  case Nil
  then show ?case by simp
next
  case (Cons r rs)
  obtain x w1 where s: "resolveEntityRef e dryRun m r acc w = (x, w1)"
    by (cases "resolveEntityRef e dryRun m r acc w")
  from resolveEntityRef_oplog [OF s] obtain ops1
    where o1: "w_oplog w1 = w_oplog w @ ops1" "list_all isWriteEntity ops1" by blast
  show ?case
  proof (cases x)
    case (Inl err)
    with Cons.prems s o1 show ?thesis by auto
  next
    case (Inr acc1)
    with Cons.prems s have "resolveEntities e dryRun m rs acc1 w1 = (res, w')" by simp
    from Cons.IH [OF this] obtain ops2
      where "w_oplog w' = w_oplog w1 @ ops2" "list_all isWriteEntity ops2" by blast
    with o1 have "w_oplog w' = w_oplog w @ (ops1 @ ops2) \<and> list_all isWriteEntity (ops1 @ ops2)"
      by simp
    then show ?thesis by blast
  qed
qed


subsection \<open>No entity resolved\<close>

lemma resolveEntityRef_grows:
  "resolveEntityRef e dryRun m r acc w = (Inr acc1, w1) \<Longrightarrow>
     (acc1 = acc \<and> w_entities w1 = w_entities w \<and> w_oplog w1 = w_oplog w)
     \<or> (\<exists>x. acc1 = acc @ [x])"
  by (cases r)
     (auto simp: resolveEntityRef_def createEntity_def ulid_def Let_def
           split: if_splits option.splits sum.splits prod.splits)

lemma resolveEntities_prefix:
  "resolveEntities e dryRun m rs acc w = (Inr acc', w') \<Longrightarrow> \<exists>ys. acc' = acc @ ys"
proof (induction rs arbitrary: acc w)
  case Nil
  then show ?case by simp
next
  case (Cons r rs)
  obtain x w1 where s: "resolveEntityRef e dryRun m r acc w = (x, w1)"
    by (cases "resolveEntityRef e dryRun m r acc w")
  show ?case
  proof (cases x)
    case (Inl err)
    with Cons.prems s show ?thesis by simp
  next
    case (Inr acc1)
    with Cons.prems s have t: "resolveEntities e dryRun m rs acc1 w1 = (Inr acc', w')" by simp
    from Cons.IH [OF t] obtain ys where "acc' = acc1 @ ys" by blast
    moreover from resolveEntityRef_grows s Inr have "\<exists>zs. acc1 = acc @ zs" by fastforce
    ultimately show ?thesis by auto
  qed
qed

lemma resolveEntities_none:
  "resolveEntities e dryRun m rs acc w = (Inr [], w') \<Longrightarrow>
     w_entities w' = w_entities w \<and> w_oplog w' = w_oplog w"
proof (induction rs arbitrary: acc w)
  case Nil
  then show ?case by simp
next
  case (Cons r rs)
  obtain x w1 where s: "resolveEntityRef e dryRun m r acc w = (x, w1)"
    by (cases "resolveEntityRef e dryRun m r acc w")
  show ?case
  proof (cases x)
    case (Inl err)
    with Cons.prems s show ?thesis by simp
  next
    case (Inr acc1)
    with Cons.prems s have t: "resolveEntities e dryRun m rs acc1 w1 = (Inr [], w')" by simp
    from resolveEntities_prefix [OF t] have "acc1 = []" by simp
    with resolveEntityRef_grows s Inr
    have "w_entities w1 = w_entities w \<and> w_oplog w1 = w_oplog w" by fastforce
    with Cons.IH [OF t] show ?thesis by simp
  qed
qed

lemma processResponse_passes:
  assumes "er_decision er = PUBLISH" and "cfg_minConfidence cfg \<le> er_confidence er"
  shows "processResponse cfg e item runId dryRun m er w =
     (case resolveEntities e dryRun m (er_entities er) [] w of
        (Inl err, w1) \<Rightarrow> (Inl err, w1)
      | (Inr resolved, w1) \<Rightarrow>
          if resolved = [] then
            skipItem e dryRun (it_intakeId item)
              ((mkDecision e runId er)
                 \<lparr>ed_decision := SKIP, ed_reason := ''No entities could be resolved''\<rparr>)
              (logMsg LWarn ''No entities resolved, skipping item'' w1)
          else
            (case checkForDuplicate (it_title item) resolved w1 of
               (True, w2) \<Rightarrow>
                 skipItem e dryRun (it_intakeId item)
                   ((mkDecision e runId er)
                      \<lparr>ed_decision := SKIP, ed_reason := ''Duplicate card detected''\<rparr>) w2
             | (False, w2) \<Rightarrow>
                 if dryRun then (Inr (dryRunResult (it_intakeId item) resolved), w2)
                 else publishItem e item runId er (mkDecision e runId er) resolved w2))"
proof -
  have "\<not> belowThreshold cfg er" using assms by (simp add: belowThreshold_def)
  then show ?thesis
    using assms by (simp add: processResponse_def confidenceGate_def Let_def)
qed

lemma processItem_zero_entities:
  assumes reply: "llmReply e item template w = Inr content"
    and parsed: "parseEditorResponse content = ParseOk er"
    and pub: "er_decision er = PUBLISH"
    and conf: "cfg_minConfidence cfg \<le> er_confidence er"
    and zero: "fst (resolution e dryRun item er w) = Inr []"
  shows "(let (res, w') = processItem cfg e item template runId dryRun w
          in w_entities w' = w_entities w \<and> w_sources w' = w_sources w
             \<and> w_cards w' = w_cards w \<and> w_relationships w' = w_relationships w
             \<and> res = (if dryRun \<or> intakeFound w (it_intakeId item)
                      then skipResult (it_intakeId item) ''No entities could be resolved''
                      else errorResult (it_intakeId item)
                             (''Intake item '' @ it_intakeId item @ '' not found'')))"
proof -
  let ?m = "getMatchedEntities e (suggestionsOf item) w"
  let ?w0 = "logMsg LDebug ''Editor Claude call completed'' w"
  let ?d = "(mkDecision e runId er)
              \<lparr>ed_decision := SKIP, ed_reason := ''No entities could be resolved''\<rparr>"
  obtain w1 where r: "resolveEntities e dryRun ?m (er_entities er) [] ?w0 = (Inr [], w1)"
    using zero by (cases "resolveEntities e dryRun ?m (er_entities er) [] ?w0")
      (simp add: resolution_def)
  let ?w2 = "logMsg LWarn ''No entities resolved, skipping item'' w1"
  have body: "processItemBody cfg e item template runId dryRun w
                = skipItem e dryRun (it_intakeId item) ?d ?w2"
    using processItemBody_parsed [OF reply parsed] processResponse_passes [OF pub conf] r
    by simp
  have ent: "w_entities ?w2 = w_entities w" "w_oplog ?w2 = w_oplog w"
    using resolveEntities_none [OF r] by simp_all
  have fr: "w_sources ?w2 = w_sources w" "w_cards ?w2 = w_cards w"
    "w_relationships ?w2 = w_relationships w" "w_intake ?w2 = w_intake w"
    using resolveEntities_frame [OF r] by simp_all
  have found: "intakeFound ?w2 (it_intakeId item) = intakeFound w (it_intakeId item)"
    using fr by (simp add: intakeFound_def scanItems_def)
  obtain x w3 where sk: "skipItem e dryRun (it_intakeId item) ?d ?w2 = (x, w3)"
    by (cases "skipItem e dryRun (it_intakeId item) ?d ?w2")
  note sf = skipItem_frame [OF sk]
  show ?thesis
  proof (cases "dryRun \<or> intakeFound w (it_intakeId item)")
    case True
    then have "dryRun \<or> intakeFound ?w2 (it_intakeId item)" using found by simp
    from skipItem_recorded [OF this, of e ?d] sk
    have "x = Inr (skipResult (it_intakeId item) ''No entities could be resolved'')" by simp
    with body sk sf ent fr True show ?thesis
      by (simp add: processItem_def catchError_def)
  next
    case False
    then have nd: "\<not> dryRun" and nf: "\<not> intakeFound ?w2 (it_intakeId item)"
      using found by simp_all
    from skipItem_not_recorded [OF nd nf, of e ?d] sk
    have "x = Inl (''Intake item '' @ it_intakeId item @ '' not found'')" "w3 = ?w2" by simp_all
    with body sk ent fr False show ?thesis
      by (simp add: processItem_def catchError_def)
  qed
qed

subsection \<open>Replies without a valid decision\<close>

lemma buildResponse_not_null: "buildResponse d kvs \<noteq> ParseNull"
  by (simp add: buildResponse_def split: option.splits)

lemma validateParsed_null:
  "validateParsed parsed = ParseNull \<longleftrightarrow>
     (case parsed of
        JObj kvs \<Rightarrow>
          (case jsGet kvs ''decision'' of
             None \<Rightarrow> True
           | Some v \<Rightarrow> v \<noteq> JStr ''PUBLISH'' \<and> v \<noteq> JStr ''SKIP'')
      | _ \<Rightarrow> True)"
  by (auto simp: validateParsed_def buildResponse_not_null split: json.splits option.splits)

lemma validateParsed_decision:
  "validateParsed parsed = ParseOk er \<Longrightarrow>
     \<exists>kvs. parsed = JObj kvs
       \<and> jsGet kvs ''decision'' = Some (JStr (if er_decision er = PUBLISH then ''PUBLISH'' else ''SKIP''))"
  by (auto simp: validateParsed_def buildResponse_def
           split: json.splits option.splits if_splits)

subsection \<open>The text that is parsed\<close>

lemma dropWhile_no_match: "x \<notin> set xs \<Longrightarrow> dropWhile (\<lambda>c. c \<noteq> x) (xs @ x # ys) = x # ys"
  by (induction xs) auto

lemma extractJson_first_to_last:
  assumes "CHR ''{'' \<notin> set pre" and "CHR ''}'' \<notin> set post"
    and "2 \<le> length m" and "hd m = CHR ''{''" and "last m = CHR ''}''"
  shows "extractJson (pre @ m @ post) = Some m"
proof -
  from assms obtain m' where m: "m = CHR ''{'' # m'" and m': "m' \<noteq> []"
    by (cases m) (auto simp: Suc_le_eq)
  with assms have l: "last m' = CHR ''}''" by simp
  then obtain m'' where m'': "m' = m'' @ [CHR ''}'']"
    using m' by (metis append_butlast_last_id)
  have d: "dropWhile (\<lambda>c. c \<noteq> CHR ''{'') (pre @ m @ post) = CHR ''{'' # m' @ post"
    using assms(1) m by (simp add: dropWhile_no_match)
  have "dropWhile (\<lambda>c. c \<noteq> CHR ''}'') (rev (m' @ post)) = rev m'"
    using assms(2) m'' by (auto simp: dropWhile_append3 dropWhile_no_match [where xs = "rev post"])
  with d m m'' show ?thesis
    by (simp add: extractJson_def)
qed

lemma extractJson_shape:
  assumes "extractJson s = Some m"
  shows "\<exists>pre post. s = pre @ m @ post \<and> CHR ''{'' \<notin> set pre \<and> CHR ''}'' \<notin> set post
           \<and> 2 \<le> length m \<and> hd m = CHR ''{'' \<and> last m = CHR ''}''"
proof -
  let ?pre = "takeWhile (\<lambda>c. c \<noteq> CHR ''{'') s"
  from assms obtain b r where d: "dropWhile (\<lambda>c. c \<noteq> CHR ''{'') s = b # r"
    and c: "CHR ''}'' \<in> set r"
    and m: "m = b # rev (dropWhile (\<lambda>c. c \<noteq> CHR ''}'') (rev r))"
    by (auto simp: extractJson_def split: list.splits if_splits)
  have b: "b = CHR ''{''"
    using d hd_dropWhile [of "\<lambda>c. c \<noteq> CHR ''{''" s] by (metis list.sel(1) list.simps(3))
  let ?post = "rev (takeWhile (\<lambda>c. c \<noteq> CHR ''}'') (rev r))"
  let ?mid = "rev (dropWhile (\<lambda>c. c \<noteq> CHR ''}'') (rev r))"
  have r: "r = ?mid @ ?post"
    by (metis rev_append rev_rev_ident takeWhile_dropWhile_id)
  have ne: "dropWhile (\<lambda>c. c \<noteq> CHR ''}'') (rev r) \<noteq> []"
    using c by (simp add: dropWhile_eq_Nil_conv)
  then have hdm: "hd (dropWhile (\<lambda>c. c \<noteq> CHR ''}'') (rev r)) = CHR ''}''"
    using hd_dropWhile [of "\<lambda>c. c \<noteq> CHR ''}''" "rev r"] by blast
  have "last (rev (dropWhile (\<lambda>c. c \<noteq> CHR ''}'') (rev r))) = CHR ''}''"
    using ne hdm by (simp add: last_rev)
  then have lastm: "last m = CHR ''}''"
    using m c by auto
  have s: "s = ?pre @ m @ ?post"
    using d m r by (metis append_Cons takeWhile_dropWhile_id)
  have pre: "CHR ''{'' \<notin> set ?pre"
    by (metis (mono_tags, lifting) set_takeWhileD)
  have post: "CHR ''}'' \<notin> set ?post"
    by (metis (mono_tags, lifting) set_rev set_takeWhileD)
  have len: "2 \<le> length m" using m ne by (cases "dropWhile (\<lambda>c. c \<noteq> CHR ''}'') (rev r)") auto
  from s pre post len b m lastm show ?thesis
    by (metis list.sel(1))
qed

lemma trim_object:
  assumes "obj \<noteq> []" and "\<not> isWhiteSpace (hd obj)" and "\<not> isWhiteSpace (last obj)"
  shows "trim (obj @ t) = obj @ trimEnd t"
proof -
  from assms obtain c cs where o: "obj = c # cs" by (cases obj) auto
  have s: "trimStart (obj @ t) = obj @ t"
    using assms(2) o by (simp add: trimStart_def)
  have "dropWhile isWhiteSpace (rev obj) = rev obj"
    using assms by (cases "rev obj") (auto simp: hd_rev)
  then have "dropWhile isWhiteSpace (rev t @ rev obj) = dropWhile isWhiteSpace (rev t) @ rev obj"
    by (simp add: dropWhile_append)
  with s show ?thesis
    by (simp add: trim_def trimEnd_def)
qed

lemma stripFences_no_fence: "s \<noteq> [] \<Longrightarrow> hd s \<noteq> BACKTICK \<Longrightarrow> stripFences s = s"
  by (cases s) (auto simp: stripFences_def startsWith_def FENCE_def)

lemma stripFences_fenced:
  "stripFences (FENCE @ ''json'' @ [NEWLINE] @ body @ [NEWLINE] @ FENCE) = body"
  by (simp add: stripFences_def stripFenceStart_def stripFenceEnd_def startsWith_def
        endsWith_def FENCE_def NEWLINE_def BACKTICK_def Let_def)


lemma trim_fenced:
  "trim (FENCE @ ''json'' @ [NEWLINE] @ body @ [NEWLINE] @ FENCE)
     = FENCE @ ''json'' @ [NEWLINE] @ body @ [NEWLINE] @ FENCE"
  by (simp add: trim_def trimStart_def trimEnd_def FENCE_def BACKTICK_def isWhiteSpace_def)

subsection \<open>The run\<close>

lemma count_results [simp]: "cnt_results (count r c) = cnt_results c @ [r]"
  by (simp add: count_def Let_def split: item_decision.splits decision.splits)

lemma count_errors [simp]:
  "cnt_errors (count r c) = cnt_errors c + (if res_decision r = ERROR then 1 else 0)"
  by (simp add: count_def Let_def split: item_decision.splits decision.splits)

lemma runLoop_results:
  "runLoop cfg e template runId dryRun items c w = (c', w') \<Longrightarrow>
     (\<exists>rs. cnt_results c' = cnt_results c @ rs \<and> length rs = length items
        \<and> cnt_errors c' = cnt_errors c + errorCount rs)"
proof (induction items arbitrary: c w)
  case Nil
  then show ?case by (simp add: errorCount_def)
next
  case (Cons item rest)
  obtain r w1 where p: "processItem cfg e item template runId dryRun w = (r, w1)"
    by (cases "processItem cfg e item template runId dryRun w")
  with Cons.prems
  have "runLoop cfg e template runId dryRun rest (count r c)
          (logMsg LInfo ''Processed intake item'' w1) = (c', w')"
    by simp
  from Cons.IH [OF this] obtain rs
    where "cnt_results c' = cnt_results (count r c) @ rs" "length rs = length rest"
      "cnt_errors c' = cnt_errors (count r c) + errorCount rs"
    by blast
  then have "cnt_results c' = cnt_results c @ (r # rs) \<and> length (r # rs) = length (item # rest)
               \<and> cnt_errors c' = cnt_errors c + errorCount (r # rs)"
    by (simp add: errorCount_def)
  then show ?case by blast
qed

lemma loadEditorPrompt_intake:
  "loadEditorPrompt cfg e w = (r, w') \<Longrightarrow> w_intake w' = w_intake w"
  by (auto simp: loadEditorPrompt_def Let_def split: if_splits sum.splits)

lemma getEligibleItems_cong:
  "w_intake w' = w_intake w \<Longrightarrow> getEligibleItems n w' = getEligibleItems n w"
  by (simp add: getEligibleItems_def queryItems_def)

lemma errorCount_le: "errorCount rs \<le> length rs"
  by (simp add: errorCount_def)

lemma errorCount_all: "errorCount rs = length rs \<longleftrightarrow> (\<forall>r \<in> set rs. res_decision r = ERROR)"
proof (induction rs)
  case Nil
  then show ?case by (simp add: errorCount_def)
next
  case (Cons r rs)
  show ?case
  proof (cases "res_decision r = ERROR")
    case True
    with Cons show ?thesis by (simp add: errorCount_def)
  next
    case False
    have "length (filter (\<lambda>r. res_decision r = ERROR) rs) < Suc (length rs)"
      by (simp add: le_imp_less_Suc)
    with False show ?thesis by (simp add: errorCount_def)
  qed
qed

lemma runEditor_summary:
  assumes "runEditor cfg e w = (Inr summary, w')"
  shows "length (sum_results summary) = sum_processed summary
         \<and> sum_errors summary = errorCount (sum_results summary)
         \<and> sum_processed summary =
             (if cfg_enabled cfg then length (getEligibleItems (cfg_maxItemsPerRun cfg) w) else 0)"
proof (cases "cfg_enabled cfg")
  case False
  with assms show ?thesis
    by (auto simp: runEditor_def Let_def errorCount_def split: prod.splits)
next
  case True
  obtain runId w1 where u: "ulid w = (runId, w1)" by (cases "ulid w")
  let ?w2 = "logMsg LInfo ''Starting editor run'' w1"
  obtain lr w3 where l: "loadEditorPrompt cfg e ?w2 = (lr, w3)"
    by (cases "loadEditorPrompt cfg e ?w2")
  from assms True u l obtain template where lr: "lr = Inr template"
    by (cases lr) (auto simp: runEditor_def Let_def)
  let ?items = "getEligibleItems (cfg_maxItemsPerRun cfg) w3"
  let ?c0 = "\<lparr>cnt_results = [], cnt_published = 0, cnt_skipped = 0, cnt_errors = 0\<rparr>"
  obtain c w5 where rl: "runLoop cfg e template runId (cfg_dryRun cfg) ?items ?c0
                           (logMsg LInfo ''Found eligible items'' w3) = (c, w5)"
    by (cases "runLoop cfg e template runId (cfg_dryRun cfg) ?items ?c0
                 (logMsg LInfo ''Found eligible items'' w3)")
  from assms True u l lr rl
  have s: "sum_results summary = cnt_results c" "sum_errors summary = cnt_errors c"
    "sum_processed summary = length ?items"
    by (auto simp: runEditor_def Let_def)
  from runLoop_results [OF rl] obtain rs
    where rs: "cnt_results c = rs" "length rs = length ?items" "cnt_errors c = errorCount rs"
    by auto
  have "w_intake w3 = w_intake w"
    using loadEditorPrompt_intake [OF l] u by (auto simp: ulid_def)
  then have "?items = getEligibleItems (cfg_maxItemsPerRun cfg) w"
    by (rule getEligibleItems_cong)
  with s rs True show ?thesis by simp
qed

subsection \<open>The duplicate check\<close>

lemma checkForDuplicate_answer:
  "fst (checkForDuplicate t ids w)
     \<longleftrightarrow> findDuplicate (normalizeTitle t) ids (listCards 100 w) \<noteq> None"
  by (simp add: checkForDuplicate_def Let_def split: option.splits)

lemma checkForDuplicate_world:
  "checkForDuplicate t ids w = (b, w') \<Longrightarrow>
     sameLedger w w' \<and> w_oplog w' = w_oplog w @ [DuplicateCheck] \<and> w_nextId w' = w_nextId w"
  by (auto simp: checkForDuplicate_def sameLedger_def Let_def split: option.splits)

lemma findDuplicate_title:
  "\<exists>c \<in> set cs. normalizeTitle (card_title c) = t \<Longrightarrow> findDuplicate t ids cs \<noteq> None"
  by (induction cs) (auto simp: Let_def)

subsection \<open>The writes of a publication\<close>

lemma createRelationship_frame:
  "createRelationship e f t ty d refs pct u w = (r, w') \<Longrightarrow>
     w_entities w' = w_entities w \<and> w_sources w' = w_sources w \<and> w_cards w' = w_cards w
     \<and> w_intake w' = w_intake w \<and> w_audit w' = w_audit w
     \<and> (\<exists>ops. w_oplog w' = w_oplog w @ ops)"
  by (auto simp: createRelationship_def ulid_def Let_def
           split: sum.splits if_splits option.splits prod.splits)

lemma createRelationships_frame:
  "createRelationships e resolved sid rs acc w = (ids, w') \<Longrightarrow>
     w_entities w' = w_entities w \<and> w_sources w' = w_sources w \<and> w_cards w' = w_cards w
     \<and> w_intake w' = w_intake w \<and> w_audit w' = w_audit w
     \<and> (\<exists>ops. w_oplog w' = w_oplog w @ ops)"
proof (induction rs arbitrary: acc w)
  case Nil
  then show ?case by simp
next
  case (Cons r rs)
  show ?case
  proof (cases "\<exists>f t. arrayGet resolved (fromEntityIndex r) = Some f
                  \<and> arrayGet resolved (toEntityIndex r) = Some t \<and> f \<noteq> [] \<and> t \<noteq> []")
    case False
    then have "createRelationships e resolved sid (r # rs) acc w
                 = createRelationships e resolved sid rs acc w"
      by (auto split: option.splits)
    with Cons show ?thesis by simp
  next
    case True
    then obtain f t where ft: "arrayGet resolved (fromEntityIndex r) = Some f"
      "arrayGet resolved (toEntityIndex r) = Some t" "f \<noteq> []" "t \<noteq> []" by blast
    obtain x w1 where c: "createRelationship e f t (mapRelType (rs_type r)) (rs_description r)
                            [sid] None EDITOR_USER_ID w = (x, w1)"
      by (cases "createRelationship e f t (mapRelType (rs_type r)) (rs_description r)
                   [sid] None EDITOR_USER_ID w")
    note f1 = createRelationship_frame [OF c]
    then obtain ops1 where o1: "w_oplog w1 = w_oplog w @ ops1" by blast
    show ?thesis
    proof (cases x)
      case (Inl err)
      with Cons.prems ft c
      have "createRelationships e resolved sid rs acc
              (logMsg LWarn ''Failed to create relationship'' w1) = (ids, w')" by simp
      from Cons.IH [OF this] f1 o1 show ?thesis by auto
    next
      case (Inr rel)
      with Cons.prems ft c
      have "createRelationships e resolved sid rs (acc @ [rel_relationshipId rel]) w1 = (ids, w')"
        by simp
      from Cons.IH [OF this] f1 o1 show ?thesis by auto
    qed
  qed
qed

lemma publishRelationship_frame:
  "publishRelationship i u w = (r, w') \<Longrightarrow>
     w_entities w' = w_entities w \<and> w_sources w' = w_sources w \<and> w_cards w' = w_cards w
     \<and> w_intake w' = w_intake w \<and> w_audit w' = w_audit w
     \<and> (\<exists>ops. w_oplog w' = w_oplog w @ ops)"
  by (auto simp: publishRelationship_def Let_def split: sum.splits if_splits)

lemma publishRelationships_frame:
  "w_entities (publishRelationships ids w) = w_entities w
   \<and> w_sources (publishRelationships ids w) = w_sources w
   \<and> w_cards (publishRelationships ids w) = w_cards w
   \<and> w_intake (publishRelationships ids w) = w_intake w
   \<and> w_audit (publishRelationships ids w) = w_audit w
   \<and> (\<exists>ops. w_oplog (publishRelationships ids w) = w_oplog w @ ops)"
proof (induction ids arbitrary: w)
  case Nil
  then show ?case by simp
next
  case (Cons i ids)
  obtain x w1 where p: "publishRelationship i EDITOR_USER_ID w = (x, w1)"
    by (cases "publishRelationship i EDITOR_USER_ID w")
  note f1 = publishRelationship_frame [OF p]
  then obtain ops1 where o1: "w_oplog w1 = w_oplog w @ ops1" by blast
  show ?case
  proof (cases x)
    case (Inl err)
    with p have "publishRelationships (i # ids) w
                   = publishRelationships ids (logMsg LWarn ''Failed to publish relationship'' w1)"
      by simp
    with Cons [of "logMsg LWarn ''Failed to publish relationship'' w1"] f1 o1
    show ?thesis by auto
  next
    case (Inr r)
    with p have "publishRelationships (i # ids) w = publishRelationships ids w1" by simp
    with Cons [of w1] f1 o1 show ?thesis by auto
  qed
qed

lemma publishCard_cards:
  assumes "publishCard e i w = (r, w')"
  shows "length (w_cards w') = length (w_cards w)
         \<and> (\<forall>x \<in> set (w_cards w). \<exists>y \<in> set (w_cards w'). card_cardId y = card_cardId x
                \<and> card_title y = card_title x \<and> card_entityIds y = card_entityIds x
                \<and> (\<not> publishCardFails e w i \<and> card_cardId x = i \<longrightarrow> card_status y = PUBLISHED))"
proof (cases "publishCardFails e w i")
  case True
  with assms show ?thesis by (auto simp: publishCard_def)
next
  case False
  let ?g = "\<lambda>c. if card_cardId c = i then c\<lparr>card_status := PUBLISHED\<rparr> else c"
  from False assms have c: "w_cards w' = map ?g (w_cards w)"
    by (auto simp: publishCard_def)
  have "\<exists>y \<in> set (map ?g (w_cards w)). card_cardId y = card_cardId x
          \<and> card_title y = card_title x \<and> card_entityIds y = card_entityIds x
          \<and> (\<not> publishCardFails e w i \<and> card_cardId x = i \<longrightarrow> card_status y = PUBLISHED)"
    if "x \<in> set (w_cards w)" for x
  proof (rule bexI [where x = "?g x"])
    show "card_cardId (?g x) = card_cardId x \<and> card_title (?g x) = card_title x
            \<and> card_entityIds (?g x) = card_entityIds x
            \<and> (\<not> publishCardFails e w i \<and> card_cardId x = i \<longrightarrow> card_status (?g x) = PUBLISHED)"
      by simp
    show "?g x \<in> set (map ?g (w_cards w))" using that by (simp only: set_map image_eqI)
  qed
  with c show ?thesis by simp
qed

lemma publishRecords_frame:
  assumes "publishRecords e item er resolved w = ((source, c, rels), w7)"
  shows "w_entities w7 = w_entities w \<and> w_intake w7 = w_intake w \<and> w_audit w7 = w_audit w
         \<and> (\<exists>ops. w_oplog w7 = w_oplog w @ ops)
         \<and> length (w_cards w7) = Suc (length (w_cards w))
         \<and> length (w_sources w7) = Suc (length (w_sources w))
         \<and> (\<exists>c' \<in> set (w_cards w7). card_cardId c' = card_cardId c
               \<and> card_title c' = it_title item \<and> card_entityIds c' = resolved
               \<and> ((\<forall>v i. \<not> publishCardFails e v i) \<longrightarrow> card_status c' = PUBLISHED))"
proof -
  obtain s w1 where cs: "createSource (it_title item) (it_canonicalUrl item) ''HTML''
                           (it_publisher item) (it_summary item) w = (s, w1)"
    by (cases "createSource (it_title item) (it_canonicalUrl item) ''HTML''
                 (it_publisher item) (it_summary item) w")
  define w2 where "w2 = (case captureHtmlSnapshot e (src_sourceId s) (it_canonicalUrl item) w1 of
                  (Inl err, w') \<Rightarrow>
                    logMsg LWarn ''Failed to capture HTML snapshot, continuing anyway'' w'
                | (Inr u, w') \<Rightarrow> w')"
  define c0 where "c0 = \<lparr>card_cardId = [], card_title = it_title item, card_claim = it_title item,
               card_summary = cardSummaryOf er item,
               card_category = cardCategory e (er_category er),
               card_entityIds = resolved, card_eventDate = eventDateOf item,
               card_sourceRefs = [src_sourceId s], card_evidenceStrength = ''HIGH'',
               card_tags = (case it_suggestedTags item of None \<Rightarrow> [] | Some ts \<Rightarrow> ts),
               card_status = DRAFT\<rparr>"
  obtain c1 w3 where cc: "createCard c0 w2 = (c1, w3)" by (cases "createCard c0 w2")
  obtain ids w5 where cr: "createRelationships e resolved (src_sourceId s) (er_relationships er) []
                             (logMsg LInfo ''Created card from intake'' w3) = (ids, w5)"
    by (cases "createRelationships e resolved (src_sourceId s) (er_relationships er) []
                 (logMsg LInfo ''Created card from intake'' w3)")
  define w6 where "w6 = (case publishCard e (card_cardId c1) w5 of
                  (Inl err, w') \<Rightarrow> logMsg LError ''Failed to publish card'' w'
                | (Inr u, w') \<Rightarrow> logMsg LInfo ''Published card'' w')"
  have eq: "publishRecords e item er resolved w = ((s, c1, ids), publishRelationships ids w6)"
    using cs cc cr by (simp add: publishRecords_def Let_def w2_def c0_def w6_def)
  from assms [unfolded eq]
  have v: "source = s" "c = c1" "rels = ids" "w7 = publishRelationships ids w6"
    by auto
  have f1: "w_entities w1 = w_entities w" "w_intake w1 = w_intake w" "w_audit w1 = w_audit w"
    "w_cards w1 = w_cards w" "length (w_sources w1) = Suc (length (w_sources w))"
    "\<exists>ops. w_oplog w1 = w_oplog w @ ops"
    using cs by (auto simp: createSource_def ulid_def Let_def)
  have f2: "w_entities w2 = w_entities w1" "w_intake w2 = w_intake w1" "w_audit w2 = w_audit w1"
    "w_cards w2 = w_cards w1" "length (w_sources w2) = length (w_sources w1)"
    "\<exists>ops. w_oplog w2 = w_oplog w1 @ ops"
    by (auto simp: w2_def captureHtmlSnapshot_def)
  have f3: "w_entities w3 = w_entities w2" "w_intake w3 = w_intake w2" "w_audit w3 = w_audit w2"
    "w_cards w3 = c1 # w_cards w2" "w_sources w3 = w_sources w2"
    "\<exists>ops. w_oplog w3 = w_oplog w2 @ ops"
    "card_title c1 = it_title item" "card_entityIds c1 = resolved"
    using cc by (auto simp: createCard_def ulid_def Let_def c0_def)
  note f5 = createRelationships_frame [OF cr]
  obtain pr wp where pc: "publishCard e (card_cardId c1) w5 = (pr, wp)"
    by (metis prod.exhaust)
  have w6: "w_cards w6 = w_cards wp"
    using pc by (cases pr) (simp_all add: w6_def)
  have f6: "w_entities w6 = w_entities w5" "w_intake w6 = w_intake w5" "w_audit w6 = w_audit w5"
    "w_sources w6 = w_sources w5" "\<exists>ops. w_oplog w6 = w_oplog w5 @ ops"
    by (auto simp: w6_def publishCard_def)
  have f6c: "length (w_cards w6) = length (w_cards w5)"
    "\<forall>x \<in> set (w_cards w5). \<exists>y \<in> set (w_cards w6). card_cardId y = card_cardId x
        \<and> card_title y = card_title x \<and> card_entityIds y = card_entityIds x
        \<and> (\<not> publishCardFails e w5 (card_cardId c1) \<and> card_cardId x = card_cardId c1
             \<longrightarrow> card_status y = PUBLISHED)"
    using publishCard_cards [OF pc] w6 by simp_all
  note f7 = publishRelationships_frame [of ids w6]
  have ops: "\<exists>ops. w_oplog w7 = w_oplog w @ ops"
  proof -
    from f1 f2 f3 f5 f6 f7 obtain o1 o2 o3 o5 o6 o7
      where "w_oplog w1 = w_oplog w @ o1" "w_oplog w2 = w_oplog w1 @ o2"
        "w_oplog w3 = w_oplog w2 @ o3"
        "w_oplog w5 = w_oplog (logMsg LInfo ''Created card from intake'' w3) @ o5"
        "w_oplog w6 = w_oplog w5 @ o6" "w_oplog (publishRelationships ids w6) = w_oplog w6 @ o7"
      by blast
    then have "w_oplog w7 = w_oplog w @ (o1 @ o2 @ o3 @ o5 @ o6 @ o7)"
      using v by simp
    then show ?thesis by blast
  qed
  have "c1 \<in> set (w_cards w5)" using f3 f5 by simp
  with f6c obtain y where "y \<in> set (w_cards w6)" "card_cardId y = card_cardId c1"
    "card_title y = card_title c1" "card_entityIds y = card_entityIds c1"
    "\<not> publishCardFails e w5 (card_cardId c1) \<longrightarrow> card_status y = PUBLISHED" by blast
  then have card: "\<exists>c' \<in> set (w_cards w7). card_cardId c' = card_cardId c
               \<and> card_title c' = it_title item \<and> card_entityIds c' = resolved
               \<and> ((\<forall>v i. \<not> publishCardFails e v i) \<longrightarrow> card_status c' = PUBLISHED)"
    using f3 f7 v by auto
  from f1 f2 f3 f5 f6 f6c f7 v ops card show ?thesis by simp
qed

lemma publishItem_found:
  assumes "intakeFound w (it_intakeId item)"
  shows "\<exists>r w'. publishItem e item runId er dec resolved w = (Inr r, w')
           \<and> res_decision r = Decided PUBLISH \<and> res_reason r = er_reason er
           \<and> res_cardId r \<noteq> None \<and> res_entityIds r = Some resolved
           \<and> length (w_cards w') = Suc (length (w_cards w))"
proof -
  obtain s c rels w7 where p: "publishRecords e item er resolved w = ((s, c, rels), w7)"
    by (metis prod.exhaust)
  note f = publishRecords_frame [OF p]
  then have "intakeFound w7 (it_intakeId item)"
    using assms by (simp add: intakeFound_def scanItems_def)
  obtain x w8 where u: "updateIntakeEditorStatus e (it_intakeId item) APPROVED dec
                          (Some (card_cardId c)) (Some (src_sourceId s)) w7 = (x, w8)"
    by (metis prod.exhaust)
  from updateIntakeEditorStatus_found [OF \<open>intakeFound w7 (it_intakeId item)\<close>] u
  have x: "x = Inr ()" by (metis fst_conv)
  from updateIntakeEditorStatus_frame [OF u] f
  have "length (w_cards w8) = Suc (length (w_cards w))" by simp
  with p u x show ?thesis
    by (simp add: publishItem_def logAuditEvent_def)
qed

lemma publishItem_not_found:
  assumes "\<not> intakeFound w (it_intakeId item)"
  shows "publishItem e item runId er dec resolved w =
           (Inl (''Intake item '' @ it_intakeId item @ '' not found''),
            snd (publishRecords e item er resolved w))"
proof -
  obtain s c rels w7 where p: "publishRecords e item er resolved w = ((s, c, rels), w7)"
    by (metis prod.exhaust)
  note f = publishRecords_frame [OF p]
  then have "\<not> intakeFound w7 (it_intakeId item)"
    using assms by (simp add: intakeFound_def scanItems_def)
  from updateIntakeEditorStatus_not_found [OF this] p show ?thesis
    by (simp add: publishItem_def)
qed

lemma publishItem_oplog:
  assumes "publishItem e item runId er dec resolved w = (r, w')"
  shows "\<exists>ops. w_oplog w' = w_oplog w @ ops"
proof -
  obtain s c rels w7 where p: "publishRecords e item er resolved w = ((s, c, rels), w7)"
    by (metis prod.exhaust)
  from publishRecords_frame [OF p] obtain o1 where o1: "w_oplog w7 = w_oplog w @ o1" by blast
  obtain x w8 where u: "updateIntakeEditorStatus e (it_intakeId item) APPROVED dec
                          (Some (card_cardId c)) (Some (src_sourceId s)) w7 = (x, w8)"
    by (metis prod.exhaust)
  have "\<exists>ops. w_oplog w8 = w_oplog w7 @ ops"
    using u by (auto simp: updateIntakeEditorStatus_def putItem_def Let_def split: list.splits)
  then obtain o2 where o2: "w_oplog w8 = w_oplog w7 @ o2" by blast
  show ?thesis
  proof (cases x)
    case (Inl err)
    with assms p u have "w' = w8" by (simp add: publishItem_def)
    with o1 o2 show ?thesis by simp
  next
    case (Inr v)
    with assms p u have "\<exists>a. w' = logAuditEvent a w8" by (auto simp: publishItem_def)
    with o1 o2 show ?thesis by (auto simp: logAuditEvent_def)
  qed
qed

lemma skipItem_oplog:
  "skipItem e dryRun i d w = (r, w') \<Longrightarrow> \<exists>ops. w_oplog w' = w_oplog w @ ops"
  by (auto simp: skipItem_def updateIntakeEditorStatus_def putItem_def Let_def
           split: if_splits list.splits)

subsection \<open>The path of a PUBLISH decision\<close>

lemma duplicateFound_cong:
  "w_cards w' = w_cards w \<Longrightarrow> duplicateFound item resolved w' = duplicateFound item resolved w"
  by (simp add: duplicateFound_def listCards_def)

lemma processItem_resolved:
  assumes reply: "llmReply e item template w = Inr content"
    and parsed: "parseEditorResponse content = ParseOk er"
    and pub: "er_decision er = PUBLISH"
    and conf: "cfg_minConfidence cfg \<le> er_confidence er"
    and res: "resolution e dryRun item er w = (Inr resolved, w2)"
    and some: "resolved \<noteq> []"
  shows "processItem cfg e item template runId dryRun w =
           catchError item
             (if duplicateFound item resolved w then
                skipItem e dryRun (it_intakeId item)
                  ((mkDecision e runId er)
                     \<lparr>ed_decision := SKIP, ed_reason := ''Duplicate card detected''\<rparr>)
                  (snd (checkForDuplicate (it_title item) resolved w2))
              else if dryRun then
                (Inr (dryRunResult (it_intakeId item) resolved), recordOp DuplicateCheck w2)
              else publishItem e item runId er (mkDecision e runId er) resolved
                     (recordOp DuplicateCheck w2))"
proof -
  have r: "resolveEntities e dryRun (getMatchedEntities e (suggestionsOf item) w) (er_entities er)
             [] (logMsg LDebug ''Editor Claude call completed'' w) = (Inr resolved, w2)"
    using res by (simp add: resolution_def)
  have cards: "w_cards w2 = w_cards w"
    using resolveEntities_frame [OF r] by simp
  obtain b w3 where c: "checkForDuplicate (it_title item) resolved w2 = (b, w3)"
    by (metis prod.exhaust)
  have b: "b = duplicateFound item resolved w"
    using checkForDuplicate_answer [of "it_title item" resolved w2] c
      duplicateFound_cong [OF cards, of item resolved]
    by (simp add: duplicateFound_def)
  have w3: "\<not> b \<Longrightarrow> w3 = recordOp DuplicateCheck w2"
    using c by (auto simp: checkForDuplicate_def Let_def split: option.splits)
  show ?thesis
    using processItemBody_parsed [OF reply parsed] processResponse_passes [OF pub conf] r some c b w3
    by (auto simp: processItem_def)
qed

lemma resolution_oplog:
  "resolution e dryRun item er w = (r, w2) \<Longrightarrow>
     \<exists>ents. w_oplog w2 = w_oplog w @ ents \<and> list_all isWriteEntity ents"
  using resolveEntities_oplog [of e dryRun "getMatchedEntities e (suggestionsOf item) w"
          "er_entities er" "[]" "logMsg LDebug ''Editor Claude call completed'' w" r w2]
  by (simp add: resolution_def)

lemma resolution_frame:
  "resolution e dryRun item er w = (r, w2) \<Longrightarrow>
     w_sources w2 = w_sources w \<and> w_cards w2 = w_cards w
     \<and> w_relationships w2 = w_relationships w \<and> w_intake w2 = w_intake w
     \<and> w_audit w2 = w_audit w"
  using resolveEntities_frame [of e dryRun "getMatchedEntities e (suggestionsOf item) w"
          "er_entities er" "[]" "logMsg LDebug ''Editor Claude call completed'' w" r w2]
  by (simp add: resolution_def)

lemma resolution_dry:
  "resolution e True item er w = (r, w2) \<Longrightarrow>
     w_entities w2 = w_entities w \<and> w_oplog w2 = w_oplog w"
  using resolveEntities_dry [of e "getMatchedEntities e (suggestionsOf item) w"
          "er_entities er" "[]" "logMsg LDebug ''Editor Claude call completed'' w" r w2]
  by (simp add: resolution_def)

lemma oplog_of_publish_path:
  assumes reply: "llmReply e item template w = Inr content"
    and parsed: "parseEditorResponse content = ParseOk er"
    and pub: "er_decision er = PUBLISH"
    and conf: "cfg_minConfidence cfg \<le> er_confidence er"
    and res: "resolution e dryRun item er w = (Inr resolved, w2)"
    and some: "resolved \<noteq> []"
  shows "\<exists>ents rest.
           w_oplog (snd (processItem cfg e item template runId dryRun w))
             = w_oplog w @ ents @ DuplicateCheck # rest
           \<and> w_oplog w2 = w_oplog w @ ents \<and> list_all isWriteEntity ents"
proof -
  from resolution_oplog [OF res] obtain ents
    where ents: "w_oplog w2 = w_oplog w @ ents" "list_all isWriteEntity ents" by blast
  note p = processItem_resolved [OF reply parsed pub conf res some, of runId]
  have "\<exists>rest. w_oplog (snd (processItem cfg e item template runId dryRun w))
                 = w_oplog w2 @ DuplicateCheck # rest"
  proof (cases "duplicateFound item resolved w")
    case True
    obtain b w3 where c: "checkForDuplicate (it_title item) resolved w2 = (b, w3)"
      by (metis prod.exhaust)
    from checkForDuplicate_world [OF c] have o3: "w_oplog w3 = w_oplog w2 @ [DuplicateCheck]"
      by simp
    obtain x w4 where s: "skipItem e dryRun (it_intakeId item)
                            ((mkDecision e runId er)
                               \<lparr>ed_decision := SKIP, ed_reason := ''Duplicate card detected''\<rparr>)
                            w3 = (x, w4)"
      by (metis prod.exhaust)
    from skipItem_oplog [OF s] obtain ops where "w_oplog w4 = w_oplog w3 @ ops" by blast
    with o3 p True c s show ?thesis
      by (cases x) (auto simp: catchError_def)
  next
    case False
    show ?thesis
    proof (cases dryRun)
      case True
      with p False show ?thesis by (simp add: catchError_def)
    next
      case nd: False
      obtain x w4 where s: "publishItem e item runId er (mkDecision e runId er) resolved
                              (recordOp DuplicateCheck w2) = (x, w4)"
        by (metis prod.exhaust)
      from publishItem_oplog [OF s] obtain ops
        where "w_oplog w4 = w_oplog (recordOp DuplicateCheck w2) @ ops" by blast
      with p False nd s show ?thesis
        by (cases x) (auto simp: catchError_def)
    qed
  qed
  with ents show ?thesis by auto
qed

lemma resolveEntities_dry_skips_create:
  "resolveEntities e True m (filter (\<lambda>r. \<not> isCreate r) rs) acc w = resolveEntities e True m rs acc w"
proof (induction rs arbitrary: acc w)
  case Nil
  then show ?case by simp
next
  case (Cons r rs)
  show ?case
  proof (cases "isCreate r")
    case True
    then obtain n t where "r = Create n t" by (cases r) (auto simp: isCreate_def)
    then have "resolveEntityRef e True m r acc w = (Inr acc, w)"
      by (simp add: resolveEntityRef_def)
    with True Cons show ?thesis by simp
  next
    case False
    with Cons show ?thesis by (simp split: prod.splits sum.splits)
  qed
qed

lemma processItem_dry_run:
  assumes reply: "llmReply e item template w = Inr content"
    and parsed: "parseEditorResponse content = ParseOk er"
    and pub: "er_decision er = PUBLISH"
    and conf: "cfg_minConfidence cfg \<le> er_confidence er"
    and res: "resolution e True item er w = (Inr resolved, w2)"
    and some: "resolved \<noteq> []"
    and nodup: "\<not> duplicateFound item resolved w"
  shows "processItem cfg e item template runId True w
           = (dryRunResult (it_intakeId item) resolved, recordOp DuplicateCheck w2)"
  using processItem_resolved [OF reply parsed pub conf res some, of runId] nodup
  by (simp add: catchError_def)

lemma processItem_duplicate:
  assumes reply: "llmReply e item template w = Inr content"
    and parsed: "parseEditorResponse content = ParseOk er"
    and pub: "er_decision er = PUBLISH"
    and conf: "cfg_minConfidence cfg \<le> er_confidence er"
    and res: "resolution e dryRun item er w = (Inr resolved, w2)"
    and some: "resolved \<noteq> []"
    and dup: "duplicateFound item resolved w"
  shows "(let (res, w') = processItem cfg e item template runId dryRun w
          in w_sources w' = w_sources w \<and> w_cards w' = w_cards w
             \<and> w_relationships w' = w_relationships w
             \<and> res = (if dryRun \<or> intakeFound w (it_intakeId item)
                      then skipResult (it_intakeId item) ''Duplicate card detected''
                      else errorResult (it_intakeId item)
                             (''Intake item '' @ it_intakeId item @ '' not found'')))"
proof -
  let ?d = "(mkDecision e runId er)
              \<lparr>ed_decision := SKIP, ed_reason := ''Duplicate card detected''\<rparr>"
  obtain b w3 where c: "checkForDuplicate (it_title item) resolved w2 = (b, w3)"
    by (metis prod.exhaust)
  have p: "processItem cfg e item template runId dryRun w
             = catchError item (skipItem e dryRun (it_intakeId item) ?d w3)"
    using processItem_resolved [OF reply parsed pub conf res some, of runId] dup c by simp
  have fr: "w_sources w3 = w_sources w" "w_cards w3 = w_cards w"
    "w_relationships w3 = w_relationships w" "w_intake w3 = w_intake w"
    using resolution_frame [OF res] checkForDuplicate_world [OF c] by (simp_all add: sameLedger_def)
  have found: "intakeFound w3 (it_intakeId item) = intakeFound w (it_intakeId item)"
    using fr by (simp add: intakeFound_def scanItems_def)
  obtain x w4 where sk: "skipItem e dryRun (it_intakeId item) ?d w3 = (x, w4)"
    by (metis prod.exhaust)
  note sf = skipItem_frame [OF sk]
  show ?thesis
  proof (cases "dryRun \<or> intakeFound w (it_intakeId item)")
    case True
    then have "dryRun \<or> intakeFound w3 (it_intakeId item)" using found by simp
    from skipItem_recorded [OF this, of e ?d] sk
    have "x = Inr (skipResult (it_intakeId item) ''Duplicate card detected'')" by simp
    with p sk sf fr True show ?thesis by (simp add: catchError_def)
  next
    case False
    then have nd: "\<not> dryRun" and nf: "\<not> intakeFound w3 (it_intakeId item)"
      using found by simp_all
    from skipItem_not_recorded [OF nd nf, of e ?d] sk
    have "x = Inl (''Intake item '' @ it_intakeId item @ '' not found'')" "w4 = w3" by simp_all
    with p sk fr False show ?thesis by (simp add: catchError_def)
  qed
qed

lemma duplicateFound_same_title:
  "\<exists>c \<in> set (listCards 100 w). normalizeTitle (card_title c) = normalizeTitle (it_title item)
     \<Longrightarrow> duplicateFound item resolved w"
  using findDuplicate_title [of "listCards 100 w" "normalizeTitle (it_title item)" resolved]
  by (simp add: duplicateFound_def)

lemma processItem_live_publish:
  assumes reply: "llmReply e item template w = Inr content"
    and parsed: "parseEditorResponse content = ParseOk er"
    and pub: "er_decision er = PUBLISH"
    and conf: "cfg_minConfidence cfg \<le> er_confidence er"
    and res: "resolution e False item er w = (Inr resolved, w2)"
    and some: "resolved \<noteq> []"
    and nodup: "\<not> duplicateFound item resolved w"
    and found: "intakeFound w (it_intakeId item)"
  shows "(let (r, w') = processItem cfg e item template runId False w
          in res_decision r = Decided PUBLISH \<and> res_reason r = er_reason er
             \<and> res_cardId r \<noteq> None \<and> res_entityIds r = Some resolved
             \<and> length (w_cards w') = Suc (length (w_cards w)))"
proof -
  let ?w3 = "recordOp DuplicateCheck w2"
  have f: "intakeFound ?w3 (it_intakeId item)" "w_cards ?w3 = w_cards w"
    using resolution_frame [OF res] found by (simp_all add: intakeFound_def scanItems_def)
  from publishItem_found [OF f(1), of e runId er "mkDecision e runId er" resolved] f(2)
    processItem_resolved [OF reply parsed pub conf res some, of runId] nodup
  show ?thesis by (auto simp: catchError_def)
qed

lemma processItem_publish_unrecorded:
  assumes reply: "llmReply e item template w = Inr content"
    and parsed: "parseEditorResponse content = ParseOk er"
    and pub: "er_decision er = PUBLISH"
    and conf: "cfg_minConfidence cfg \<le> er_confidence er"
    and res: "resolution e False item er w = (Inr resolved, w2)"
    and some: "resolved \<noteq> []"
    and nodup: "\<not> duplicateFound item resolved w"
    and missing: "\<not> intakeFound w (it_intakeId item)"
  shows "processItem cfg e item template runId False w =
           (errorResult (it_intakeId item) (''Intake item '' @ it_intakeId item @ '' not found''),
            logMsg LError ''Error processing item''
              (snd (publishRecords e item er resolved (recordOp DuplicateCheck w2))))"
proof -
  let ?w3 = "recordOp DuplicateCheck w2"
  have f: "\<not> intakeFound ?w3 (it_intakeId item)"
    using resolution_frame [OF res] missing by (simp add: intakeFound_def scanItems_def)
  from publishItem_not_found [OF f, of e runId er "mkDecision e runId er" resolved]
    processItem_resolved [OF reply parsed pub conf res some, of runId] nodup
  show ?thesis by (simp add: catchError_def)
qed

subsection \<open>The examples, evaluated\<close>

lemma example_reply [simp]: "llmReply (exampleEnv r) item template w = Inr r"
  by (simp add: llmReply_def exampleEnv_def)

lemma parse_createReply:
  "parseEditorResponse createReply = ParseOk (response (19 / 20) [Create ''Acme Corp'' ''CORPORATION''])"
  by code_simp

lemma parse_finedReply: "parseEditorResponse finedReply = ParseOk finedResponse"
  by code_simp


lemma parse_edgeReply:
  "parseEditorResponse edgeReply = ParseOk (response (4 / 5) [MatchedIndex 0])"
  by code_simp



lemma item_ids [simp]:
  "it_intakeId (intakeItem i t) = i"
  "it_intakeId acmeItem = ''I1''" "it_intakeId spacedItem = ''I1''" "it_intakeId shoutedItem = ''I1''"
  by (simp_all add: acmeItem_def spacedItem_def shoutedItem_def intakeItem_def)

lemma found_stored [simp]: "intakeFound (storedWorld item) (it_intakeId item)"
  by (simp add: intakeFound_def scanItems_def storedWorld_def emptyLedger_def intakeRow_def)

lemma found_published [simp]: "intakeFound (publishedWorld item) (it_intakeId item)"
  by (simp add: intakeFound_def scanItems_def publishedWorld_def storedWorld_def emptyLedger_def
        intakeRow_def)

lemma found_directory [simp]: "intakeFound (directoryWorld item) (it_intakeId item)"
  by (simp add: intakeFound_def scanItems_def directoryWorld_def storedWorld_def emptyLedger_def
        intakeRow_def)

lemma missing_crowded [simp]: "\<not> intakeFound (crowdedWorld item) ''I1''"
  by (simp add: intakeFound_def scanItems_def crowdedWorld_def emptyLedger_def olderRows_def
        olderRow_def)

lemma stored_crowded: "intakeRow item \<in> set (w_intake (crowdedWorld item))"
  by (simp add: crowdedWorld_def emptyLedger_def)

lemma no_cards [simp]:
  "\<not> duplicateFound item ids (storedWorld x)" "\<not> duplicateFound item ids (crowdedWorld x)"
  "\<not> duplicateFound item ids (directoryWorld x)"
  by (simp_all add: duplicateFound_def listCards_def storedWorld_def crowdedWorld_def
        directoryWorld_def emptyLedger_def)

lemma resolution_pair: "fst (resolution e d item er w) = r \<Longrightarrow>
  resolution e d item er w = (r, snd (resolution e d item er w))"
  by (metis prod.collapse)

lemma resolution_create_live:
  "fst (resolution (exampleEnv createReply) False item
          (response (19 / 20) [Create ''Acme Corp'' ''CORPORATION'']) (storedWorld item)) = Inr [''ID0'']"
  by code_simp

subsection \<open>References that only look entities up\<close>

lemma resolveEntityRef_lookup:
  "\<not> isCreate r \<Longrightarrow> resolveEntityRef e dryRun m r acc w = (res, w') \<Longrightarrow>
     w_entities w' = w_entities w \<and> w_oplog w' = w_oplog w"
  by (cases r)
     (auto simp: resolveEntityRef_def isCreate_def split: if_splits option.splits sum.splits)

lemma resolveEntities_lookup:
  "list_all (\<lambda>r. \<not> isCreate r) rs \<Longrightarrow> resolveEntities e dryRun m rs acc w = (res, w') \<Longrightarrow>
     w_entities w' = w_entities w \<and> w_oplog w' = w_oplog w"
proof (induction rs arbitrary: acc w)
  case Nil
  then show ?case by simp
next
  case (Cons r rs)
  obtain x w1 where s: "resolveEntityRef e dryRun m r acc w = (x, w1)"
    by (cases "resolveEntityRef e dryRun m r acc w")
  from Cons.prems have nc: "\<not> isCreate r" and rest: "list_all (\<lambda>r. \<not> isCreate r) rs"
    by simp_all
  note f = resolveEntityRef_lookup [OF nc s]
  show ?case
  proof (cases x)
    case (Inl err)
    with Cons.prems s f show ?thesis by simp
  next
    case (Inr acc1)
    with Cons.prems s have "resolveEntities e dryRun m rs acc1 w1 = (res, w')" by simp
    from Cons.IH [OF rest this] f show ?thesis by simp
  qed
qed

lemma resolution_lookup:
  "list_all (\<lambda>r. \<not> isCreate r) (er_entities er) \<Longrightarrow> resolution e dryRun item er w = (r, w2) \<Longrightarrow>
     w_entities w2 = w_entities w \<and> w_oplog w2 = w_oplog w"
  using resolveEntities_lookup [of "er_entities er" e dryRun _ "[]" _ r w2]
  by (simp add: resolution_def)

text \<open>
  Were the lookup of the Entity Directory to reject an unknown identifier instead of
  answering with no entity, the turn of the loop for a by-id reference would throw.
\<close>

lemma unknown_entity_id_rejected:
  "find (\<lambda>x. ent_entityId x = i) (w_entities w) = None \<Longrightarrow> getEntityRejects e \<Longrightarrow>
     resolveEntityRef e dryRun m (EntityId i) acc w = (Inl (''Entity not found: '' @ i), w)"
  by (simp add: resolveEntityRef_def getEntity_def)

subsection \<open>More examples, evaluated\<close>



lemma example_threshold [simp]:
  "cfg_minConfidence exampleConfig = 4 / 5" "numberToString (exampleEnv r) = showDecimal"
  "getEntityRejects (exampleEnv r) = False" "publishCardFails (exampleEnv r) = (\<lambda>w i. False)"
  by (simp_all add: exampleConfig_def exampleEnv_def)

lemma response_fields [simp]:
  "er_decision (response c es) = PUBLISH" "er_confidence (response c es) = c"
  "er_entities (response c es) = es" "er_reason (response c es) = ''No reason provided''"
  by (simp_all add: response_def)

lemma eligible_crowded: "getEligibleItems 20 (crowdedWorld acmeItem) = [acmeItem]"
  by (simp add: getEligibleItems_def queryItems_def crowdedWorld_def emptyLedger_def olderRows_def
        olderRow_def intakeRow_def acmeItem_def intakeItem_def eligible_def suggestionsOf_def
        truthy_def)

lemma resolution_create_dry:
  "fst (resolution (exampleEnv createReply) True item
          (response (19 / 20) [Create ''Acme Corp'' ''CORPORATION'']) (storedWorld item)) = Inr []"
  by code_simp

lemma resolution_directory:
  "fst (resolution (exampleEnv edgeReply) d acmeItem (response (4 / 5) [MatchedIndex 0])
          (directoryWorld acmeItem)) = Inr [''E1'']"
  by code_simp

lemma resolution_published:
  "fst (resolution (exampleEnv createReply) False item
          (response (19 / 20) [Create ''Acme Corp'' ''CORPORATION'']) (publishedWorld item))
     = Inr [''ID0'']"
  "w_oplog (snd (resolution (exampleEnv createReply) False item
          (response (19 / 20) [Create ''Acme Corp'' ''CORPORATION'']) (publishedWorld item)))
     = [WriteEntity ''ID0'']"
  "map ent_name (w_entities (snd (resolution (exampleEnv createReply) False item
          (response (19 / 20) [Create ''Acme Corp'' ''CORPORATION'']) (publishedWorld item))))
     = [''Acme Corp'']"
  by code_simp+

lemma resolution_crowded_published:
  "fst (resolution (exampleEnv createReply) False item
          (response (19 / 20) [Create ''Acme Corp'' ''CORPORATION'']) (crowdedPublishedWorld item))
     = Inr [''ID0'']"
  by code_simp



lemma resolution_fined:
  "fst (resolution (exampleEnv finedReply) False item finedResponse (crowdedWorld item))
     = Inr [''ID0'', ''ID1'']"
  by code_simp

lemma duplicate_examples:
  "duplicateFound acmeItem ids (publishedWorld acmeItem)"
  "duplicateFound shoutedItem ids (publishedWorld shoutedItem)"
  "duplicateFound acmeItem ids (crowdedPublishedWorld acmeItem)"
  "\<not> duplicateFound spacedItem [''ID0''] (publishedWorld spacedItem)"
  by code_simp+

lemma processItem_unparsed:
  "llmReply e item template w = Inr content \<Longrightarrow> parseEditorResponse content = ParseNull \<Longrightarrow>
     processItem cfg e item template runId dryRun w =
       (errorResult (it_intakeId item) ''Failed to parse editor response'',
        logMsg LWarn (parseFailureMessage content)
          (logMsg LDebug ''Editor Claude call completed'' w))"
  by (auto simp: processItem_def catchError_def processItemBody_def llmReply_def Let_def)

lemma maybeReply_invalid:
  "parseEditorResponse maybeReply = ParseNull" "noValidDecision maybeReply"
  "parseFailureMessage maybeReply = ''Invalid decision in editor response''"
  by code_simp+

lemma missing_crowded_published: "\<not> intakeFound (crowdedPublishedWorld item) ''I1''"
  by (simp add: intakeFound_def scanItems_def crowdedPublishedWorld_def crowdedWorld_def
        emptyLedger_def olderRows_def olderRow_def)

lemma run_of_invalid_reply:
  "fst (runEditor exampleConfig (exampleEnv maybeReply)
          (logMsg LInfo ''Starting intake editor run'' (storedWorld acmeItem)))
     = Inr \<lparr>sum_runId = ''ID0'', sum_startedAt = ''2026-01-01T00:00:00.000Z'',
            sum_completedAt = ''2026-01-01T00:00:00.000Z'', sum_processed = 1,
            sum_published = 0, sum_skipped = 0, sum_errors = 1, sum_dryRun = False,
            sum_results = [errorResult ''I1'' ''Failed to parse editor response'']\<rparr>"
proof -
  have zero: "showNat 0 = ''0''" by code_simp
  have cfg: "cfg_enabled exampleConfig" "\<not> cfg_dryRun exampleConfig"
    "cfg_maxItemsPerRun exampleConfig = 20"
    "cfg_promptTemplateBucket exampleConfig = ''ledger-prompts''"
    by (simp_all add: exampleConfig_def)
  have env: "now (exampleEnv maybeReply) = ''2026-01-01T00:00:00.000Z''"
    "s3GetObject (exampleEnv maybeReply) = (\<lambda>b k. Inr (Some ''Review {{TITLE}}''))"
    by (simp_all add: exampleEnv_def)
  have items: "getEligibleItems 20 w = [acmeItem]" if "w_intake w = [intakeRow acmeItem]" for w
    using that
    by (simp add: getEligibleItems_def queryItems_def intakeRow_def acmeItem_def intakeItem_def
          eligible_def suggestionsOf_def truthy_def)
  show ?thesis
    by (simp add: runEditor_def ulid_def Let_def cfg env loadEditorPrompt_def truthy_def
          storedWorld_def emptyLedger_def zero items
          processItem_unparsed [OF example_reply maybeReply_invalid(1)] count_def
          errorResult_def)
qed

lemma records_of_fined_item:
  "map rel_status
     (w_relationships
        (snd (publishRecords (exampleEnv finedReply) acmeItem finedResponse [''ID0'', ''ID1'']
                (recordOp DuplicateCheck
                   (snd (resolution (exampleEnv finedReply) False acmeItem finedResponse
                           (crowdedWorld acmeItem))))))) = [PUBLISHED]"
  "map card_status
     (w_cards
        (snd (publishRecords (exampleEnv finedReply) acmeItem finedResponse [''ID0'', ''ID1'']
                (recordOp DuplicateCheck
                   (snd (resolution (exampleEnv finedReply) False acmeItem finedResponse
                           (crowdedWorld acmeItem))))))) = [PUBLISHED]"
  "map ent_name
     (w_entities
        (snd (publishRecords (exampleEnv finedReply) acmeItem finedResponse [''ID0'', ''ID1'']
                (recordOp DuplicateCheck
                   (snd (resolution (exampleEnv finedReply) False acmeItem finedResponse
                           (crowdedWorld acmeItem))))))) = [''Acme Corp'', ''FTC'']"
  "map src_url
     (w_sources
        (snd (publishRecords (exampleEnv finedReply) acmeItem finedResponse [''ID0'', ''ID1'']
                (recordOp DuplicateCheck
                   (snd (resolution (exampleEnv finedReply) False acmeItem finedResponse
                           (crowdedWorld acmeItem))))))) = [''https://www.ftc.gov/news/1'']"
  by code_simp+

section \<open>The claims of the specification\<close>

subsection \<open>C1: the confidence gate\<close>



subsection \<open>C2: a reference to an unknown entity identifier\<close>



subsection \<open>C3: dry runs\<close>

text \<open>
  Claim C3, as the code has it. A dry run ignores the create-variant references of a
  decision. For every item processed in dry-run mode whose decision is PUBLISH, with a
  confidence at or above the threshold, whose other references resolve to at least one
  entity and for which no duplicate is found, the result has the decision PUBLISH, the
  reason "[DRY RUN] Would publish with n entities", the resolved entity identifiers, no card
  identifier and no relationship identifiers; no entity, source, card, relationship, intake
  item or audit event is written, and the duplicate check is the only operation on the
  stores.
\<close>

theorem dry_run_publishable:
  assumes reply: "llmReply e item template w = Inr content"
    and parsed: "parseEditorResponse content = ParseOk er"
    and pub: "er_decision er = PUBLISH"
    and conf: "cfg_minConfidence cfg \<le> er_confidence er"
    and res: "fst (resolution e True item er w) = Inr resolved"
    and some: "resolved \<noteq> []"
    and nodup: "\<not> duplicateFound item resolved w"
  shows "fst (processItem cfg e item template runId True w) =
           \<lparr>res_intakeId = it_intakeId item, res_decision = Decided PUBLISH,
            res_reason = ''[DRY RUN] Would publish with '' @ showNat (length resolved)
                         @ '' entities'',
            res_cardId = None, res_entityIds = Some resolved, res_relationshipIds = None\<rparr>
         \<and> sameLedger w (snd (processItem cfg e item template runId True w))
         \<and> w_oplog (snd (processItem cfg e item template runId True w))
             = w_oplog w @ [DuplicateCheck]
         \<and> fst (resolution e True item
                  (er\<lparr>er_entities := filter (\<lambda>r. \<not> isCreate r) (er_entities er)\<rparr>) w)
             = Inr resolved"
proof -
  obtain w2 where r: "resolution e True item er w = (Inr resolved, w2)"
    using resolution_pair [OF res] by blast
  note p = processItem_dry_run [OF reply parsed pub conf r some nodup, where runId = runId]
  note f = resolution_frame [OF r] and d = resolution_dry [OF r]
  have "resolution e True item
          (er\<lparr>er_entities := filter (\<lambda>r. \<not> isCreate r) (er_entities er)\<rparr>) w
        = resolution e True item er w"
    by (simp add: resolution_def resolveEntities_dry_skips_create)
  with p f d res show ?thesis
    by (simp add: dryRunResult_def sameLedger_def)
qed

text \<open>
  The item "FTC Fines Acme Corp $5M", a reply that refers to the first matched entity, and a
  directory that knows Acme Corp: the dry run reports PUBLISH with one entity and writes
  nothing.
\<close>

theorem dry_run_publishable_witness:
  "llmReply (exampleEnv edgeReply) acmeItem ''T'' (directoryWorld acmeItem) = Inr edgeReply
   \<and> parseEditorResponse edgeReply = ParseOk (response (4 / 5) [MatchedIndex 0])
   \<and> er_decision (response (4 / 5) [MatchedIndex 0]) = PUBLISH
   \<and> cfg_minConfidence exampleConfig \<le> er_confidence (response (4 / 5) [MatchedIndex 0])
   \<and> fst (resolution (exampleEnv edgeReply) True acmeItem (response (4 / 5) [MatchedIndex 0])
            (directoryWorld acmeItem)) = Inr [''E1'']
   \<and> \<not> duplicateFound acmeItem [''E1''] (directoryWorld acmeItem)
   \<and> fst (processItem exampleConfig (exampleEnv edgeReply) acmeItem ''T'' ''RUN1'' True
            (directoryWorld acmeItem))
       = \<lparr>res_intakeId = ''I1'', res_decision = Decided PUBLISH,
          res_reason = ''[DRY RUN] Would publish with 1 entities'',
          res_cardId = None, res_entityIds = Some [''E1''], res_relationshipIds = None\<rparr>
   \<and> sameLedger (directoryWorld acmeItem)
        (snd (processItem exampleConfig (exampleEnv edgeReply) acmeItem ''T'' ''RUN1'' True
                (directoryWorld acmeItem)))"
proof -
  let ?er = "response (4 / 5) [MatchedIndex 0]"
  have reply: "llmReply (exampleEnv edgeReply) acmeItem ''T'' (directoryWorld acmeItem)
                 = Inr edgeReply" by simp
  have pub: "er_decision ?er = PUBLISH" by simp
  have conf: "cfg_minConfidence exampleConfig \<le> er_confidence ?er" by simp
  have some: "[''E1''] \<noteq> ([] :: string list)" by simp
  have nodup: "\<not> duplicateFound acmeItem [''E1''] (directoryWorld acmeItem)" by simp
  have one: "showNat (length [''E1'']) = ''1''" by code_simp
  from dry_run_publishable [OF reply parse_edgeReply pub conf resolution_directory [of True]
      some nodup,
      where runId = "''RUN1''"]
    reply parse_edgeReply pub conf resolution_directory [of True] nodup one
  show ?thesis by simp
qed

text \<open>
  Claim C3 as stated fails for a decision whose only reference creates an entity. The live
  run publishes the item, so the decision is publishable; the dry run of the same item in
  the same ledger resolves no entity and reports SKIP, "No entities could be resolved".
\<close>

theorem dry_run_ignores_new_entities:
  "res_decision (fst (processItem exampleConfig (exampleEnv createReply) acmeItem ''T'' ''RUN1''
                        False (storedWorld acmeItem))) = Decided PUBLISH
   \<and> fst (processItem exampleConfig (exampleEnv createReply) acmeItem ''T'' ''RUN1'' True
            (storedWorld acmeItem))
       = skipResult ''I1'' ''No entities could be resolved''"
proof -
  let ?er = "response (19 / 20) [Create ''Acme Corp'' ''CORPORATION'']"
  let ?w = "storedWorld acmeItem"
  have reply: "llmReply (exampleEnv createReply) acmeItem ''T'' ?w = Inr createReply" by simp
  have pub: "er_decision ?er = PUBLISH" by simp
  have conf: "cfg_minConfidence exampleConfig \<le> er_confidence ?er" by simp
  have some: "[''ID0''] \<noteq> ([] :: string list)" by simp
  have nodup: "\<not> duplicateFound acmeItem [''ID0''] ?w" by simp
  have found: "intakeFound ?w (it_intakeId acmeItem)" by (rule found_stored)
  from processItem_live_publish [OF reply parse_createReply pub conf
      resolution_pair [OF resolution_create_live] some nodup found, where runId = "''RUN1''"]
  have live: "res_decision (fst (processItem exampleConfig (exampleEnv createReply) acmeItem
                ''T'' ''RUN1'' False ?w)) = Decided PUBLISH"
    by (simp add: split_def Let_def)
  from processItem_zero_entities [OF reply parse_createReply pub conf resolution_create_dry,
      where runId = "''RUN1''"]
  have dry: "fst (processItem exampleConfig (exampleEnv createReply) acmeItem ''T'' ''RUN1'' True
                    ?w) = skipResult ''I1'' ''No entities could be resolved''"
    by (simp add: split_def Let_def)
  from live dry show ?thesis by simp
qed

subsection \<open>C4: the duplicate check and the writes\<close>

text \<open>
  Claim C4, as the code has it. For every item on the PUBLISH path (a PUBLISH decision, a
  confidence at or above the threshold, at least one resolved entity) the duplicate check
  is performed, and the only writes before it are the new entities of the create-variant
  references, written while the references are resolved: no source, snapshot, card,
  relationship, intake item or audit event is written before the check. In a dry run, and
  for a decision without create-variant references, nothing at all is written before it.
\<close>

theorem duplicate_check_follows_entity_resolution:
  assumes reply: "llmReply e item template w = Inr content"
    and parsed: "parseEditorResponse content = ParseOk er"
    and pub: "er_decision er = PUBLISH"
    and conf: "cfg_minConfidence cfg \<le> er_confidence er"
    and res: "fst (resolution e dryRun item er w) = Inr resolved"
    and some: "resolved \<noteq> []"
  shows "\<exists>ents rest.
           w_oplog (snd (processItem cfg e item template runId dryRun w))
             = w_oplog w @ ents @ DuplicateCheck # rest
           \<and> w_oplog (snd (resolution e dryRun item er w)) = w_oplog w @ ents
           \<and> list_all isWriteEntity ents
           \<and> (dryRun \<longrightarrow> ents = [])
           \<and> (list_all (\<lambda>r. \<not> isCreate r) (er_entities er) \<longrightarrow> ents = [])"
proof -
  obtain w2 where r: "resolution e dryRun item er w = (Inr resolved, w2)"
    using resolution_pair [OF res] by blast
  from oplog_of_publish_path [OF reply parsed pub conf r some, where runId = runId]
  obtain ents rest where
    o: "w_oplog (snd (processItem cfg e item template runId dryRun w))
          = w_oplog w @ ents @ DuplicateCheck # rest"
       "w_oplog w2 = w_oplog w @ ents" "list_all isWriteEntity ents"
    by blast
  have dry: "dryRun \<longrightarrow> ents = []"
    using resolution_dry [of e item er w "Inr resolved" w2] r o(2) by auto
  have lookup: "list_all (\<lambda>r. \<not> isCreate r) (er_entities er) \<longrightarrow> ents = []"
    using resolution_lookup [OF _ r] o(2) by auto
  from o dry lookup r show ?thesis by auto
qed

text \<open>
  For the reply that refers to the first matched entity, the duplicate check is the first
  operation on the stores.
\<close>

theorem duplicate_check_follows_entity_resolution_witness:
  "llmReply (exampleEnv edgeReply) acmeItem ''T'' (directoryWorld acmeItem) = Inr edgeReply
   \<and> parseEditorResponse edgeReply = ParseOk (response (4 / 5) [MatchedIndex 0])
   \<and> er_decision (response (4 / 5) [MatchedIndex 0]) = PUBLISH
   \<and> cfg_minConfidence exampleConfig \<le> er_confidence (response (4 / 5) [MatchedIndex 0])
   \<and> fst (resolution (exampleEnv edgeReply) False acmeItem (response (4 / 5) [MatchedIndex 0])
            (directoryWorld acmeItem)) = Inr [''E1'']
   \<and> (\<exists>rest. w_oplog (snd (processItem exampleConfig (exampleEnv edgeReply) acmeItem ''T''
                              ''RUN1'' False (directoryWorld acmeItem)))
              = DuplicateCheck # rest)"
proof -
  let ?er = "response (4 / 5) [MatchedIndex 0]"
  have reply: "llmReply (exampleEnv edgeReply) acmeItem ''T'' (directoryWorld acmeItem)
                 = Inr edgeReply" by simp
  have pub: "er_decision ?er = PUBLISH" by simp
  have conf: "cfg_minConfidence exampleConfig \<le> er_confidence ?er" by simp
  have some: "[''E1''] \<noteq> ([] :: string list)" by simp
  have start: "w_oplog (directoryWorld acmeItem) = []"
    by (simp add: directoryWorld_def storedWorld_def emptyLedger_def)
  have refs: "list_all (\<lambda>r. \<not> isCreate r) (er_entities ?er)" by (simp add: isCreate_def)
  from duplicate_check_follows_entity_resolution [OF reply parse_edgeReply pub conf
      resolution_directory [of False] some, where runId = "''RUN1''"] refs start
  have "\<exists>rest. w_oplog (snd (processItem exampleConfig (exampleEnv edgeReply) acmeItem ''T''
                              ''RUN1'' False (directoryWorld acmeItem)))
              = DuplicateCheck # rest"
    by auto
  with reply parse_edgeReply pub conf resolution_directory [of False] show ?thesis by simp
qed

text \<open>
  Claim C4 as stated fails for a create-variant reference. In a ledger without entities
  that holds a published card of the item's title, the live run writes the entity Acme Corp
  and only then checks for duplicates; the item is skipped as a duplicate, and the entity
  stays.
\<close>

theorem entity_written_before_duplicate_check:
  "w_entities (publishedWorld acmeItem) = []
   \<and> (\<exists>rest. w_oplog (snd (processItem exampleConfig (exampleEnv createReply) acmeItem ''T''
                              ''RUN1'' False (publishedWorld acmeItem)))
              = WriteEntity ''ID0'' # DuplicateCheck # rest)
   \<and> map ent_name
        (w_entities (snd (processItem exampleConfig (exampleEnv createReply) acmeItem ''T''
                            ''RUN1'' False (publishedWorld acmeItem)))) = [''Acme Corp'']
   \<and> fst (processItem exampleConfig (exampleEnv createReply) acmeItem ''T'' ''RUN1'' False
            (publishedWorld acmeItem))
       = skipResult ''I1'' ''Duplicate card detected''"
proof -
  let ?er = "response (19 / 20) [Create ''Acme Corp'' ''CORPORATION'']"
  let ?w = "publishedWorld acmeItem"
  let ?e = "exampleEnv createReply"
  let ?w2 = "snd (resolution ?e False acmeItem ?er ?w)"
  let ?p = "processItem exampleConfig ?e acmeItem ''T'' ''RUN1'' False ?w"
  have reply: "llmReply ?e acmeItem ''T'' ?w = Inr createReply" by simp
  have pub: "er_decision ?er = PUBLISH" by simp
  have conf: "cfg_minConfidence exampleConfig \<le> er_confidence ?er" by simp
  have some: "[''ID0''] \<noteq> ([] :: string list)" by simp
  have found: "intakeFound ?w (it_intakeId acmeItem)" by (rule found_published)
  note r = resolution_pair [OF resolution_published(1) [of acmeItem]]
  note dup = duplicate_examples(1) [of "[''ID0'']"]
  have none: "w_entities ?w = []" "w_oplog ?w = []"
    by (simp_all add: publishedWorld_def storedWorld_def emptyLedger_def)
  from oplog_of_publish_path [OF reply parse_createReply pub conf r some,
      where runId = "''RUN1''"] none resolution_published(2) [of acmeItem]
  have ops: "\<exists>rest. w_oplog (snd ?p) = WriteEntity ''ID0'' # DuplicateCheck # rest"
    by auto
  from processItem_duplicate [OF reply parse_createReply pub conf r some dup,
      where runId = "''RUN1''"] found
  have res: "fst ?p = skipResult ''I1'' ''Duplicate card detected''"
    by (simp add: split_def Let_def)
  let ?d = "(mkDecision ?e ''RUN1'' ?er)
              \<lparr>ed_decision := SKIP, ed_reason := ''Duplicate card detected''\<rparr>"
  let ?w3 = "snd (checkForDuplicate (it_title acmeItem) [''ID0''] ?w2)"
  obtain x w4 where s: "skipItem ?e False (it_intakeId acmeItem) ?d ?w3 = (x, w4)"
    by (cases "skipItem ?e False (it_intakeId acmeItem) ?d ?w3")
  have c: "sameLedger ?w2 ?w3"
    using checkForDuplicate_world [of "it_title acmeItem" "[''ID0'']" ?w2] 
    by (cases "checkForDuplicate (it_title acmeItem) [''ID0''] ?w2") simp
  from processItem_resolved [OF reply parse_createReply pub conf r some,
      where runId = "''RUN1''"] dup s
  have "w_entities (snd ?p) = w_entities w4"
    by (cases x) (simp_all add: catchError_def)
  with skipItem_frame [OF s] c have "w_entities (snd ?p) = w_entities ?w2"
    by (simp add: sameLedger_def)
  with resolution_published(3) [of acmeItem]
  have ents: "map ent_name (w_entities (snd ?p)) = [''Acme Corp'']" by simp
  from none(1) ops ents res show ?thesis by simp
qed

subsection \<open>C5: no entity resolved\<close>




subsection \<open>C6: replies without a valid decision\<close>

text \<open>
  Claim C6. \<open>parseEditorResponse\<close> returns \<open>null\<close> exactly for the replies from which no valid
  decision can be extracted: no JSON object is found, the JSON does not parse, the
  \<open>decision\<close> field is missing, or it is neither PUBLISH nor SKIP. It never answers such a
  reply with a decision. For every such reply \<open>processItem\<close> ends the item as ERROR, with the
  reason "Failed to parse editor response", in a live run and in a dry run, and changes
  nothing but the log.
\<close>

theorem invalid_reply_is_error:
  "(parseEditorResponse content = ParseNull \<longleftrightarrow> noValidDecision content)
   \<and> (noValidDecision content \<longrightarrow>
        (\<forall>cfg e item template runId dryRun w.
           llmReply e item template w = Inr content \<longrightarrow>
             processItem cfg e item template runId dryRun w =
               (errorResult (it_intakeId item) ''Failed to parse editor response'',
                logMsg LWarn (parseFailureMessage content)
                  (logMsg LDebug ''Editor Claude call completed'' w))))"
proof -
  have iff: "parseEditorResponse content = ParseNull \<longleftrightarrow> noValidDecision content"
    by (simp add: parseEditorResponse_def noValidDecision_def validateParsed_null
             split: option.splits jres.splits)
  then show ?thesis
    by (auto simp: processItem_def catchError_def processItemBody_def llmReply_def Let_def)
qed

text \<open>The reply whose decision is "MAYBE" is an ERROR, not a SKIP.\<close>

theorem invalid_reply_is_error_witness:
  "noValidDecision maybeReply
   \<and> parseEditorResponse maybeReply = ParseNull
   \<and> llmReply (exampleEnv maybeReply) acmeItem ''T'' (storedWorld acmeItem) = Inr maybeReply
   \<and> processItem exampleConfig (exampleEnv maybeReply) acmeItem ''T'' ''RUN1'' False
        (storedWorld acmeItem)
       = (\<lparr>res_intakeId = ''I1'', res_decision = ERROR,
           res_reason = ''Failed to parse editor response'', res_cardId = None,
           res_entityIds = None, res_relationshipIds = None\<rparr>,
          logMsg LWarn ''Invalid decision in editor response''
            (logMsg LDebug ''Editor Claude call completed'' (storedWorld acmeItem)))"
proof -
  have reply: "llmReply (exampleEnv maybeReply) acmeItem ''T'' (storedWorld acmeItem)
                 = Inr maybeReply" by simp
  note t = invalid_reply_is_error [of maybeReply]
  from t have null: "parseEditorResponse maybeReply = ParseNull"
    using maybeReply_invalid(2) by blast
  from t [THEN conjunct2, rule_format, OF maybeReply_invalid(2) reply,
      where cfg = exampleConfig and runId = "''RUN1''" and dryRun = False]
  have "processItem exampleConfig (exampleEnv maybeReply) acmeItem ''T'' ''RUN1'' False
          (storedWorld acmeItem)
        = (errorResult ''I1'' ''Failed to parse editor response'',
           logMsg LWarn ''Invalid decision in editor response''
             (logMsg LDebug ''Editor Claude call completed'' (storedWorld acmeItem)))"
    by (simp add: maybeReply_invalid(3))
  with maybeReply_invalid(2) null reply show ?thesis by (simp add: errorResult_def)
qed

subsection \<open>C7: the text that is parsed\<close>

text \<open>
  Claim C7, as the code has it. Validation strips the Markdown code fences and then parses
  the text from the first opening brace to the last closing brace of the reply; braces are
  not matched. A fenced reply is parsed as its body. For every reply that consists of an
  object followed by trailing text without a closing brace, exactly the object is parsed.
\<close>

theorem parses_first_to_last_brace:
  "(extractJson s = Some m \<longleftrightarrow>
      (\<exists>pre post. s = pre @ m @ post \<and> CHR ''{'' \<notin> set pre \<and> CHR ''}'' \<notin> set post
          \<and> 2 \<le> length m \<and> hd m = CHR ''{'' \<and> last m = CHR ''}''))
   \<and> extractJson (stripFences (trim (FENCE @ ''json'' @ [NEWLINE] @ body @ [NEWLINE] @ FENCE)))
       = extractJson body
   \<and> (2 \<le> length obj \<and> hd obj = CHR ''{'' \<and> last obj = CHR ''}''
        \<and> CHR ''}'' \<notin> set trailing \<longrightarrow>
        extractJson (stripFences (trim (obj @ trailing))) = Some obj
        \<and> parseEditorResponse (obj @ trailing) = parseEditorResponse obj)"
proof (intro conjI impI)
  show "extractJson s = Some m \<longleftrightarrow>
      (\<exists>pre post. s = pre @ m @ post \<and> CHR ''{'' \<notin> set pre \<and> CHR ''}'' \<notin> set post
          \<and> 2 \<le> length m \<and> hd m = CHR ''{'' \<and> last m = CHR ''}'')"
    using extractJson_shape [of s m] extractJson_first_to_last by blast
  show "extractJson (stripFences (trim (FENCE @ ''json'' @ [NEWLINE] @ body @ [NEWLINE] @ FENCE)))
          = extractJson body"
    by (simp only: trim_fenced stripFences_fenced)
  assume h: "2 \<le> length obj \<and> hd obj = CHR ''{'' \<and> last obj = CHR ''}''
             \<and> CHR ''}'' \<notin> set trailing"
  then have ne: "obj \<noteq> []" by auto
  have ws: "\<not> isWhiteSpace (hd obj)" "\<not> isWhiteSpace (last obj)"
    using h by (simp_all add: isWhiteSpace_def)
  have bt: "hd obj \<noteq> BACKTICK" using h by (simp add: BACKTICK_def)
  have post: "CHR ''}'' \<notin> set (trimEnd t)" if "CHR ''}'' \<notin> set t" for t
    using that set_dropWhileD [of _ isWhiteSpace "rev t"] by (auto simp: trimEnd_def)
  have ex: "extractJson (obj @ t) = Some obj" if "CHR ''}'' \<notin> set t" for t
    using extractJson_first_to_last [of "[]" t obj] that h by simp
  have a: "extractJson (stripFences (trim (obj @ t))) = Some obj" if "CHR ''}'' \<notin> set t" for t
    using trim_object [OF ne ws, of t] stripFences_no_fence [of "obj @ trimEnd t"]
      ex [OF post [OF that]] ne bt by simp
  from a [of trailing] h show "extractJson (stripFences (trim (obj @ trailing))) = Some obj"
    by simp
  from a [of trailing] a [of "[]"] h
  show "parseEditorResponse (obj @ trailing) = parseEditorResponse obj"
    by (simp add: parseEditorResponse_def)
qed

text \<open>A SKIP object followed by a sentence is parsed as the object.\<close>

theorem parses_first_to_last_brace_witness:
  "2 \<le> length skipObject \<and> hd skipObject = CHR ''{'' \<and> last skipObject = CHR ''}''
   \<and> CHR ''}'' \<notin> set trailingNote
   \<and> extractJson (stripFences (trim (skipObject @ trailingNote))) = Some skipObject
   \<and> parseEditorResponse (skipObject @ trailingNote)
       = ParseOk \<lparr>er_decision = SKIP, er_reason = ''Routine notice'', er_confidence = 0,
                  er_category = None, er_entities = [], er_relationships = [],
                  er_cardSummary = []\<rparr>"
proof -
  have shape: "2 \<le> length skipObject \<and> hd skipObject = CHR ''{''
               \<and> last skipObject = CHR ''}'' \<and> CHR ''}'' \<notin> set trailingNote"
    by code_simp
  have alone: "parseEditorResponse skipObject
                 = ParseOk \<lparr>er_decision = SKIP, er_reason = ''Routine notice'',
                            er_confidence = 0, er_category = None, er_entities = [],
                            er_relationships = [], er_cardSummary = []\<rparr>"
    by code_simp
  from parses_first_to_last_brace [where obj = skipObject and trailing = trailingNote,
      THEN conjunct2, THEN conjunct2, rule_format, OF shape] shape alone
  show ?thesis by simp
qed

text \<open>
  Claim C7 as stated fails when the trailing text has braces of its own. The SKIP object is
  a valid decision; followed by a sentence that mentions its schema in braces, the text
  from the first opening brace to the last closing brace is not JSON, and the reply is
  rejected.
\<close>

theorem greedy_match_counterexample:
  "parseEditorResponse skipObject
     = ParseOk \<lparr>er_decision = SKIP, er_reason = ''Routine notice'', er_confidence = 0,
                er_category = None, er_entities = [], er_relationships = [],
                er_cardSummary = []\<rparr>
   \<and> extractJson (stripFences (trim (skipObject @ schemaNote)))
       = Some (skipObject @ '' I used the schema {decision, reason}'')
   \<and> parseEditorResponse (skipObject @ schemaNote) = ParseNull"
  by code_simp

subsection \<open>C8: duplicate titles\<close>

text \<open>
  Claim C8, as the code has it. Titles are compared after lowering the letters and removing
  the white space at both ends; white space inside a title counts. For every item on the
  PUBLISH path (a PUBLISH decision, a confidence at or above the threshold, at least one
  resolved entity) whose title equals, in that sense, the title of a published card in the
  fetched window, no source, card or relationship is created, and the outcome is SKIP with
  the reason "Duplicate card detected" whenever the run is a dry run or the update of the
  editor status finds the stored item.
\<close>

theorem duplicate_title_skip:
  assumes reply: "llmReply e item template w = Inr content"
    and parsed: "parseEditorResponse content = ParseOk er"
    and pub: "er_decision er = PUBLISH"
    and conf: "cfg_minConfidence cfg \<le> er_confidence er"
    and res: "fst (resolution e dryRun item er w) = Inr resolved"
    and some: "resolved \<noteq> []"
    and same: "\<exists>c \<in> set (listCards 100 w).
                 trim (toLowerCase (card_title c)) = trim (toLowerCase (it_title item))"
  shows "w_sources (snd (processItem cfg e item template runId dryRun w)) = w_sources w
         \<and> w_cards (snd (processItem cfg e item template runId dryRun w)) = w_cards w
         \<and> w_relationships (snd (processItem cfg e item template runId dryRun w))
             = w_relationships w
         \<and> (dryRun \<or> intakeFound w (it_intakeId item) \<longrightarrow>
              fst (processItem cfg e item template runId dryRun w)
                = skipResult (it_intakeId item) ''Duplicate card detected'')"
proof -
  have dup: "duplicateFound item resolved w"
    using same by (intro duplicateFound_same_title) (simp add: normalizeTitle_def)
  from processItem_duplicate [OF reply parsed pub conf resolution_pair [OF res] some dup,
      where runId = runId]
  show ?thesis by (simp add: split_def Let_def)
qed

text \<open>
  The title "  FTC FINES ACME CORP $5M " against the published card
  "FTC Fines Acme Corp $5M": the item is skipped as a duplicate and the card stays alone.
\<close>

theorem duplicate_title_skip_witness:
  "llmReply (exampleEnv createReply) shoutedItem ''T'' (publishedWorld shoutedItem)
     = Inr createReply
   \<and> parseEditorResponse createReply
       = ParseOk (response (19 / 20) [Create ''Acme Corp'' ''CORPORATION''])
   \<and> fst (resolution (exampleEnv createReply) False shoutedItem
            (response (19 / 20) [Create ''Acme Corp'' ''CORPORATION''])
            (publishedWorld shoutedItem)) = Inr [''ID0'']
   \<and> listCards 100 (publishedWorld shoutedItem) = [publishedCard]
   \<and> trim (toLowerCase (card_title publishedCard)) = trim (toLowerCase (it_title shoutedItem))
   \<and> intakeFound (publishedWorld shoutedItem) (it_intakeId shoutedItem)
   \<and> fst (processItem exampleConfig (exampleEnv createReply) shoutedItem ''T'' ''RUN1'' False
            (publishedWorld shoutedItem))
       = skipResult ''I1'' ''Duplicate card detected''
   \<and> w_cards (snd (processItem exampleConfig (exampleEnv createReply) shoutedItem ''T''
                     ''RUN1'' False (publishedWorld shoutedItem))) = [publishedCard]"
proof -
  let ?er = "response (19 / 20) [Create ''Acme Corp'' ''CORPORATION'']"
  let ?w = "publishedWorld shoutedItem"
  have reply: "llmReply (exampleEnv createReply) shoutedItem ''T'' ?w = Inr createReply"
    by simp
  have pub: "er_decision ?er = PUBLISH" by simp
  have conf: "cfg_minConfidence exampleConfig \<le> er_confidence ?er" by simp
  have some: "[''ID0''] \<noteq> ([] :: string list)" by simp
  have found: "intakeFound ?w (it_intakeId shoutedItem)" by (rule found_published)
  have cards: "listCards 100 ?w = [publishedCard]" "w_cards ?w = [publishedCard]"
    by (simp_all add: listCards_def publishedWorld_def storedWorld_def emptyLedger_def
          publishedCard_def)
  have title: "trim (toLowerCase (card_title publishedCard))
                 = trim (toLowerCase (it_title shoutedItem))"
    by code_simp
  have same: "\<exists>c \<in> set (listCards 100 ?w).
                trim (toLowerCase (card_title c)) = trim (toLowerCase (it_title shoutedItem))"
    using cards(1) title by simp
  from duplicate_title_skip [OF reply parse_createReply pub conf
      resolution_published(1) [of shoutedItem] some same, where runId = "''RUN1''"] found cards(2)
  have "fst (processItem exampleConfig (exampleEnv createReply) shoutedItem ''T'' ''RUN1'' False
               ?w) = skipResult ''I1'' ''Duplicate card detected''
        \<and> w_cards (snd (processItem exampleConfig (exampleEnv createReply) shoutedItem ''T''
                          ''RUN1'' False ?w)) = [publishedCard]"
    by simp
  with reply parse_createReply resolution_published(1) [of shoutedItem] cards(1) title found
  show ?thesis by simp
qed

text \<open>
  Claim C8 as stated fails in two ways. The title "FTC  Fines Acme Corp $5M", with two
  spaces after the first word, differs from the title of the published card by white space
  only, yet the item is published and a second card is created. And an item of the very
  title of the published card, stored behind a hundred older items, ends as ERROR: the
  duplicate is found, but the SKIPPED status cannot be recorded.
\<close>

theorem duplicate_title_not_skipped:
  "listCards 100 (publishedWorld spacedItem) = [publishedCard]
   \<and> filter (\<lambda>c. \<not> isWhiteSpace c) (toLowerCase (it_title spacedItem))
       = filter (\<lambda>c. \<not> isWhiteSpace c) (toLowerCase (card_title publishedCard))
   \<and> res_decision (fst (processItem exampleConfig (exampleEnv createReply) spacedItem ''T''
                          ''RUN1'' False (publishedWorld spacedItem))) = Decided PUBLISH
   \<and> length (w_cards (snd (processItem exampleConfig (exampleEnv createReply) spacedItem ''T''
                             ''RUN1'' False (publishedWorld spacedItem)))) = 2
   \<and> listCards 100 (crowdedPublishedWorld acmeItem) = [publishedCard]
   \<and> it_title acmeItem = card_title publishedCard
   \<and> intakeRow acmeItem \<in> set (w_intake (crowdedPublishedWorld acmeItem))
   \<and> fst (processItem exampleConfig (exampleEnv createReply) acmeItem ''T'' ''RUN1'' False
            (crowdedPublishedWorld acmeItem))
       = \<lparr>res_intakeId = ''I1'', res_decision = ERROR,
          res_reason = ''Intake item I1 not found'', res_cardId = None,
          res_entityIds = None, res_relationshipIds = None\<rparr>"
proof -
  let ?er = "response (19 / 20) [Create ''Acme Corp'' ''CORPORATION'']"
  let ?e = "exampleEnv createReply"
  let ?w = "publishedWorld spacedItem"
  let ?v = "crowdedPublishedWorld acmeItem"
  have pub: "er_decision ?er = PUBLISH" by simp
  have conf: "cfg_minConfidence exampleConfig \<le> er_confidence ?er" by simp
  have some: "[''ID0''] \<noteq> ([] :: string list)" by simp
  have cards: "listCards 100 ?w = [publishedCard]" "w_cards ?w = [publishedCard]"
    "listCards 100 ?v = [publishedCard]"
    by (simp_all add: listCards_def publishedWorld_def storedWorld_def emptyLedger_def
          crowdedPublishedWorld_def crowdedWorld_def publishedCard_def)
  have title: "filter (\<lambda>c. \<not> isWhiteSpace c) (toLowerCase (it_title spacedItem))
                 = filter (\<lambda>c. \<not> isWhiteSpace c) (toLowerCase (card_title publishedCard))"
    by code_simp
  have reply: "llmReply ?e spacedItem ''T'' ?w = Inr createReply" by simp
  have found: "intakeFound ?w (it_intakeId spacedItem)" by (rule found_published)
  from processItem_live_publish [OF reply parse_createReply pub conf
      resolution_pair [OF resolution_published(1) [of spacedItem]] some duplicate_examples(4)
      found, where runId = "''RUN1''"] cards(2)
  have spaced: "res_decision (fst (processItem exampleConfig ?e spacedItem ''T'' ''RUN1'' False
                                     ?w)) = Decided PUBLISH
                \<and> length (w_cards (snd (processItem exampleConfig ?e spacedItem ''T'' ''RUN1''
                                           False ?w))) = 2"
    by (simp add: split_def Let_def)
  have same: "it_title acmeItem = card_title publishedCard"
    by (simp add: acmeItem_def intakeItem_def publishedCard_def)
  have stored: "intakeRow acmeItem \<in> set (w_intake ?v)"
    by (simp add: crowdedPublishedWorld_def crowdedWorld_def emptyLedger_def)
  have reply': "llmReply ?e acmeItem ''T'' ?v = Inr createReply" by simp
  have missing: "\<not> intakeFound ?v (it_intakeId acmeItem)"
    using missing_crowded_published [of acmeItem] by simp
  from processItem_duplicate [OF reply' parse_createReply pub conf
      resolution_pair [OF resolution_crowded_published [of acmeItem]] some
      duplicate_examples(3) [of "[''ID0'']"], where runId = "''RUN1''"] missing
  have crowded: "fst (processItem exampleConfig ?e acmeItem ''T'' ''RUN1'' False ?v)
                   = errorResult ''I1'' ''Intake item I1 not found''"
    by (simp add: split_def Let_def)
  from cards(1,3) title spaced same stored crowded show ?thesis
    by (simp add: errorResult_def)
qed

subsection \<open>C9: the run and its failure\<close>

text \<open>
  Claim C9. In every completed run each eligible item produces one result, whatever the
  results of the items before it, and the errors counted are the results that are ERROR.
  The handler throws, and the invocation is reported as failed, if and only if at least one
  item was processed and every processed item ended as ERROR.
\<close>

theorem run_fails_iff_all_items_error:
  assumes "runEditor cfg e (logMsg LInfo ''Starting intake editor run'' w) = (Inr summary, w')"
  shows "length (sum_results summary) = sum_processed summary
         \<and> sum_processed summary =
             (if cfg_enabled cfg then length (getEligibleItems (cfg_maxItemsPerRun cfg) w) else 0)
         \<and> sum_errors summary = errorCount (sum_results summary)
         \<and> ((\<exists>msg. fst (handler cfg e w) = Inl msg) \<longleftrightarrow>
              1 \<le> sum_processed summary
              \<and> (\<forall>r \<in> set (sum_results summary). res_decision r = ERROR))"
proof -
  note s = runEditor_summary [OF assms]
  have g: "getEligibleItems (cfg_maxItemsPerRun cfg) (logMsg LInfo ''Starting intake editor run'' w)
             = getEligibleItems (cfg_maxItemsPerRun cfg) w"
    by (rule getEligibleItems_cong) simp
  have h: "(\<exists>msg. fst (handler cfg e w) = Inl msg) \<longleftrightarrow> allFailed summary"
    using assms by (simp add: handler_def Let_def)
  have "allFailed summary \<longleftrightarrow>
          1 \<le> sum_processed summary
          \<and> errorCount (sum_results summary) = length (sum_results summary)"
    using s by (auto simp: allFailed_def Suc_le_eq)
  then have "allFailed summary \<longleftrightarrow>
          1 \<le> sum_processed summary \<and> (\<forall>r \<in> set (sum_results summary). res_decision r = ERROR)"
    by (simp only: errorCount_all)
  with s g h show ?thesis by simp
qed

text \<open>
  A run over the one stored item, with a reply whose decision is invalid: the item is
  processed, its result is ERROR, and the handler throws "All 1 items failed processing".
\<close>

theorem run_fails_iff_all_items_error_witness:
  "fst (runEditor exampleConfig (exampleEnv maybeReply)
          (logMsg LInfo ''Starting intake editor run'' (storedWorld acmeItem)))
     = Inr \<lparr>sum_runId = ''ID0'', sum_startedAt = ''2026-01-01T00:00:00.000Z'',
            sum_completedAt = ''2026-01-01T00:00:00.000Z'', sum_processed = 1,
            sum_published = 0, sum_skipped = 0, sum_errors = 1, sum_dryRun = False,
            sum_results = [errorResult ''I1'' ''Failed to parse editor response'']\<rparr>
   \<and> fst (handler exampleConfig (exampleEnv maybeReply) (storedWorld acmeItem))
       = Inl ''All 1 items failed processing''"
proof -
  let ?s = "\<lparr>sum_runId = ''ID0'', sum_startedAt = ''2026-01-01T00:00:00.000Z'',
             sum_completedAt = ''2026-01-01T00:00:00.000Z'', sum_processed = 1,
             sum_published = 0, sum_skipped = 0, sum_errors = 1, sum_dryRun = False,
             sum_results = [errorResult ''I1'' ''Failed to parse editor response'']\<rparr>"
  let ?r = "runEditor exampleConfig (exampleEnv maybeReply)
              (logMsg LInfo ''Starting intake editor run'' (storedWorld acmeItem))"
  obtain w' where run: "?r = (Inr ?s, w')"
    using run_of_invalid_reply by (cases ?r) simp
  have one: "showNat 1 = ''1''" by code_simp
  from run_fails_iff_all_items_error [OF run]
  have "\<exists>msg. fst (handler exampleConfig (exampleEnv maybeReply) (storedWorld acmeItem))
                = Inl msg"
    by (simp add: errorResult_def)
  then have "fst (handler exampleConfig (exampleEnv maybeReply) (storedWorld acmeItem))
               = Inl ''All 1 items failed processing''"
    using one by (auto simp: handler_def run Let_def split: if_splits)
  with run_of_invalid_reply show ?thesis by simp
qed

subsection \<open>C10: an error after the publication\<close>

text \<open>
  Claim C10. There is an execution whose result is ERROR, without a card identifier, although
  the card of the item was created and published. Whenever a live run publishes an item
  and the final update of the intake item throws because its scan does not find the item,
  \<open>processItem\<close> returns ERROR with the message of the exception, and nothing is rolled
  back: the new entities, the source and the published card stay in the ledger, while the
  intake item is not marked as approved and no audit event is written.
\<close>

theorem error_after_publication:
  assumes reply: "llmReply e item template w = Inr content"
    and parsed: "parseEditorResponse content = ParseOk er"
    and pub: "er_decision er = PUBLISH"
    and conf: "cfg_minConfidence cfg \<le> er_confidence er"
    and res: "fst (resolution e False item er w) = Inr resolved"
    and some: "resolved \<noteq> []"
    and nodup: "\<not> duplicateFound item resolved w"
    and missing: "\<not> intakeFound w (it_intakeId item)"
    and published: "\<forall>v i. \<not> publishCardFails e v i"
  shows "fst (processItem cfg e item template runId False w)
           = \<lparr>res_intakeId = it_intakeId item, res_decision = ERROR,
              res_reason = ''Intake item '' @ it_intakeId item @ '' not found'',
              res_cardId = None, res_entityIds = None, res_relationshipIds = None\<rparr>
         \<and> snd (processItem cfg e item template runId False w)
             = logMsg LError ''Error processing item''
                 (snd (publishRecords e item er resolved
                         (recordOp DuplicateCheck (snd (resolution e False item er w)))))
         \<and> (\<exists>c \<in> set (w_cards (snd (processItem cfg e item template runId False w))).
               card_title c = it_title item \<and> card_entityIds c = resolved
               \<and> card_status c = PUBLISHED)
         \<and> length (w_cards (snd (processItem cfg e item template runId False w)))
             = Suc (length (w_cards w))
         \<and> length (w_sources (snd (processItem cfg e item template runId False w)))
             = Suc (length (w_sources w))
         \<and> w_entities (snd (processItem cfg e item template runId False w))
             = w_entities (snd (resolution e False item er w))
         \<and> w_intake (snd (processItem cfg e item template runId False w)) = w_intake w
         \<and> w_audit (snd (processItem cfg e item template runId False w)) = w_audit w"
proof -
  let ?w2 = "snd (resolution e False item er w)"
  let ?p = "publishRecords e item er resolved (recordOp DuplicateCheck ?w2)"
  note r = resolution_pair [OF res]
  note f = resolution_frame [OF r]
  note u = processItem_publish_unrecorded [OF reply parsed pub conf r some nodup missing,
      where runId = runId]
  obtain source c rels w7 where p: "?p = ((source, c, rels), w7)"
    by (cases ?p) auto
  from publishRecords_frame [OF p] published f
  have rec: "w_entities w7 = w_entities ?w2" "w_intake w7 = w_intake w"
    "w_audit w7 = w_audit w" "length (w_cards w7) = Suc (length (w_cards w))"
    "length (w_sources w7) = Suc (length (w_sources w))"
    "\<exists>c' \<in> set (w_cards w7). card_title c' = it_title item \<and> card_entityIds c' = resolved
        \<and> card_status c' = PUBLISHED"
    by auto
  from u p rec show ?thesis by (simp add: errorResult_def)
qed

text \<open>
  The item "FTC Fines Acme Corp $5M" is stored behind a hundred older items and is eligible
  for the run. The reply creates Acme Corp and the FTC and relates them. The live run
  writes both entities, the source, the card and the relationship, publishes the card and
  the relationship, and then fails to find the intake item: the result is ERROR.
\<close>

theorem error_after_publication_witness:
  "getEligibleItems 20 (crowdedWorld acmeItem) = [acmeItem]
   \<and> intakeRow acmeItem \<in> set (w_intake (crowdedWorld acmeItem))
   \<and> llmReply (exampleEnv finedReply) acmeItem ''T'' (crowdedWorld acmeItem) = Inr finedReply
   \<and> parseEditorResponse finedReply = ParseOk finedResponse
   \<and> er_decision finedResponse = PUBLISH
   \<and> cfg_minConfidence exampleConfig \<le> er_confidence finedResponse
   \<and> fst (resolution (exampleEnv finedReply) False acmeItem finedResponse
            (crowdedWorld acmeItem)) = Inr [''ID0'', ''ID1'']
   \<and> \<not> duplicateFound acmeItem [''ID0'', ''ID1''] (crowdedWorld acmeItem)
   \<and> \<not> intakeFound (crowdedWorld acmeItem) (it_intakeId acmeItem)
   \<and> fst (processItem exampleConfig (exampleEnv finedReply) acmeItem ''T'' ''RUN1'' False
            (crowdedWorld acmeItem))
       = \<lparr>res_intakeId = ''I1'', res_decision = ERROR,
          res_reason = ''Intake item I1 not found'', res_cardId = None,
          res_entityIds = None, res_relationshipIds = None\<rparr>
   \<and> (\<exists>c \<in> set (w_cards (snd (processItem exampleConfig (exampleEnv finedReply) acmeItem ''T''
                                  ''RUN1'' False (crowdedWorld acmeItem)))).
         card_title c = ''FTC Fines Acme Corp $5M'' \<and> card_entityIds c = [''ID0'', ''ID1'']
         \<and> card_status c = PUBLISHED)
   \<and> map ent_name
        (w_entities (snd (processItem exampleConfig (exampleEnv finedReply) acmeItem ''T''
                            ''RUN1'' False (crowdedWorld acmeItem)))) = [''Acme Corp'', ''FTC'']
   \<and> map src_url
        (w_sources (snd (processItem exampleConfig (exampleEnv finedReply) acmeItem ''T''
                           ''RUN1'' False (crowdedWorld acmeItem))))
       = [''https://www.ftc.gov/news/1'']
   \<and> map rel_status
        (w_relationships (snd (processItem exampleConfig (exampleEnv finedReply) acmeItem ''T''
                                 ''RUN1'' False (crowdedWorld acmeItem)))) = [PUBLISHED]
   \<and> w_intake (snd (processItem exampleConfig (exampleEnv finedReply) acmeItem ''T'' ''RUN1''
                      False (crowdedWorld acmeItem))) = w_intake (crowdedWorld acmeItem)
   \<and> w_audit (snd (processItem exampleConfig (exampleEnv finedReply) acmeItem ''T'' ''RUN1''
                     False (crowdedWorld acmeItem))) = []"
proof -
  let ?e = "exampleEnv finedReply"
  let ?w = "crowdedWorld acmeItem"
  let ?p = "processItem exampleConfig ?e acmeItem ''T'' ''RUN1'' False ?w"
  have reply: "llmReply ?e acmeItem ''T'' ?w = Inr finedReply" by simp
  have pub: "er_decision finedResponse = PUBLISH" by (simp add: finedResponse_def)
  have conf: "cfg_minConfidence exampleConfig \<le> er_confidence finedResponse"
    by (simp add: finedResponse_def)
  have some: "[''ID0'', ''ID1''] \<noteq> ([] :: string list)" by simp
  have nodup: "\<not> duplicateFound acmeItem [''ID0'', ''ID1''] ?w" by simp
  have missing: "\<not> intakeFound ?w (it_intakeId acmeItem)"
    using missing_crowded [of acmeItem] by simp
  have published: "\<forall>v i. \<not> publishCardFails ?e v i" by simp
  have title: "it_title acmeItem = ''FTC Fines Acme Corp $5M''"
    by (simp add: acmeItem_def intakeItem_def)
  have audit: "w_audit ?w = []" by (simp add: crowdedWorld_def emptyLedger_def)
  note t = error_after_publication [OF reply parse_finedReply pub conf
      resolution_fined [of acmeItem] some nodup missing published, where runId = "''RUN1''"]
  from t [THEN conjunct1]
  have res: "fst ?p = \<lparr>res_intakeId = ''I1'', res_decision = ERROR,
                      res_reason = ''Intake item I1 not found'', res_cardId = None,
                      res_entityIds = None, res_relationshipIds = None\<rparr>"
    by simp
  from t [THEN conjunct2, THEN conjunct2, THEN conjunct1]
  have card: "\<exists>c \<in> set (w_cards (snd ?p)).
                card_title c = ''FTC Fines Acme Corp $5M'' \<and> card_entityIds c = [''ID0'', ''ID1'']
                \<and> card_status c = PUBLISHED"
    by (simp only: title)
  from t have "w_intake (snd ?p) = w_intake ?w \<and> w_audit (snd ?p) = w_audit ?w"
    by blast
  then have kept: "w_intake (snd ?p) = w_intake ?w" "w_audit (snd ?p) = []"
    by (simp_all only: audit)
  from t have w': "snd ?p = logMsg LError ''Error processing item''
                     (snd (publishRecords ?e acmeItem finedResponse [''ID0'', ''ID1'']
                             (recordOp DuplicateCheck
                                (snd (resolution ?e False acmeItem finedResponse ?w)))))"
    by blast
  have recs: "map ent_name (w_entities (snd ?p)) = [''Acme Corp'', ''FTC'']"
    "map src_url (w_sources (snd ?p)) = [''https://www.ftc.gov/news/1'']"
    "map rel_status (w_relationships (snd ?p)) = [PUBLISHED]"
    by (simp_all only: w' logMsg_fields records_of_fined_item)
  from eligible_crowded stored_crowded [of acmeItem] reply parse_finedReply pub conf
    resolution_fined [of acmeItem] nodup missing res card recs kept
  show ?thesis by simp
qed

end
